(* ===== verification/Prelude.thy ===== *)
theory Prelude
  imports Main
begin

text \<open>
  Shared vocabulary of the development: the JavaScript built-ins the sources call
  (\<open>String.prototype.trim\<close>, \<open>substring\<close>, \<open>Array.prototype.reduce\<close> with a numeric
  accumulator, \<open>Number(v) || 0\<close>), the error values a JavaScript run can raise, and the
  generic lemmas on lists and sums that the component theories share.
  JavaScript strings are modelled as \<^typ>\<open>string\<close> (lists of 8-bit characters), JavaScript
  numbers that hold stomp counts, amounts and timestamps as \<^typ>\<open>int\<close>.
\<close>

named_theorems js_simps "evaluation rules of the modelled JavaScript built-ins"
named_theorems wf_intros "preservation rules of the component invariants"

section \<open>Errors a JavaScript run raises\<close>

text \<open>
  \<open>JsTypeError\<close> is the \<open>TypeError\<close> thrown when a property of \<open>undefined\<close> is read
  (\<open>undefined.map\<close>, \<open>[...undefined]\<close>); \<open>InvalidCharacterError\<close> is the
  \<open>DOMException\<close> that \<open>atob\<close> throws on input that is not base64.
\<close>

datatype js_error = JsTypeError | InvalidCharacterError

type_synonym 'a js_result = "js_error + 'a"

section \<open>Numbers read from form inputs\<close>

text \<open>
  A form handler reads \<open>Number(e.target.value)\<close> or \<open>Number.parseInt(\<dots>)\<close>; the model takes
  the number that call produced as \<^typ>\<open>int option\<close>, with \<^term>\<open>None\<close> for \<open>NaN\<close>.
  \<open>x || 0\<close> then replaces \<open>NaN\<close> (and \<open>0\<close>, which is falsy) by \<open>0\<close>.
\<close>

type_synonym js_num = "int option"

definition js_or_zero :: "js_num \<Rightarrow> int" where
  "js_or_zero v = (case v of None \<Rightarrow> 0 | Some n \<Rightarrow> n)"

lemma js_or_zero_simps [simp, js_simps]:
  "js_or_zero None = 0" "js_or_zero (Some n) = n"
  by (simp_all add: js_or_zero_def)

section \<open>Strings\<close>

text \<open>
  The white space \<open>String.prototype.trim\<close> removes, restricted to the 8-bit characters
  of the model: TAB, LF, VT, FF, CR, SPACE and NO-BREAK SPACE (U+00A0).
\<close>

definition js_is_space :: "char \<Rightarrow> bool" where
  "js_is_space c \<longleftrightarrow> of_char c \<in> {9, 10, 11, 12, 13, 32, 160 :: nat}"

definition js_trim :: "string \<Rightarrow> string" where
  "js_trim s = rev (dropWhile js_is_space (rev (dropWhile js_is_space s)))"

text \<open>A string is truthy when it is not empty: \<open>if (!s.trim())\<close> tests \<^term>\<open>js_trim s = []\<close>.\<close>

lemma dropWhile_all_Nil:
  "(\<forall>c \<in> set (dropWhile P xs). P c) \<longleftrightarrow> dropWhile P xs = []"
proof (cases "dropWhile P xs")
  case Nil
  then show ?thesis by (simp del: dropWhile_eq_Nil_conv)
next
  case (Cons y ys)
  then have "\<not> P y" by (simp add: dropWhile_eq_Cons_conv)
  with Cons show ?thesis by auto
qed

lemma js_trim_Nil_iff [js_simps]: "js_trim s = [] \<longleftrightarrow> (\<forall>c \<in> set s. js_is_space c)"
proof -
  have "js_trim s = [] \<longleftrightarrow> (\<forall>c \<in> set (dropWhile js_is_space s). js_is_space c)"
    by (simp add: js_trim_def dropWhile_eq_Nil_conv)
  also have "\<dots> \<longleftrightarrow> dropWhile js_is_space s = []"
    by (rule dropWhile_all_Nil)
  finally show ?thesis by (simp add: dropWhile_eq_Nil_conv)
qed

text \<open>
  \<open>s.substring(i, j)\<close>: both bounds are clamped to \<open>[0, s.length]\<close> and swapped when the
  first is the larger.
\<close>

definition js_substring :: "string \<Rightarrow> int \<Rightarrow> int \<Rightarrow> string" where
  "js_substring s i j =
     (let n = int (length s); a = min (max i 0) n; b = min (max j 0) n
      in take (nat (max a b - min a b)) (drop (nat (min a b)) s))"

lemma length_js_substring [js_simps]:
  assumes "0 \<le> i" and "i \<le> j"
  shows "length (js_substring s i j) \<le> nat (j - i)"
proof -
  define a b where "a = min (max i 0) (int (length s))" and "b = min (max j 0) (int (length s))"
  have "max a b - min a b \<le> j - i"
    using assms by (simp add: a_def b_def min_def max_def)
  then have "nat (max a b - min a b) \<le> nat (j - i)"
    by (rule nat_mono)
  moreover have "length (js_substring s i j) \<le> nat (max a b - min a b)"
    by (simp add: js_substring_def Let_def a_def b_def)
  ultimately show ?thesis
    by linarith
qed

text \<open>The decimal digits of a natural number, as a template literal \<open>`${n}`\<close> prints it.\<close>

fun js_nat_string :: "nat \<Rightarrow> string" where
  "js_nat_string n =
     (if n < 10 then [char_of (48 + n)] else js_nat_string (n div 10) @ [char_of (48 + n mod 10)])"

declare js_nat_string.simps [simp del]

text \<open>
  Reading the digits back (as \<open>Number.parseInt(s, 10)\<close> does on a string of digits) inverts
  \<^const>\<open>js_nat_string\<close>; it is used only to show that the printed numbers are distinct.
\<close>

definition dec_value :: "string \<Rightarrow> nat" where
  "dec_value s = foldl (\<lambda>acc c. 10 * acc + (of_char c - 48)) 0 s"

lemma dec_value_snoc: "dec_value (xs @ [c]) = 10 * dec_value xs + (of_char c - 48)"
  by (simp add: dec_value_def)

lemma dec_value_js_nat_string: "dec_value (js_nat_string n) = n"
proof (induction n rule: js_nat_string.induct)
  case (1 n)
  show ?case
  proof (cases "n < 10")
    case True
    then show ?thesis
      by (subst js_nat_string.simps) (simp add: dec_value_def of_char_of)
  next
    case False
    then have "dec_value (js_nat_string n)
                 = 10 * dec_value (js_nat_string (n div 10)) + (of_char (char_of (48 + n mod 10) :: char) - 48)"
      by (subst js_nat_string.simps) (simp add: dec_value_snoc)
    also have "\<dots> = 10 * (n div 10) + n mod 10"
      using 1 False by (simp add: of_char_of)
    finally show ?thesis by simp
  qed
qed

lemma js_nat_string_inj [simp]: "js_nat_string a = js_nat_string b \<longleftrightarrow> a = b"
  by (metis dec_value_js_nat_string)

lemma js_nat_string_digit: "c \<in> set (js_nat_string n) \<Longrightarrow> (48 :: nat) \<le> of_char c \<and> of_char c < (58 :: nat)"
proof (induction n rule: js_nat_string.induct)
  case (1 n)
  show ?case
  proof (cases "n < 10")
    case True
    with 1 show ?thesis
      by (subst (asm) js_nat_string.simps) (auto simp: of_char_of)
  next
    case False
    with 1 have "c \<in> set (js_nat_string (n div 10)) \<or> c = char_of (48 + n mod 10)"
      by (subst (asm) js_nat_string.simps) auto
    with 1 False show ?thesis
      by (auto simp: of_char_of)
  qed
qed

section \<open>Array.prototype.reduce with a sum\<close>

text \<open>\<open>xs.reduce((sum, x) => sum + f(x), 0)\<close>, folding from the left as the source does.\<close>

definition js_sum :: "('a \<Rightarrow> int) \<Rightarrow> 'a list \<Rightarrow> int" where
  "js_sum f xs = foldl (\<lambda>s x. s + f x) 0 xs"

lemma foldl_plus_shift: "foldl (\<lambda>s x. s + f x) a xs = a + sum_list (map f xs)"
  for a :: int
  by (induction xs arbitrary: a) (simp_all add: algebra_simps)

lemma js_sum_eq [simp, js_simps]: "js_sum f xs = sum_list (map f xs)"
  by (simp add: js_sum_def foldl_plus_shift)

section \<open>Generic list lemmas\<close>

lemma find_Some_in: "find P xs = Some x \<Longrightarrow> x \<in> set xs \<and> P x"
  by (induction xs) (auto split: if_splits)

lemma find_distinct_key:
  "distinct (map f xs) \<Longrightarrow> x \<in> set xs \<Longrightarrow> find (\<lambda>y. f y = f x) xs = Some x"
  by (induction xs) (auto simp: rev_image_eqI)

lemma length_filter_distinct_key:
  "distinct (map f xs) \<Longrightarrow> length (filter (\<lambda>x. f x = k) xs) \<le> 1"
proof (induction xs)
  case (Cons a xs)
  then show ?case
    by (cases "f a = k") (auto simp: filter_empty_conv rev_image_eqI)
qed simp

lemma filter_neq_last:
  "distinct (map f xs) \<Longrightarrow> xs \<noteq> [] \<Longrightarrow> filter (\<lambda>x. f (last xs) \<noteq> f x) xs = butlast xs"
proof (induction xs)
  case (Cons a xs)
  show ?case
  proof (cases "xs = []")
    case False
    have d: "f a \<notin> f ` set xs" using Cons.prems(1) by simp
    have "f (last xs) \<in> f ` set xs" using False by simp
    with d have "f (last xs) \<noteq> f a" by (metis)
    with False Cons show ?thesis by simp
  qed simp
qed simp

lemma find_map_inv:
  "(\<And>x. P (f x) = P x) \<Longrightarrow> find P (map f xs) = map_option f (find P xs)"
  by (induction xs) auto

text \<open>A JavaScript object filled by \<open>keys.reduce((acc, k) => { acc[k] = f(k); return acc }, {})\<close>.\<close>

lemma fold_map_upd_lookup [simp]:
  "fold (\<lambda>k acc. acc(k \<mapsto> f k)) ks m x = (if x \<in> set ks then Some (f x) else m x)"
  by (induction ks arbitrary: m) auto

lemma sum_list_map_diff:
  "sum_list (map (\<lambda>x. f x - g x) xs) = sum_list (map f xs) - sum_list (map g xs)"
  for f g :: "'a \<Rightarrow> int"
  by (induction xs) simp_all

lemma sum_list_filter_partition:
  "sum_list (map f (filter P xs)) + sum_list (map f (filter (\<lambda>x. \<not> P x) xs))
     = sum_list (map f xs)"
  for f :: "'a \<Rightarrow> int"
  by (induction xs) simp_all

text \<open>Renaming one element of a list that holds it at most once keeps the list distinct.\<close>

lemma distinct_map_rename:
  assumes "distinct xs" and "new \<notin> set xs \<or> new = old"
  shows "distinct (map (\<lambda>t. if t = old then new else t) xs)"
  using assms
proof (induction xs)
  case Nil
  then show ?case by simp
next
  case (Cons x xs)
  then show ?case by (auto split: if_splits)
qed

lemma map_rename_update:
  "distinct xs \<Longrightarrow> i < length xs \<Longrightarrow> xs ! i = a \<Longrightarrow> map (\<lambda>t. if t = a then b else t) xs = xs[i := b]"
  by (auto simp: list_eq_iff_nth_eq nth_list_update nth_eq_iff_index_eq)

lemma set_map_rename:
  "set (map (\<lambda>t. if t = old then new else t) xs)
     = (if old \<in> set xs then insert new (set xs - {old}) else set xs)"
  by (induction xs) auto

lemma filter_neq_remove1: "distinct xs \<Longrightarrow> filter (\<lambda>t. t \<noteq> x) xs = remove1 x xs"
  by (induction xs) (auto simp: filter_id_conv)

lemma distinct_concat_map_Pair:
  "distinct xs \<Longrightarrow> (\<And>x. distinct (ys x)) \<Longrightarrow> distinct (concat (map (\<lambda>x. map (Pair x) (ys x)) xs))"
  by (induction xs) (auto simp: distinct_map inj_on_def)

lemma length_filter_neq_distinct:
  "distinct xs \<Longrightarrow> x \<in> set xs \<Longrightarrow> length (filter (\<lambda>t. t \<noteq> x) xs) = length xs - 1"
proof (induction xs)
  case Nil
  then show ?case by simp
next
  case (Cons y ys)
  show ?case
  proof (cases "y = x")
    case True
    with Cons.prems have "x \<notin> set ys" by simp
    then have "filter (\<lambda>t. t \<noteq> x) ys = ys" by (auto simp: filter_id_conv)
    with True show ?thesis by simp
  next
    case False
    with Cons have "length (filter (\<lambda>t. t \<noteq> x) ys) = length ys - 1" by simp
    moreover from False Cons.prems have "ys \<noteq> []" by auto
    ultimately show ?thesis using False by simp
  qed
qed

lemma length_filter_key_neq:
  assumes "distinct (map f xs)" and "x \<in> set xs"
  shows "length (filter (\<lambda>y. f y \<noteq> f x) xs) = length xs - 1"
proof -
  have "length (filter (\<lambda>y. f y \<noteq> f x) xs) = length (filter (\<lambda>t. t \<noteq> f x) (map f xs))"
    by (simp add: filter_map comp_def)
  also have "\<dots> = length (map f xs) - 1"
    using assms by (intro length_filter_neq_distinct) simp_all
  finally show ?thesis by simp
qed

lemma list_all_map_if:
  "list_all P xs \<Longrightarrow> (\<And>x. P x \<Longrightarrow> P (f x)) \<Longrightarrow> list_all P (map (\<lambda>x. if c x then f x else x) xs)"
  by (induction xs) auto

text \<open>Selecting by key from lists built one key at a time, each key once.\<close>

lemma filter_concat_keyed:
  assumes "distinct ts" and "t \<in> set ts" and "\<And>t' x. x \<in> set (g t') \<Longrightarrow> key x = t'"
  shows "filter (\<lambda>x. key x = t) (concat (map g ts)) = g t"
  using assms(1,2)
proof (induction ts)
  case Nil
  then show ?case by simp
next
  case (Cons t1 ts)
  have own: "filter (\<lambda>x. key x = t) (g t) = g t"
    using assms(3) by (simp add: filter_id_conv)
  have other: "filter (\<lambda>x. key x = t) (g t') = []" if "t' \<noteq> t" for t'
    using assms(3) that by (auto simp: filter_empty_conv)
  have rest: "filter (\<lambda>x. key x = t) (concat (map g ts)) = []" if "t \<notin> set ts"
    using that other by (induction ts) auto
  show ?case
    using Cons own other rest by (cases "t1 = t") auto
qed

lemma length_dropWhile_shorter:
  "c \<in> set s \<Longrightarrow> length (dropWhile (\<lambda>x. x \<noteq> c) s) - Suc 0 < length s"
proof -
  assume "c \<in> set s"
  then have "0 < length s" by (cases s) auto
  then show ?thesis
    using length_dropWhile_le [of "\<lambda>x. x \<noteq> c" s] by linarith
qed

text \<open>Renaming a tag inside list elements commutes with selecting the elements by tag.\<close>

lemma filter_map_rename:
  assumes "\<And>x. g (u x) = n" and "\<And>x. x \<in> set xs \<Longrightarrow> g x \<noteq> old \<Longrightarrow> g x \<noteq> n"
  shows "filter (\<lambda>x. g x = n) (map (\<lambda>x. if g x = old then u x else x) xs)
           = map u (filter (\<lambda>x. g x = old) xs)"
  using assms(2) by (induction xs) (auto simp: assms(1))

lemma filter_map_rename_other:
  assumes "\<And>x. g (u x) = n" and "t \<noteq> old" and "t \<noteq> n"
  shows "filter (\<lambda>x. g x = t) (map (\<lambda>x. if g x = old then u x else x) xs) = filter (\<lambda>x. g x = t) xs"
  using assms(2,3) by (induction xs) (auto simp: assms(1))

end
