(* ===== verification/Base64.thy ===== *)
theory Base64
  imports Prelude
begin

text \<open>
  The browser's \<open>btoa\<close> and \<open>atob\<close> (HTML standard, "forgiving-base64 encode" and
  "forgiving-base64 decode"), which \<open>encrypt\<close> and \<open>decrypt\<close> of \<open>src/lib/auth.ts\<close> call.
  They are platform code, not code of the repository; they are modelled from the standard
  so that the round trip \<open>decrypt (encrypt s) = s\<close> the credential check relies on can be
  proved. The input of \<open>btoa\<close> is a string of 8-bit characters (the model's
  \<^typ>\<open>char\<close>), so its \<open>InvalidCharacterError\<close> for code units above 255 cannot arise;
  \<open>atob\<close> raises it on input that is not base64, and the model returns it as an error value.
\<close>

section \<open>The alphabet\<close>

definition b64_digit :: "nat \<Rightarrow> char" where
  "b64_digit n =
     (if n < 26 then char_of (65 + n)
      else if n < 52 then char_of (71 + n)
      else if n < 62 then char_of (n - 4)
      else if n = 62 then CHR ''+'' else CHR ''/'')"

definition b64_value :: "char \<Rightarrow> nat option" where
  "b64_value c =
     (let k = (of_char c :: nat) in
      if 65 \<le> k \<and> k \<le> 90 then Some (k - 65)
      else if 97 \<le> k \<and> k \<le> 122 then Some (k - 71)
      else if 48 \<le> k \<and> k \<le> 57 then Some (k + 4)
      else if k = 43 then Some 62
      else if k = 47 then Some 63
      else None)"

section \<open>Encoding: groups of three bytes become four digits\<close>

fun b64_sextets :: "string \<Rightarrow> nat list" where
  "b64_sextets (a # b # c # rest) =
     (let n = (of_char a :: nat) * 65536 + of_char b * 256 + of_char c
      in [n div 262144, n div 4096 mod 64, n div 64 mod 64, n mod 64]) @ b64_sextets rest"
| "b64_sextets [a, b] =
     (let n = (of_char a :: nat) * 65536 + of_char b * 256
      in [n div 262144, n div 4096 mod 64, n div 64 mod 64])"
| "b64_sextets [a] =
     (let n = (of_char a :: nat) * 65536 in [n div 262144, n div 4096 mod 64])"
| "b64_sextets [] = []"

definition b64_padding :: "nat \<Rightarrow> nat" where
  "b64_padding len = (3 - len mod 3) mod 3"

definition btoa :: "string \<Rightarrow> string" where
  "btoa s = map b64_digit (b64_sextets s) @ replicate (b64_padding (length s)) CHR ''=''"

section \<open>Decoding\<close>

text \<open>ASCII white space, which forgiving-base64 decode removes first.\<close>

definition ascii_whitespace :: "char \<Rightarrow> bool" where
  "ascii_whitespace c \<longleftrightarrow> of_char c \<in> {9, 10, 12, 13, 32 :: nat}"

text \<open>If the length is a multiple of four, one or two trailing \<open>=\<close> are removed.\<close>

definition strip_padding :: "string \<Rightarrow> string" where
  "strip_padding s =
     (if length s mod 4 = 0 then
        if drop (length s - 2) s = ''=='' then take (length s - 2) s
        else if drop (length s - 1) s = ''='' then take (length s - 1) s
        else s
      else s)"

fun b64_bytes :: "nat list \<Rightarrow> string" where
  "b64_bytes (a # b # c # d # rest) =
     (let n = a * 262144 + b * 4096 + c * 64 + d
      in [char_of (n div 65536), char_of (n div 256 mod 256), char_of (n mod 256)]) @ b64_bytes rest"
| "b64_bytes [a, b, c] =
     (let n = a * 262144 + b * 4096 + c * 64
      in [char_of (n div 65536), char_of (n div 256 mod 256)])"
| "b64_bytes [a, b] =
     (let n = a * 262144 + b * 4096 in [char_of (n div 65536)])"
| "b64_bytes [a] = []"
| "b64_bytes [] = []"

text \<open>
  A remainder of one digit after the padding is removed, or a character outside the
  alphabet (an \<open>=\<close> in the middle included), is an \<open>InvalidCharacterError\<close>.
  Like the standard, the decoder does not check that the bits dropped from a partial group are
  zero.
\<close>

definition atob :: "string \<Rightarrow> string js_result" where
  "atob s =
     (let data = strip_padding (filter (\<lambda>c. \<not> ascii_whitespace c) s)
      in if length data mod 4 = 1 then Inl InvalidCharacterError
         else case those (map b64_value data) of
                None \<Rightarrow> Inl InvalidCharacterError
              | Some ds \<Rightarrow> Inr (b64_bytes ds))"

section \<open>Arithmetic of one group\<close>

lemma b64_recompose:
  "(n div 262144) * 262144 + (n div 4096 mod 64) * 4096 + (n div 64 mod 64) * 64 + n mod 64
     = (n :: nat)"
proof -
  have a: "n = n div 64 * 64 + n mod 64"
    by simp
  have b: "n div 64 = n div 4096 * 64 + n div 64 mod 64"
    using div_mult_mod_eq [of "n div 64" 64] by (simp add: div_mult2_eq [symmetric])
  have c: "n div 4096 = n div 262144 * 64 + n div 4096 mod 64"
    using div_mult_mod_eq [of "n div 4096" 64] by (simp add: div_mult2_eq [symmetric])
  from a b c show ?thesis
    by linarith
qed

lemma div_mod_base: "c < k \<Longrightarrow> (c + q * k) div k = q \<and> (c + q * k) mod k = (c :: nat)"
  by simp

lemma b64_split_bytes:
  assumes "a < 256" "b < 256" "c < 256"
  shows "(a * 65536 + b * 256 + c) div 65536 = (a :: nat)"
    and "(a * 65536 + b * 256 + c) div 256 mod 256 = b"
    and "(a * 65536 + b * 256 + c) mod 256 = c"
proof -
  have e: "a * 65536 + b * 256 + c = c + (b + a * 256) * 256"
    by simp
  have d1: "(c + (b + a * 256) * 256) div 256 = b + a * 256"
    and m1: "(c + (b + a * 256) * 256) mod 256 = c"
    using assms div_mod_base by blast+
  have d2: "(b + a * 256) div 256 = a" "(b + a * 256) mod 256 = b"
    using assms div_mod_base by blast+
  have q: "(a * 65536 + b * 256 + c) div 65536 = (a * 65536 + b * 256 + c) div 256 div 256"
    using div_mult2_eq [of _ 256 256] by simp
  show "(a * 65536 + b * 256 + c) div 65536 = a"
    unfolding q unfolding e by (simp only: d1 d2)
  show "(a * 65536 + b * 256 + c) div 256 mod 256 = b"
    unfolding e by (simp only: d1 d2)
  show "(a * 65536 + b * 256 + c) mod 256 = c"
    unfolding e by (simp only: m1)
qed

section \<open>Structure of the encoding\<close>


lemma b64_sextets_bound: "\<forall>d \<in> set (b64_sextets s). d < 64"
proof (induction s rule: b64_sextets.induct)
  case (1 a b c rest)
  have "(of_char a :: nat) * 65536 + of_char b * 256 + of_char c < 262144 * 64"
    using nat_of_char_less_256 [of a] nat_of_char_less_256 [of b] nat_of_char_less_256 [of c]
    by linarith
  then have "((of_char a :: nat) * 65536 + of_char b * 256 + of_char c) div 262144 < 64"
    by (simp add: less_mult_imp_div_less)
  with "1.IH" show ?case
    by (simp add: Let_def)
next
  case (2 a b)
  have "(of_char a :: nat) * 65536 + of_char b * 256 < 262144 * 64"
    using nat_of_char_less_256 [of a] nat_of_char_less_256 [of b] by linarith
  then have "((of_char a :: nat) * 65536 + of_char b * 256) div 262144 < 64"
    by (simp add: less_mult_imp_div_less)
  then show ?case
    by (simp add: Let_def)
next
  case (3 a)
  have "(of_char a :: nat) * 65536 < 262144 * 64"
    using nat_of_char_less_256 [of a] by linarith
  then have "((of_char a :: nat) * 65536) div 262144 < 64"
    by (simp add: less_mult_imp_div_less)
  then show ?case
    by (simp add: Let_def)
qed simp

lemma length_b64_sextets:
  "length (b64_sextets s) + b64_padding (length s) = 4 * ((length s + 2) div 3)"
proof (induction s rule: b64_sextets.induct)
  case (1 a b c rest)
  have "(5 + length rest) div 3 = Suc ((length rest + 2) div 3)"
    using div_add_self2 [of 3 "length rest + 2"] by (simp add: add.commute)
  with "1.IH" show ?case
    by (simp add: b64_padding_def Let_def)
qed (simp_all add: b64_padding_def Let_def)

lemma b64_value_digit: "n < 64 \<Longrightarrow> b64_value (b64_digit n) = Some n"
  by (auto simp: b64_digit_def b64_value_def Let_def)

lemma b64_digit_not_pad: "n < 64 \<Longrightarrow> b64_digit n \<noteq> CHR ''=''"
proof
  assume "n < 64" and "b64_digit n = CHR ''=''"
  then have "b64_value (CHR ''='') = Some n" using b64_value_digit by metis
  then show False by (simp add: b64_value_def)
qed

lemma b64_digit_not_space: "n < 64 \<Longrightarrow> \<not> ascii_whitespace (b64_digit n)"
proof
  assume "n < 64" and "ascii_whitespace (b64_digit n)"
  then have "b64_value (b64_digit n) = None"
    by (auto simp: ascii_whitespace_def b64_value_def Let_def)
  with \<open>n < 64\<close> show False by (simp add: b64_value_digit)
qed

lemma those_b64_value_digits:
  "\<forall>d \<in> set ds. d < 64 \<Longrightarrow> those (map b64_value (map b64_digit ds)) = Some ds"
  by (induction ds) (simp_all add: b64_value_digit)

lemma drop_last_eq: "t \<noteq> [] \<Longrightarrow> drop k s = t \<Longrightarrow> last s = last t"
  by (metis append_take_drop_id last_appendR)

lemma strip_padding_digits:
  assumes nopad: "CHR ''='' \<notin> set xs" and p: "p \<le> 2" and len: "(length xs + p) mod 4 = 0"
    and ne: "0 < p \<Longrightarrow> xs \<noteq> []"
  shows "strip_padding (xs @ replicate p CHR ''='') = xs"
proof (cases "xs = []")
  case True
  with len p have "p = 0" by auto
  with True show ?thesis by (simp add: strip_padding_def)
next
  case False
  then obtain ys x where xs: "xs = ys @ [x]" by (metis rev_exhaust)
  with nopad have x: "x \<noteq> CHR ''=''" by auto
  consider "p = 0" | "p = 1" | "p = 2" using p by linarith
  then show ?thesis
  proof cases
    case 1
    have d2: "drop (length xs - 2) xs \<noteq> ''==''"
      using drop_last_eq [of "''==''" "length xs - 2" xs] xs x by auto
    have d1: "drop (length xs - 1) xs \<noteq> ''=''"
      using drop_last_eq [of "''=''" "length xs - 1" xs] xs x by auto
    from 1 len have l0: "length xs mod 4 = 0" by simp
    show ?thesis
      by (simp only: 1 strip_padding_def replicate_0 append_Nil2 l0 d1 d2 if_True if_False if_cancel)
  next
    case 2
    have "drop (length ys) (ys @ [x, CHR ''='']) = [x, CHR ''='']" by simp
    with 2 xs len x show ?thesis by (simp add: strip_padding_def)
  next
    case 3
    with xs len show ?thesis by (simp add: strip_padding_def numeral_2_eq_2)
  qed
qed


lemma b64_bytes_sextets: "b64_bytes (b64_sextets s) = s"
proof (induction s rule: b64_sextets.induct)
  case (1 a b c rest)
  define n where "n = (of_char a :: nat) * 65536 + of_char b * 256 + of_char c"
  have m: "(n div 262144) * 262144 + (n div 4096 mod 64) * 4096 + (n div 64 mod 64) * 64 + n mod 64 = n"
    by (rule b64_recompose)
  have bytes: "n div 65536 = of_char a" "n div 256 mod 256 = of_char b" "n mod 256 = of_char c"
    unfolding n_def by (simp_all add: b64_split_bytes)
  have "b64_sextets (a # b # c # rest)
          = [n div 262144, n div 4096 mod 64, n div 64 mod 64, n mod 64] @ b64_sextets rest"
    by (simp add: n_def Let_def)
  then have "b64_bytes (b64_sextets (a # b # c # rest))
          = [char_of (n div 65536), char_of (n div 256 mod 256), char_of (n mod 256)]
              @ b64_bytes (b64_sextets rest)"
    by (simp only: append_Cons append_Nil b64_bytes.simps(1) Let_def m)
  with "1.IH" bytes show ?case
    by simp
next
  case (2 a b)
  define n where "n = (of_char a :: nat) * 65536 + of_char b * 256"
  have "n = (of_char a * 1024 + of_char b * 4) * 64"
    unfolding n_def by simp
  then have z: "n mod 64 = 0"
    by simp
  have m: "(n div 262144) * 262144 + (n div 4096 mod 64) * 4096 + (n div 64 mod 64) * 64 = n"
    using b64_recompose [of n] z by simp
  have bytes: "n div 65536 = of_char a" "n div 256 mod 256 = of_char b"
    unfolding n_def using b64_split_bytes [of "of_char a" "of_char b" 0] by simp_all
  have "b64_sextets [a, b] = [n div 262144, n div 4096 mod 64, n div 64 mod 64]"
    by (simp add: n_def Let_def)
  then have "b64_bytes (b64_sextets [a, b]) = [char_of (n div 65536), char_of (n div 256 mod 256)]"
    by (simp only: b64_bytes.simps(2) Let_def m)
  with bytes show ?case
    by simp
next
  case (3 a)
  define n where "n = (of_char a :: nat) * 65536"
  have e: "n = (of_char a * 16 * 64) * 64"
    unfolding n_def by simp
  then have z: "n mod 64 = 0" "n div 64 mod 64 = 0"
    by simp_all
  have m: "(n div 262144) * 262144 + (n div 4096 mod 64) * 4096 = n"
    using b64_recompose [of n] z by simp
  have bytes: "n div 65536 = of_char a"
    unfolding n_def by simp
  have "b64_sextets [a] = [n div 262144, n div 4096 mod 64]"
    by (simp add: n_def Let_def)
  then have "b64_bytes (b64_sextets [a]) = [char_of (n div 65536)]"
    by (simp only: b64_bytes.simps(3) Let_def m)
  with bytes show ?case
    by simp
qed simp

theorem atob_btoa: "atob (btoa s) = Inr s"
proof -
  define ds where "ds = b64_sextets s"
  define p where "p = b64_padding (length s)"
  have bound: "\<forall>d \<in> set ds. d < 64"
    unfolding ds_def by (rule b64_sextets_bound)
  have len: "length ds + p = 4 * ((length s + 2) div 3)"
    unfolding ds_def p_def by (rule length_b64_sextets)
  have p2: "p \<le> 2"
    unfolding p_def b64_padding_def by linarith
  have ne: "ds \<noteq> []" if "0 < p"
  proof -
    from that have "s \<noteq> []" by (auto simp: p_def b64_padding_def)
    then have "4 \<le> length ds + p" using len by (cases s) auto
    with p2 show ?thesis by auto
  qed
  have nopad: "CHR ''='' \<notin> set (map b64_digit ds)"
  proof
    assume "CHR ''='' \<in> set (map b64_digit ds)"
    then obtain x where "x \<in> set ds" and "b64_digit x = CHR ''=''" by auto
    with bound b64_digit_not_pad show False by blast
  qed
  have ws: "filter (\<lambda>c. \<not> ascii_whitespace c) (btoa s) = btoa s"
    using bound b64_digit_not_space
    by (auto simp: btoa_def ds_def [symmetric] ascii_whitespace_def filter_id_conv)
  have strip: "strip_padding (btoa s) = map b64_digit ds"
    unfolding btoa_def ds_def [symmetric] p_def [symmetric]
    using nopad p2 len ne by (intro strip_padding_digits) simp_all
  have notone: "length (map b64_digit ds) mod 4 \<noteq> 1"
  proof -
    have "length ds + p = 4 * k \<Longrightarrow> p \<le> 2 \<Longrightarrow> length ds mod 4 \<noteq> 1" for k
      by presburger
    with len p2 show ?thesis by simp
  qed
  show ?thesis
    using ws strip notone those_b64_value_digits [OF bound] b64_bytes_sextets [of s]
    by (simp add: atob_def ds_def)
qed


end
