(* ===== verification/Auth.thy ===== *)
theory Auth
  imports Base64
begin

text \<open>
  The credential authority of \<open>src/lib/auth.ts\<close>: \<open>encrypt\<close>/\<open>decrypt\<close> (string reversal and
  base64), the singleton class \<open>AuthSystem\<close> with its master password, admin password and list
  of temporary passwords, and its operations \<open>verifyPassword\<close>, \<open>createTempPassword\<close>,
  \<open>cleanupTempPasswords\<close> and \<open>getTempPasswords\<close>.
  Time is explicit: every operation that reads \<open>Date.now()\<close> takes the instant as its
  argument \<open>now\<close> (one reading per call; the source reads the clock once per list element in
  \<open>verifyPassword\<close>, which in a synchronous call is the same instant up to the clock's
  resolution). The random token \<open>Math.random().toString(36)\<close> is an argument \<open>rnd\<close> too.
  The recurring \<open>setInterval(cleanup, 60000)\<close> and the passing of time are the steps of the
  lifecycle relation \<open>auth_reachable\<close>.
\<close>

section \<open>encrypt and decrypt\<close>

definition encrypt :: "string \<Rightarrow> string" where
  "encrypt text = btoa (rev text)"

definition decrypt :: "string \<Rightarrow> string js_result" where
  "decrypt text = (case atob text of Inl e \<Rightarrow> Inl e | Inr s \<Rightarrow> Inr (rev s))"

section \<open>State\<close>

record temp_password =
  tp_password :: string
  expires_at :: int
  created_by :: string

record auth_system =
  master_password :: string
  admin_password :: string
  temp_passwords :: "temp_password list"

datatype auth_level = Master | Admin | Temp | NoLevel

record verify_result =
  is_valid :: bool
  level :: auth_level

text \<open>The private constructor: the two default passwords, stored encrypted, and no temporary ones.\<close>

definition auth_new :: auth_system where
  "auth_new =
     \<lparr>master_password = encrypt ''master123'', admin_password = encrypt ''admin456'',
      temp_passwords = []\<rparr>"

definition cleanup_interval :: int where
  "cleanup_interval = 60000"

section \<open>Operations\<close>

definition verify_password :: "auth_system \<Rightarrow> int \<Rightarrow> string \<Rightarrow> verify_result js_result" where
  "verify_password a now password =
     (case decrypt (master_password a) of
        Inl e \<Rightarrow> Inl e
      | Inr m \<Rightarrow>
          if password = m then Inr \<lparr>is_valid = True, level = Master\<rparr>
          else case decrypt (admin_password a) of
                 Inl e \<Rightarrow> Inl e
               | Inr d \<Rightarrow>
                   if password = d then Inr \<lparr>is_valid = True, level = Admin\<rparr>
                   else case find (\<lambda>tp. tp_password tp = password \<and> now < expires_at tp)
                               (temp_passwords a) of
                          Some _ \<Rightarrow> Inr \<lparr>is_valid = True, level = Temp\<rparr>
                        | None \<Rightarrow> Inr \<lparr>is_valid = False, level = NoLevel\<rparr>)"

definition default_expires_in :: int where
  "default_expires_in = 24 * 60 * 60 * 1000"

text \<open>
  \<open>createTempPassword(createdBy, expiresIn)\<close>: the token is
  \<open>Math.random().toString(36).substring(2, 8)\<close>, here \<open>js_substring rnd 2 8\<close>; the entry is
  appended and the token returned.
\<close>

definition create_temp_password ::
  "auth_system \<Rightarrow> int \<Rightarrow> string \<Rightarrow> string \<Rightarrow> int \<Rightarrow> auth_system \<times> string" where
  "create_temp_password a now rnd by_whom expires_in =
     (let password = js_substring rnd 2 8
      in (a\<lparr>temp_passwords := temp_passwords a @
             [\<lparr>tp_password = password, expires_at = now + expires_in, created_by = by_whom\<rparr>]\<rparr>,
          password))"

definition cleanup_temp_passwords :: "auth_system \<Rightarrow> int \<Rightarrow> auth_system" where
  "cleanup_temp_passwords a now =
     a\<lparr>temp_passwords := filter (\<lambda>tp. now < expires_at tp) (temp_passwords a)\<rparr>"

definition get_temp_passwords :: "auth_system \<Rightarrow> temp_password list" where
  "get_temp_passwords a = temp_passwords a"

section \<open>The singleton\<close>

text \<open>
  \<open>AuthSystem.instance\<close> and the timers the constructor registers with \<open>setInterval\<close>
  (each recorded by the instant it was registered).
\<close>

record auth_runtime =
  auth_instance :: "auth_system option"
  cleanup_timers :: "int list"

definition get_instance :: "auth_runtime \<Rightarrow> int \<Rightarrow> auth_runtime \<times> auth_system" where
  "get_instance r now =
     (case auth_instance r of
        Some a \<Rightarrow> (r, a)
      | None \<Rightarrow> (r\<lparr>auth_instance := Some auth_new, cleanup_timers := cleanup_timers r @ [now]\<rparr>,
                 auth_new))"

section \<open>Lifecycle\<close>

text \<open>
  The instance together with the clock and the instant the interval timer fires next. Time may
  pass up to that instant and no further before the timer runs (the event loop runs it when it
  is due); the timer sweeps and re-arms itself one interval later; a temporary password may be
  issued at the current instant with a validity \<open>expires_in\<close> allowed by \<open>ok\<close>. Verification
  and listing do not change the state, so they are no steps.
\<close>

record auth_world =
  sys :: auth_system
  clock :: int
  next_tick :: int

inductive auth_reachable :: "(int \<Rightarrow> bool) \<Rightarrow> auth_world \<Rightarrow> bool" for ok where
  start: "auth_reachable ok \<lparr>sys = auth_new, clock = t0, next_tick = t0 + cleanup_interval\<rparr>"
| advance: "auth_reachable ok w \<Longrightarrow> clock w \<le> t \<Longrightarrow> t \<le> next_tick w \<Longrightarrow>
    auth_reachable ok (w\<lparr>clock := t\<rparr>)"
| tick: "auth_reachable ok w \<Longrightarrow> clock w = next_tick w \<Longrightarrow>
    auth_reachable ok (w\<lparr>sys := cleanup_temp_passwords (sys w) (clock w),
                        next_tick := clock w + cleanup_interval\<rparr>)"
| issue: "auth_reachable ok w \<Longrightarrow> ok expires_in \<Longrightarrow>
    auth_reachable ok (w\<lparr>sys := fst (create_temp_password (sys w) (clock w) rnd by_whom expires_in)\<rparr>)"

definition sweep_inv :: "auth_world \<Rightarrow> bool" where
  "sweep_inv w \<longleftrightarrow>
     clock w \<le> next_tick w \<and> next_tick w - cleanup_interval \<le> clock w \<and>
     (\<forall>tp \<in> set (temp_passwords (sys w)). next_tick w - cleanup_interval \<le> expires_at tp)"

section \<open>encrypt and decrypt are inverse\<close>

lemma decrypt_encrypt_eq [simp]: "decrypt (encrypt s) = Inr s"
  by (simp add: decrypt_def encrypt_def atob_btoa)

section \<open>Verification\<close>

lemma verify_password_spec:
  "verify_password a now pw =
     (case decrypt (master_password a) of
        Inl e \<Rightarrow> Inl e
      | Inr m \<Rightarrow> (case decrypt (admin_password a) of
          Inl e \<Rightarrow> if pw = m then Inr \<lparr>is_valid = True, level = Master\<rparr> else Inl e
        | Inr d \<Rightarrow> Inr (
            if pw = m then \<lparr>is_valid = True, level = Master\<rparr>
            else if pw = d then \<lparr>is_valid = True, level = Admin\<rparr>
            else if \<exists>tp \<in> set (temp_passwords a). tp_password tp = pw \<and> now < expires_at tp
            then \<lparr>is_valid = True, level = Temp\<rparr>
            else \<lparr>is_valid = False, level = NoLevel\<rparr>)))"
  by (auto simp: verify_password_def find_None_iff dest: find_Some_in split: sum.splits option.splits)

text \<open>Only the entries of the list that are still valid at \<open>now\<close> matter to verification.\<close>

lemma verify_password_cong_valid:
  assumes "master_password b = master_password a" and "admin_password b = admin_password a"
    and "{tp \<in> set (temp_passwords b). now < expires_at tp}
           = {tp \<in> set (temp_passwords a). now < expires_at tp}"
  shows "verify_password b now pw = verify_password a now pw"
proof -
  have ex: "(\<exists>tp \<in> set (temp_passwords b). tp_password tp = pw \<and> now < expires_at tp)
          \<longleftrightarrow> (\<exists>tp \<in> set (temp_passwords a). tp_password tp = pw \<and> now < expires_at tp)"
    using assms(3) by blast
  show ?thesis
    unfolding verify_password_spec assms(1,2) ex by (rule refl)
qed


section \<open>Invariants of the lifecycle\<close>

lemma stored_passwords_reachable:
  "auth_reachable ok w \<Longrightarrow>
     master_password (sys w) = encrypt ''master123'' \<and> admin_password (sys w) = encrypt ''admin456''"
  by (induction rule: auth_reachable.induct)
    (simp_all add: auth_new_def create_temp_password_def cleanup_temp_passwords_def Let_def)

lemma sweep_inv_reachable:
  "auth_reachable (\<lambda>ttl. 0 \<le> ttl) w \<Longrightarrow> sweep_inv w"
proof (induction rule: auth_reachable.induct)
  case (start t0)
  then show ?case by (simp add: sweep_inv_def auth_new_def cleanup_interval_def)
next
  case (advance w t)
  then show ?case by (auto simp: sweep_inv_def)
next
  case (tick w)
  then show ?case by (auto simp: sweep_inv_def cleanup_temp_passwords_def)
next
  case (issue w expires_in rnd by_whom)
  then show ?case by (auto simp: sweep_inv_def create_temp_password_def Let_def)
qed

section \<open>Properties of the credential authority\<close>

text \<open>
  C1: for a state whose stored passwords are the encryptions of \<open>m\<close> and \<open>d\<close>,
  \<open>verifyPassword\<close> never raises and returns, in this order of precedence, \<open>master\<close> for
  \<open>m\<close>, \<open>admin\<close> for \<open>d\<close>, \<open>temp\<close> when some temporary password equals the candidate and
  has not expired, and \<open>none\<close> otherwise.
\<close>

theorem verify_password_levels:
  assumes "master_password a = encrypt m" and "admin_password a = encrypt d"
  shows "verify_password a now pw =
           Inr (if pw = m then \<lparr>is_valid = True, level = Master\<rparr>
                else if pw = d then \<lparr>is_valid = True, level = Admin\<rparr>
                else if \<exists>tp \<in> set (temp_passwords a). tp_password tp = pw \<and> now < expires_at tp
                then \<lparr>is_valid = True, level = Temp\<rparr>
                else \<lparr>is_valid = False, level = NoLevel\<rparr>)"
  by (simp add: verify_password_spec assms)

theorem verify_password_levels_witness:
  "master_password auth_new = encrypt ''master123'' \<and> admin_password auth_new = encrypt ''admin456''
   \<and> verify_password auth_new 0 ''admin456'' = Inr \<lparr>is_valid = True, level = Admin\<rparr>"
  using verify_password_levels [of auth_new "''master123''" "''admin456''" 0 "''admin456''"]
  by (simp add: auth_new_def)

text \<open>
  C2: \<open>decrypt\<close> inverts \<open>encrypt\<close> on every string: reversing and base64-encoding, then
  base64-decoding and reversing, gives the string back, and \<open>atob\<close> does not raise.
\<close>

theorem decrypt_encrypt: "decrypt (encrypt s) = Inr s"
  by (simp add: decrypt_def encrypt_def atob_btoa)

text \<open>
  C3: a temporary password is valid only strictly before its expiry: once the clock has
  reached \<open>now + expiresIn\<close> (at once when \<open>expiresIn \<le> 0\<close>), issuing it changes no
  verification result.
\<close>

theorem expired_issue_invisible:
  assumes "t + expires_in \<le> t'"
  shows "verify_password (fst (create_temp_password a t rnd by_whom expires_in)) t' pw
           = verify_password a t' pw"
  using assms by (intro verify_password_cong_valid) (auto simp: create_temp_password_def Let_def)

theorem expired_issue_invisible_witness:
  "(5::int) + 0 \<le> 5 \<and>
   verify_password (fst (create_temp_password auth_new 5 ''0.abcdefgh'' ''alice'' 0)) 5 ''abcdef''
     = verify_password auth_new 5 ''abcdef''"
  using expired_issue_invisible [of 5 0 5 auth_new "''0.abcdefgh''" "''alice''" "''abcdef''"]
  by simp

text \<open>
  C4: the sweep is unobservable: at any instant not before the sweep, verification against
  the swept state gives the same result as against the state before the sweep.
\<close>

theorem cleanup_unobservable:
  assumes "now \<le> t'"
  shows "verify_password (cleanup_temp_passwords a now) t' pw = verify_password a t' pw"
  using assms by (intro verify_password_cong_valid) (auto simp: cleanup_temp_passwords_def)

theorem cleanup_unobservable_witness:
  "(3::int) \<le> 4 \<and>
   verify_password (cleanup_temp_passwords (auth_new\<lparr>temp_passwords :=
      [\<lparr>tp_password = ''k'', expires_at = 9, created_by = ''x''\<rparr>]\<rparr>) 3) 4 ''k''
   = verify_password (auth_new\<lparr>temp_passwords :=
      [\<lparr>tp_password = ''k'', expires_at = 9, created_by = ''x''\<rparr>]\<rparr>) 4 ''k''"
  using cleanup_unobservable [of 3 4 "auth_new\<lparr>temp_passwords :=
      [\<lparr>tp_password = ''k'', expires_at = 9, created_by = ''x''\<rparr>]\<rparr>" "''k''"]
  by simp

text \<open>
  C5: with every temporary password issued with a validity \<open>expiresIn \<ge> 0\<close>, the list never
  holds an entry that expired more than one cleanup interval (60 s) before the current
  instant, in every state the lifecycle reaches (issue, passing time, timer sweeps).
\<close>

theorem sweep_bound:
  assumes "auth_reachable (\<lambda>ttl. 0 \<le> ttl) w"
  shows "\<forall>tp \<in> set (temp_passwords (sys w)). clock w - cleanup_interval \<le> expires_at tp"
  using sweep_inv_reachable [OF assms] by (auto simp: sweep_inv_def)

theorem sweep_bound_witness:
  "auth_reachable (\<lambda>ttl. 0 \<le> ttl)
     \<lparr>sys = fst (create_temp_password auth_new 0 ''0.abc'' ''x'' 10), clock = 0,
      next_tick = 0 + cleanup_interval\<rparr>
   \<and> 0 - cleanup_interval
       \<le> expires_at (hd (temp_passwords (fst (create_temp_password auth_new 0 ''0.abc'' ''x'' 10))))"
proof -
  have r: "auth_reachable (\<lambda>ttl. 0 \<le> ttl)
     \<lparr>sys = fst (create_temp_password auth_new 0 ''0.abc'' ''x'' 10), clock = 0,
      next_tick = 0 + cleanup_interval\<rparr>"
    using auth_reachable.issue [OF auth_reachable.start [of "\<lambda>ttl. 0 \<le> ttl" 0],
        where expires_in = 10 and rnd = "''0.abc''" and by_whom = "''x''"]
    by simp
  show ?thesis
    using r sweep_bound [OF r]
    by (simp add: create_temp_password_def auth_new_def Let_def)
qed

text \<open>
  C6: the bound of C6 needs the restriction on \<open>expiresIn\<close>: \<open>createTempPassword\<close> accepts
  a negative validity, and the entry it appends is then already further in the past than one
  cleanup interval (a counterexample to the invariant as the specification states it).
\<close>

theorem negative_ttl_breaks_sweep_bound:
  "\<exists>w. auth_reachable (\<lambda>_. True) w \<and>
       (\<exists>tp \<in> set (temp_passwords (sys w)). expires_at tp < clock w - cleanup_interval)"
proof -
  define w where "w = \<lparr>sys = fst (create_temp_password auth_new 0 ''0.abc'' ''x'' (-120000)),
                       clock = 0, next_tick = 0 + cleanup_interval\<rparr>"
  have "auth_reachable (\<lambda>_. True) w"
    using auth_reachable.issue [OF auth_reachable.start [of "\<lambda>_. True" 0],
        where expires_in = "-120000" and rnd = "''0.abc''" and by_whom = "''x''"]
    by (simp add: w_def)
  moreover have "\<exists>tp \<in> set (temp_passwords (sys w)). expires_at tp < clock w - cleanup_interval"
    by (simp add: w_def create_temp_password_def auth_new_def cleanup_interval_def Let_def)
  ultimately show ?thesis
    by blast
qed

text \<open>
  C7: the master and admin passwords never change: in every reachable state, whatever was
  issued or swept, \<open>master123\<close> verifies as \<open>master\<close> and \<open>admin456\<close> as \<open>admin\<close>.
\<close>

theorem credentials_immutable:
  assumes "auth_reachable ok w"
  shows "verify_password (sys w) t ''master123'' = Inr \<lparr>is_valid = True, level = Master\<rparr>
       \<and> verify_password (sys w) t ''admin456'' = Inr \<lparr>is_valid = True, level = Admin\<rparr>"
  using stored_passwords_reachable [OF assms] by (simp add: verify_password_spec)

theorem credentials_immutable_witness:
  "auth_reachable (\<lambda>_. True) \<lparr>sys = auth_new, clock = 7, next_tick = 7 + cleanup_interval\<rparr>
   \<and> verify_password auth_new 8 ''master123'' = Inr \<lparr>is_valid = True, level = Master\<rparr>"
proof -
  have r: "auth_reachable (\<lambda>_. True) \<lparr>sys = auth_new, clock = 7, next_tick = 7 + cleanup_interval\<rparr>"
    by (rule auth_reachable.start)
  show ?thesis
    using r credentials_immutable [OF r, of 8] by simp
qed

text \<open>
  C8: a token just issued with a positive validity verifies as \<open>temp\<close> at the instant of
  issue, unless it happens to equal the master or admin password.
\<close>

theorem issued_token_verifies:
  assumes "master_password a = encrypt m" and "admin_password a = encrypt d"
    and "0 < expires_in"
    and "snd (create_temp_password a t rnd by_whom expires_in) \<noteq> m"
    and "snd (create_temp_password a t rnd by_whom expires_in) \<noteq> d"
  shows "verify_password (fst (create_temp_password a t rnd by_whom expires_in)) t
           (snd (create_temp_password a t rnd by_whom expires_in))
         = Inr \<lparr>is_valid = True, level = Temp\<rparr>"
  using assms by (auto simp: verify_password_spec create_temp_password_def Let_def)

theorem issued_token_verifies_witness:
  "master_password auth_new = encrypt ''master123'' \<and> admin_password auth_new = encrypt ''admin456''
   \<and> (0::int) < 1000
   \<and> snd (create_temp_password auth_new 0 ''0.k3j9xq2p'' ''alice'' 1000) \<noteq> ''master123''
   \<and> snd (create_temp_password auth_new 0 ''0.k3j9xq2p'' ''alice'' 1000) \<noteq> ''admin456''
   \<and> verify_password (fst (create_temp_password auth_new 0 ''0.k3j9xq2p'' ''alice'' 1000)) 0
       (snd (create_temp_password auth_new 0 ''0.k3j9xq2p'' ''alice'' 1000))
     = Inr \<lparr>is_valid = True, level = Temp\<rparr>"
proof -
  have tok: "js_substring ''0.k3j9xq2p'' 2 8 = ''k3j9xq''"
    by (simp add: js_substring_def)
  show ?thesis
    using issued_token_verifies [of auth_new "''master123''" "''admin456''" 1000 0 "''0.k3j9xq2p''" "''alice''"]
    by (simp add: auth_new_def create_temp_password_def Let_def tok)
qed

text \<open>
  When \<open>Math.random()\<close> returns \<open>0\<close>, \<open>toString(36)\<close> is \<open>"0"\<close> and the token is the
  empty string; the empty string then verifies as a valid temporary password for a day.
\<close>

lemma empty_token_accepted:
  "snd (create_temp_password auth_new 0 ''0'' ''admin'' default_expires_in) = []
   \<and> verify_password (fst (create_temp_password auth_new 0 ''0'' ''admin'' default_expires_in))
       1000 [] = Inr \<lparr>is_valid = True, level = Temp\<rparr>"
  by (simp add: create_temp_password_def js_substring_def default_expires_in_def auth_new_def
      verify_password_spec Let_def)

text \<open>
  C9: a temporary password has at most six characters, and it can be empty: when
  \<open>Math.random()\<close> returns \<open>0\<close> the token is the empty string, which then verifies as a valid
  temporary password.
\<close>

theorem token_length_bound:
  "length (snd (create_temp_password a t rnd by_whom expires_in)) \<le> 6
   \<and> snd (create_temp_password auth_new 0 ''0'' ''admin'' default_expires_in) = []
   \<and> verify_password (fst (create_temp_password auth_new 0 ''0'' ''admin'' default_expires_in))
       1000 [] = Inr \<lparr>is_valid = True, level = Temp\<rparr>"
proof -
  have "length (snd (create_temp_password a t rnd by_whom expires_in)) \<le> 6"
    using length_js_substring [of 2 8 rnd] by (simp add: create_temp_password_def Let_def)
  with empty_token_accepted show ?thesis by blast
qed

text \<open>
  \<open>getInstance\<close> is idempotent: a second call returns the same instance and registers no
  second cleanup timer.
\<close>

lemma get_instance_idempotent:
  "get_instance (fst (get_instance r t)) t' = get_instance r t"
  by (simp add: get_instance_def split: option.splits)

text \<open>
  The specification's example: \<open>alice\<close> is issued a token valid for 1000 ms; it
  verifies at once as \<open>temp\<close>; after 1001 ms and a sweep it verifies as \<open>none\<close> and is no
  longer listed.
\<close>

lemma alice_example:
  "snd (create_temp_password auth_new t ''0.k3j9xq2p'' ''alice'' 1000) = ''k3j9xq''
   \<and> verify_password (fst (create_temp_password auth_new t ''0.k3j9xq2p'' ''alice'' 1000)) t ''k3j9xq''
       = Inr \<lparr>is_valid = True, level = Temp\<rparr>
   \<and> verify_password (cleanup_temp_passwords
         (fst (create_temp_password auth_new t ''0.k3j9xq2p'' ''alice'' 1000)) (t + 1001))
       (t + 1001) ''k3j9xq'' = Inr \<lparr>is_valid = False, level = NoLevel\<rparr>
   \<and> ''k3j9xq'' \<notin> tp_password ` set (get_temp_passwords (cleanup_temp_passwords
         (fst (create_temp_password auth_new t ''0.k3j9xq2p'' ''alice'' 1000)) (t + 1001)))"
  by (simp add: create_temp_password_def js_substring_def auth_new_def verify_password_spec
      cleanup_temp_passwords_def get_temp_passwords_def Let_def)

end
