(* ===== verification/TeamManager.thy ===== *)
theory TeamManager
  imports Prelude
begin

text \<open>
  \<open>TeamManager\<close> of \<open>src/components/team-manager.tsx\<close>: the form that adds, renames and
  deletes teams. Its local state (\<open>newTeamName\<close>, \<open>editingTeam\<close>, \<open>editedName\<close>) is a
  record; each handler takes the \<open>teams\<close> prop and returns the new local state, the callback
  it invokes on the page (a \<open>team_event\<close>, the interface the page implements) and the
  message it passes to \<open>alert\<close>, if any.
\<close>

record tm_state =
  new_team_name :: string
  editing_team :: "string option"
  edited_name :: string

datatype team_event = AddTeam string | DeleteTeam string | RenameTeam string string

type_synonym tm_result = "tm_state \<times> team_event option \<times> string option"

definition tm_init :: tm_state where
  "tm_init = \<lparr>new_team_name = [], editing_team = None, edited_name = []\<rparr>"

definition duplicate_alert :: string where
  "duplicate_alert = ''A team with this name already exists''"

definition tm_set_new_team_name :: "tm_state \<Rightarrow> string \<Rightarrow> tm_state" where
  "tm_set_new_team_name st v = st\<lparr>new_team_name := v\<rparr>"

definition tm_set_edited_name :: "tm_state \<Rightarrow> string \<Rightarrow> tm_state" where
  "tm_set_edited_name st v = st\<lparr>edited_name := v\<rparr>"

definition tm_handle_add_team :: "string list \<Rightarrow> tm_state \<Rightarrow> tm_result" where
  "tm_handle_add_team teams st =
     (if js_trim (new_team_name st) = [] then (st, None, None)
      else if new_team_name st \<in> set teams then (st, None, Some duplicate_alert)
      else (st\<lparr>new_team_name := []\<rparr>, Some (AddTeam (new_team_name st)), None))"

definition tm_start_editing :: "tm_state \<Rightarrow> string \<Rightarrow> tm_state" where
  "tm_start_editing st team_name = st\<lparr>editing_team := Some team_name, edited_name := team_name\<rparr>"

definition tm_cancel_editing :: "tm_state \<Rightarrow> tm_state" where
  "tm_cancel_editing st = st\<lparr>editing_team := None, edited_name := []\<rparr>"

text \<open>\<open>saveTeamName(oldName)\<close> leaves \<open>editedName\<close> as it is on success.\<close>

definition tm_save_team_name :: "string list \<Rightarrow> tm_state \<Rightarrow> string \<Rightarrow> tm_result" where
  "tm_save_team_name teams st old_name =
     (if js_trim (edited_name st) = [] then (tm_cancel_editing st, None, None)
      else if edited_name st \<in> set teams \<and> edited_name st \<noteq> old_name
      then (st, None, Some duplicate_alert)
      else (st\<lparr>editing_team := None\<rparr>, Some (RenameTeam old_name (edited_name st)), None))"

text \<open>The delete button of a listed team is disabled while at most two teams remain.\<close>

definition tm_delete_enabled :: "string list \<Rightarrow> bool" where
  "tm_delete_enabled teams \<longleftrightarrow> \<not> length teams \<le> 2"

definition tm_delete_click :: "string list \<Rightarrow> string \<Rightarrow> team_event option" where
  "tm_delete_click teams team = (if tm_delete_enabled teams then Some (DeleteTeam team) else None)"

text \<open>The events the component can emit for a given \<open>teams\<close> prop, whatever its local state.\<close>

inductive tm_emits :: "string list \<Rightarrow> team_event \<Rightarrow> bool" for teams where
  add: "tm_handle_add_team teams st = (st', Some e, al) \<Longrightarrow> tm_emits teams e"
| rename: "old_name \<in> set teams \<Longrightarrow> tm_save_team_name teams st old_name = (st', Some e, al) \<Longrightarrow>
    tm_emits teams e"
| delete: "team \<in> set teams \<Longrightarrow> tm_delete_click teams team = Some e \<Longrightarrow> tm_emits teams e"

inductive_cases tm_emits_AddTeamE: "tm_emits teams (AddTeam n)"
inductive_cases tm_emits_RenameTeamE: "tm_emits teams (RenameTeam old n)"
inductive_cases tm_emits_DeleteTeamE: "tm_emits teams (DeleteTeam n)"

section \<open>What the emitted events look like\<close>

lemma tm_handle_add_team_event:
  "tm_handle_add_team teams st = (st', Some e, al) \<Longrightarrow>
     e = AddTeam (new_team_name st) \<and> new_team_name st \<notin> set teams \<and> js_trim (new_team_name st) \<noteq> []"
  by (auto simp: tm_handle_add_team_def split: if_splits)

lemma tm_save_team_name_event:
  "tm_save_team_name teams st old_name = (st', Some e, al) \<Longrightarrow>
     e = RenameTeam old_name (edited_name st) \<and> (edited_name st \<notin> set teams \<or> edited_name st = old_name)
     \<and> js_trim (edited_name st) \<noteq> []"
  by (auto simp: tm_save_team_name_def tm_cancel_editing_def split: if_splits)

lemma tm_emits_AddTeam_iff:
  "tm_emits teams (AddTeam n) \<longleftrightarrow> n \<notin> set teams \<and> js_trim n \<noteq> []"
proof
  assume "tm_emits teams (AddTeam n)"
  then show "n \<notin> set teams \<and> js_trim n \<noteq> []"
    by (cases rule: tm_emits_AddTeamE)
      (auto dest: tm_handle_add_team_event tm_save_team_name_event simp: tm_delete_click_def split: if_splits)
next
  assume n: "n \<notin> set teams \<and> js_trim n \<noteq> []"
  have "tm_handle_add_team teams (tm_init\<lparr>new_team_name := n\<rparr>)
          = (tm_init, Some (AddTeam n), None)"
    using n by (simp add: tm_handle_add_team_def tm_init_def)
  then show "tm_emits teams (AddTeam n)"
    by (rule tm_emits.add)
qed

lemma tm_emits_RenameTeam_iff:
  "tm_emits teams (RenameTeam old_name n)
     \<longleftrightarrow> old_name \<in> set teams \<and> (n \<notin> set teams \<or> n = old_name) \<and> js_trim n \<noteq> []"
proof
  assume "tm_emits teams (RenameTeam old_name n)"
  then show "old_name \<in> set teams \<and> (n \<notin> set teams \<or> n = old_name) \<and> js_trim n \<noteq> []"
    by (cases rule: tm_emits_RenameTeamE)
      (auto dest: tm_handle_add_team_event tm_save_team_name_event simp: tm_delete_click_def split: if_splits)
next
  assume n: "old_name \<in> set teams \<and> (n \<notin> set teams \<or> n = old_name) \<and> js_trim n \<noteq> []"
  have "tm_save_team_name teams (tm_start_editing tm_init n) old_name
          = ((tm_start_editing tm_init n)\<lparr>editing_team := None\<rparr>, Some (RenameTeam old_name n), None)"
    using n by (auto simp: tm_save_team_name_def tm_start_editing_def tm_init_def)
  then show "tm_emits teams (RenameTeam old_name n)"
    using n by (blast intro: tm_emits.rename)
qed

lemma tm_emits_DeleteTeam_iff:
  "tm_emits teams (DeleteTeam n) \<longleftrightarrow> n \<in> set teams \<and> 2 < length teams"
proof
  assume "tm_emits teams (DeleteTeam n)"
  then show "n \<in> set teams \<and> 2 < length teams"
    by (cases rule: tm_emits_DeleteTeamE)
      (auto dest: tm_handle_add_team_event tm_save_team_name_event
        simp: tm_delete_click_def tm_delete_enabled_def split: if_splits)
next
  assume "n \<in> set teams \<and> 2 < length teams"
  then show "tm_emits teams (DeleteTeam n)"
    by (auto intro: tm_emits.delete simp: tm_delete_click_def tm_delete_enabled_def)
qed

lemmas tm_emits_simps = tm_emits_AddTeam_iff tm_emits_RenameTeam_iff tm_emits_DeleteTeam_iff

end
