(* ===== verification/PenaltiesManager.thy ===== *)
theory PenaltiesManager
  imports Prelude
begin

text \<open>
  \<open>PenaltiesManager\<close> of \<open>src/components/penalties-manager.tsx\<close>: the form that adds a
  penalty (\<open>newPenalty\<close>, a record), the grouping of the \<open>penalties\<close> prop by team and
  the per-team totals it renders. \<open>crypto.randomUUID()\<close> values are arguments; the number
  typed into the amount field is the value \<open>Number.parseInt\<close> produced (\<^typ>\<open>js_num\<close>).
\<close>

record penalty =
  pen_id :: string
  pen_description :: string
  pen_amount :: int
  pen_team :: string

text \<open>\<open>teams[0] || "Team 1"\<close>: the first team, unless there is none or its name is empty.\<close>

definition pm_default_team :: "string list \<Rightarrow> string" where
  "pm_default_team teams =
     (case teams of [] \<Rightarrow> ''Team 1'' | t # _ \<Rightarrow> if t = [] then ''Team 1'' else t)"

definition pm_init :: "string list \<Rightarrow> string \<Rightarrow> penalty" where
  "pm_init teams uuid =
     \<lparr>pen_id = uuid, pen_description = [], pen_amount = 0, pen_team = pm_default_team teams\<rparr>"

definition pm_set_description :: "penalty \<Rightarrow> string \<Rightarrow> penalty" where
  "pm_set_description f v = f\<lparr>pen_description := v\<rparr>"

definition pm_set_amount :: "penalty \<Rightarrow> js_num \<Rightarrow> penalty" where
  "pm_set_amount f v = f\<lparr>pen_amount := js_or_zero v\<rparr>"

definition pm_set_team :: "penalty \<Rightarrow> string \<Rightarrow> penalty" where
  "pm_set_team f v = f\<lparr>pen_team := v\<rparr>"

definition penalty_alert :: string where
  "penalty_alert = ''Please enter a description and a positive amount for the penalty''"

text \<open>
  \<open>handleAddPenalty\<close>: rejects an empty description or an amount \<open>\<le> 0\<close> with an alert;
  otherwise passes the form with a fresh id to \<open>onAddPenalty\<close> and resets the form, keeping
  the selected team.
\<close>

definition pm_handle_add_penalty ::
  "penalty \<Rightarrow> string \<Rightarrow> string \<Rightarrow> penalty \<times> penalty option \<times> string option" where
  "pm_handle_add_penalty f id1 id2 =
     (if pen_description f = [] \<or> pen_amount f \<le> 0 then (f, None, Some penalty_alert)
      else (\<lparr>pen_id = id2, pen_description = [], pen_amount = 0, pen_team = pen_team f\<rparr>,
            Some (f\<lparr>pen_id := id1\<rparr>), None))"

definition pm_penalties_by_team :: "string list \<Rightarrow> penalty list \<Rightarrow> string \<rightharpoonup> penalty list" where
  "pm_penalties_by_team teams pens =
     fold (\<lambda>t acc. acc(t \<mapsto> filter (\<lambda>p. pen_team p = t) pens)) teams Map.empty"

definition pm_team_totals :: "string list \<Rightarrow> penalty list \<Rightarrow> string \<rightharpoonup> int" where
  "pm_team_totals teams pens =
     fold (\<lambda>t acc. acc(t \<mapsto> js_sum pen_amount
             (case pm_penalties_by_team teams pens t of None \<Rightarrow> [] | Some ps \<Rightarrow> ps)))
       teams Map.empty"

text \<open>The groups the list renders: one per team, in the order of \<open>teams\<close>, empty ones skipped.\<close>

definition pm_visible_groups :: "string list \<Rightarrow> penalty list \<Rightarrow> (string \<times> penalty list) list" where
  "pm_visible_groups teams pens =
     filter (\<lambda>(t, ps). ps \<noteq> [])
       (map (\<lambda>t. (t, case pm_penalties_by_team teams pens t of None \<Rightarrow> [] | Some ps \<Rightarrow> ps)) teams)"

text \<open>
  The forms the component can hold for a \<open>teams\<close> prop: the initial one, and what the
  inputs, the team select (whose items are \<open>teams\<close>) and a successful add make of it.
\<close>

inductive pm_form :: "string list \<Rightarrow> penalty \<Rightarrow> bool" for teams where
  init: "pm_form teams (pm_init teams uuid)"
| description: "pm_form teams f \<Longrightarrow> pm_form teams (pm_set_description f v)"
| amount: "pm_form teams f \<Longrightarrow> pm_form teams (pm_set_amount f n)"
| team: "pm_form teams f \<Longrightarrow> v \<in> set teams \<Longrightarrow> pm_form teams (pm_set_team f v)"
| added: "pm_form teams f \<Longrightarrow> pm_handle_add_penalty f id1 id2 = (f', r, al) \<Longrightarrow> pm_form teams f'"

inductive pm_emits :: "string list \<Rightarrow> penalty \<Rightarrow> bool" for teams where
  add: "pm_form teams f \<Longrightarrow> pm_handle_add_penalty f id1 id2 = (f', Some p, al) \<Longrightarrow> pm_emits teams p"

section \<open>Lemmas\<close>

lemma pm_handle_add_penalty_event:
  "pm_handle_add_penalty f id1 id2 = (f', Some p, al) \<Longrightarrow>
     p = f\<lparr>pen_id := id1\<rparr> \<and> pen_description f \<noteq> [] \<and> 0 < pen_amount f
     \<and> pen_team f' = pen_team f \<and> al = None"
  by (auto simp: pm_handle_add_penalty_def split: if_splits)

lemma pm_handle_add_penalty_team:
  "pm_handle_add_penalty f id1 id2 = (f', r, al) \<Longrightarrow> pen_team f' = pen_team f"
  by (auto simp: pm_handle_add_penalty_def split: if_splits)

lemma pm_default_team_in:
  "teams \<noteq> [] \<Longrightarrow> hd teams \<noteq> [] \<Longrightarrow> pm_default_team teams \<in> set teams"
  by (cases teams) (auto simp: pm_default_team_def)

lemma pm_form_team:
  "pm_form teams f \<Longrightarrow> teams \<noteq> [] \<Longrightarrow> hd teams \<noteq> [] \<Longrightarrow> pen_team f \<in> set teams"
proof (induction rule: pm_form.induct)
  case (init uuid)
  then show ?case by (simp add: pm_init_def pm_default_team_in)
next
  case (added f id1 id2 f' r al)
  then show ?case using pm_handle_add_penalty_team by metis
qed (simp_all add: pm_set_description_def pm_set_amount_def pm_set_team_def)

lemma pm_penalties_by_team_in:
  "t \<in> set teams \<Longrightarrow> pm_penalties_by_team teams pens t = Some (filter (\<lambda>p. pen_team p = t) pens)"
  by (simp add: pm_penalties_by_team_def)

end
