(* ===== verification/StompChart.thy ===== *)
theory StompChart
  imports PenaltiesManager
begin

text \<open>
  \<open>StompChart\<close> of \<open>src/components/stomp-chart.tsx\<close>: the rows of each team, kept in the
  object \<open>teamPlayers\<close> keyed by team name (a map here), the preset player counts, the team
  and overall totals, the row handlers and the save that hands the named rows and the penalties
  to the page. Reading a team the object has no key for is \<open>undefined\<close>; \<open>[...undefined]\<close>,
  \<open>undefined.filter\<close> and \<open>undefined.map\<close> raise a \<open>TypeError\<close>, which the model returns
  as \<open>Inl JsTypeError\<close>. Fresh ids (\<open>crypto.randomUUID()\<close>) come from a supply function.
\<close>

record chart_player =
  cp_id :: string
  cp_name :: string
  score_before :: int
  score_after :: int
  cp_team :: string

type_synonym chart_state = "string \<rightharpoonup> chart_player list"

text \<open>The rows and penalties \<open>onSaveAllPlayers\<close> receives: the same fields without the id.\<close>

record match_player =
  mp_name :: string
  mp_before :: int
  mp_after :: int
  mp_team :: string

record match_penalty =
  mpn_description :: string
  mpn_amount :: int
  mpn_team :: string

record team_total =
  tt_before :: int
  tt_after :: int
  tt_gained :: int
  tt_penalties :: int
  tt_net :: int

definition preset_configs :: "(string \<times> nat) list" where
  "preset_configs = [(''10v10'', 10), (''5v5'', 5), (''3v3'', 3), (''2v2'', 2), (''1v1'', 1)]"

definition player_label :: "nat \<Rightarrow> string" where
  "player_label index = ''Player '' @ js_nat_string (index + 1)"

definition chart_new_row :: "string \<Rightarrow> string \<Rightarrow> nat \<Rightarrow> chart_player" where
  "chart_new_row uuid team index =
     \<lparr>cp_id = uuid, cp_name = player_label index, score_before = 0, score_after = 0, cp_team = team\<rparr>"

text \<open>\<open>Array.from({ length: n }, (_, index) => ...)\<close>, ids from the supply \<open>ids team index\<close>.\<close>

definition chart_rows :: "(string \<Rightarrow> nat \<Rightarrow> string) \<Rightarrow> string \<Rightarrow> nat \<Rightarrow> chart_player list" where
  "chart_rows ids team n = map (\<lambda>index. chart_new_row (ids team index) team index) [0..<n]"

definition set_player_count :: "string list \<Rightarrow> (string \<Rightarrow> nat \<Rightarrow> string) \<Rightarrow> nat \<Rightarrow> chart_state" where
  "set_player_count teams ids n = fold (\<lambda>t acc. acc(t \<mapsto> chart_rows ids t n)) teams Map.empty"

text \<open>The state's initialiser: one row per team (the custom mode).\<close>

definition chart_init :: "string list \<Rightarrow> (string \<Rightarrow> nat \<Rightarrow> string) \<Rightarrow> chart_state" where
  "chart_init teams ids = fold (\<lambda>t acc. acc(t \<mapsto> chart_rows ids t 1)) teams Map.empty"

definition team_rows :: "chart_state \<Rightarrow> string \<Rightarrow> chart_player list" where
  "team_rows tp team = (case tp team of None \<Rightarrow> [] | Some ps \<Rightarrow> ps)"

definition calculate_team_totals :: "chart_state \<Rightarrow> penalty list \<Rightarrow> string \<Rightarrow> team_total" where
  "calculate_team_totals tp pens team =
     (let players = team_rows tp team;
          penalty_total = js_sum pen_amount (filter (\<lambda>p. pen_team p = team) pens)
      in \<lparr>tt_before = js_sum score_before players,
          tt_after = js_sum score_after players,
          tt_gained = js_sum (\<lambda>p. score_after p - score_before p) players,
          tt_penalties = penalty_total,
          tt_net = js_sum (\<lambda>p. score_after p - score_before p) players - penalty_total\<rparr>)"

definition zero_total :: team_total where
  "zero_total = \<lparr>tt_before = 0, tt_after = 0, tt_gained = 0, tt_penalties = 0, tt_net = 0\<rparr>"

definition add_total :: "team_total \<Rightarrow> team_total \<Rightarrow> team_total" where
  "add_total acc t =
     \<lparr>tt_before = tt_before acc + tt_before t, tt_after = tt_after acc + tt_after t,
      tt_gained = tt_gained acc + tt_gained t, tt_penalties = tt_penalties acc + tt_penalties t,
      tt_net = tt_net acc + tt_net t\<rparr>"

definition overall_totals :: "string list \<Rightarrow> chart_state \<Rightarrow> penalty list \<Rightarrow> team_total" where
  "overall_totals teams tp pens =
     foldl (\<lambda>acc team. add_total acc (calculate_team_totals tp pens team)) zero_total teams"

definition handle_add_row :: "chart_state \<Rightarrow> string \<Rightarrow> string \<Rightarrow> chart_state js_result" where
  "handle_add_row tp team uuid =
     (case tp team of
        None \<Rightarrow> Inl JsTypeError
      | Some ps \<Rightarrow> Inr (tp(team \<mapsto> ps @ [chart_new_row uuid team (length ps)])))"

definition handle_delete_row :: "chart_state \<Rightarrow> string \<Rightarrow> string \<Rightarrow> chart_state js_result" where
  "handle_delete_row tp team pid =
     (case tp team of
        None \<Rightarrow> Inl JsTypeError
      | Some ps \<Rightarrow> Inr (tp(team \<mapsto> filter (\<lambda>p. cp_id p \<noteq> pid) ps)))"

text \<open>
  The three inputs of a row call \<open>handleInputChange\<close> with the field \<open>name\<close> and the text,
  or with a score field and the text, which is stored as \<open>Number(value) || 0\<close>.
\<close>

datatype chart_edit = EditName string | EditScoreBefore js_num | EditScoreAfter js_num

definition apply_chart_edit :: "chart_player \<Rightarrow> chart_edit \<Rightarrow> chart_player" where
  "apply_chart_edit p e =
     (case e of
        EditName v \<Rightarrow> p\<lparr>cp_name := v\<rparr>
      | EditScoreBefore v \<Rightarrow> p\<lparr>score_before := js_or_zero v\<rparr>
      | EditScoreAfter v \<Rightarrow> p\<lparr>score_after := js_or_zero v\<rparr>)"

definition handle_input_change ::
  "chart_state \<Rightarrow> string \<Rightarrow> string \<Rightarrow> chart_edit \<Rightarrow> chart_state js_result" where
  "handle_input_change tp team pid e =
     (case tp team of
        None \<Rightarrow> Inl JsTypeError
      | Some ps \<Rightarrow> Inr (tp(team \<mapsto> map (\<lambda>p. if cp_id p = pid then apply_chart_edit p e else p) ps)))"

definition to_match_player :: "chart_player \<Rightarrow> match_player" where
  "to_match_player p =
     \<lparr>mp_name = cp_name p, mp_before = score_before p, mp_after = score_after p, mp_team = cp_team p\<rparr>"

definition to_match_penalty :: "penalty \<Rightarrow> match_penalty" where
  "to_match_penalty p =
     \<lparr>mpn_description = pen_description p, mpn_amount = pen_amount p, mpn_team = pen_team p\<rparr>"

text \<open>\<open>teams.forEach\<close> collecting the rows whose name is not blank, raising on a team without rows.\<close>

fun collect_named :: "chart_state \<Rightarrow> string list \<Rightarrow> match_player list js_result" where
  "collect_named tp [] = Inr []"
| "collect_named tp (team # rest) =
     (case tp team of
        None \<Rightarrow> Inl JsTypeError
      | Some ps \<Rightarrow>
          (case collect_named tp rest of
             Inl e \<Rightarrow> Inl e
           | Inr others \<Rightarrow> Inr (map to_match_player (filter (\<lambda>p. js_trim (cp_name p) \<noteq> []) ps) @ others)))"

definition no_players_alert :: string where
  "no_players_alert = ''No players to save. Please make sure players have names.''"

text \<open>
  \<open>handleSaveAllPlayers\<close>: \<open>Inr (Inl msg)\<close> is the alert, \<open>Inr (Inr (players, penalties))\<close>
  the call of \<open>onSaveAllPlayers\<close>.
\<close>

definition chart_save ::
  "string list \<Rightarrow> chart_state \<Rightarrow> penalty list
     \<Rightarrow> (string + match_player list \<times> match_penalty list) js_result" where
  "chart_save teams tp pens =
     (case collect_named tp teams of
        Inl e \<Rightarrow> Inl e
      | Inr players \<Rightarrow>
          if players = [] then Inr (Inl no_players_alert)
          else Inr (Inr (players, map to_match_penalty pens)))"

text \<open>Rendering reads \<open>teamPlayers[team].map\<close> for every team; a row's delete button is disabled
  while its team has at most one row; the penalty summary shows when the team has penalties.\<close>

definition chart_render_ok :: "string list \<Rightarrow> chart_state \<Rightarrow> bool" where
  "chart_render_ok teams tp \<longleftrightarrow> list_all (\<lambda>t. tp t \<noteq> None) teams"

definition chart_delete_enabled :: "chart_state \<Rightarrow> string \<Rightarrow> bool" where
  "chart_delete_enabled tp team \<longleftrightarrow> \<not> length (team_rows tp team) \<le> 1"

definition chart_shows_penalty_summary :: "chart_state \<Rightarrow> penalty list \<Rightarrow> string \<Rightarrow> bool" where
  "chart_shows_penalty_summary tp pens team \<longleftrightarrow> 0 < tt_penalties (calculate_team_totals tp pens team)"

text \<open>Well-formed chart state: one row list per team of the prop, each row tagged with its team.\<close>

definition chart_wf :: "string list \<Rightarrow> chart_state \<Rightarrow> bool" where
  "chart_wf teams tp \<longleftrightarrow>
     dom tp = set teams \<and> (\<forall>t ps. tp t = Some ps \<longrightarrow> list_all (\<lambda>p. cp_team p = t) ps)"

text \<open>
  The states the rendered chart reaches for a \<open>teams\<close> prop: the initial one, a preset
  button, Add Player on a team, the delete button of a row (disabled while the team has at
  most one row), and a row's inputs. Fresh ids are distinct from the team's ids; the ids of a
  preset's rows are distinct.
\<close>

inductive chart_reachable :: "string list \<Rightarrow> chart_state \<Rightarrow> bool" for teams where
  init: "chart_reachable teams (chart_init teams ids)"
| preset: "(label, n) \<in> set preset_configs \<Longrightarrow> (\<And>t. inj (ids t))
           \<Longrightarrow> chart_reachable teams (set_player_count teams ids n)"
| add: "chart_reachable teams tp \<Longrightarrow> t \<in> set teams \<Longrightarrow> uuid \<notin> cp_id ` set (team_rows tp t)
        \<Longrightarrow> handle_add_row tp t uuid = Inr tp' \<Longrightarrow> chart_reachable teams tp'"
| delete: "chart_reachable teams tp \<Longrightarrow> t \<in> set teams \<Longrightarrow> chart_delete_enabled tp t
           \<Longrightarrow> p \<in> set (team_rows tp t) \<Longrightarrow> handle_delete_row tp t (cp_id p) = Inr tp'
           \<Longrightarrow> chart_reachable teams tp'"
| input: "chart_reachable teams tp \<Longrightarrow> t \<in> set teams \<Longrightarrow> p \<in> set (team_rows tp t)
          \<Longrightarrow> handle_input_change tp t (cp_id p) e = Inr tp' \<Longrightarrow> chart_reachable teams tp'"

text \<open>Every team of the prop has at least one row, with distinct ids.\<close>

definition chart_rows_ok :: "string list \<Rightarrow> chart_state \<Rightarrow> bool" where
  "chart_rows_ok teams tp \<longleftrightarrow>
     (\<forall>t \<in> set teams. team_rows tp t \<noteq> [] \<and> distinct (map cp_id (team_rows tp t)))"

section \<open>Well-formedness is kept\<close>

lemma chart_wf_rows:
  "chart_wf teams (fold (\<lambda>t acc. acc(t \<mapsto> chart_rows ids t n)) teams Map.empty)"
  by (auto simp: chart_wf_def chart_rows_def chart_new_row_def list_all_iff split: if_splits)

lemma chart_wf_init [wf_intros]: "chart_wf teams (chart_init teams ids)"
  unfolding chart_init_def by (rule chart_wf_rows)

lemma chart_wf_set_player_count [wf_intros]: "chart_wf teams (set_player_count teams ids n)"
  unfolding set_player_count_def by (rule chart_wf_rows)

lemma chart_wf_update:
  assumes "chart_wf teams tp" and "tp team = Some ps" and "list_all (\<lambda>p. cp_team p = team) ps'"
  shows "chart_wf teams (tp(team \<mapsto> ps'))"
proof -
  from assms(2) have "team \<in> dom tp" by blast
  then have "dom (tp(team \<mapsto> ps')) = dom tp" by auto
  with assms show ?thesis by (auto simp: chart_wf_def)
qed

lemma apply_chart_edit_team [simp]: "cp_team (apply_chart_edit p e) = cp_team p"
  by (cases e) (simp_all add: apply_chart_edit_def)

lemma chart_wf_add_row [wf_intros]:
  assumes wf: "chart_wf teams tp" and r: "handle_add_row tp team uuid = Inr tp'"
  shows "chart_wf teams tp'"
proof -
  from r obtain ps where ps: "tp team = Some ps" and tp': "tp' = tp(team \<mapsto> ps @ [chart_new_row uuid team (length ps)])"
    by (auto simp: handle_add_row_def split: option.splits)
  from wf ps have "list_all (\<lambda>p. cp_team p = team) ps"
    by (auto simp: chart_wf_def)
  then show ?thesis
    unfolding tp' by (intro chart_wf_update [OF wf ps]) (auto simp: list_all_iff chart_new_row_def)
qed

lemma chart_wf_delete_row [wf_intros]:
  assumes wf: "chart_wf teams tp" and r: "handle_delete_row tp team pid = Inr tp'"
  shows "chart_wf teams tp'"
proof -
  from r obtain ps where ps: "tp team = Some ps" and tp': "tp' = tp(team \<mapsto> filter (\<lambda>p. cp_id p \<noteq> pid) ps)"
    by (auto simp: handle_delete_row_def split: option.splits)
  from wf ps have "list_all (\<lambda>p. cp_team p = team) ps"
    by (auto simp: chart_wf_def)
  then show ?thesis
    unfolding tp' by (intro chart_wf_update [OF wf ps]) (auto simp: list_all_iff)
qed

lemma chart_wf_input_change [wf_intros]:
  assumes wf: "chart_wf teams tp" and r: "handle_input_change tp team pid e = Inr tp'"
  shows "chart_wf teams tp'"
proof -
  from r obtain ps where ps: "tp team = Some ps" and tp': "tp' = tp(team \<mapsto> map (\<lambda>p. if cp_id p = pid then apply_chart_edit p e else p) ps)"
    by (auto simp: handle_input_change_def split: option.splits)
  from wf ps have "list_all (\<lambda>p. cp_team p = team) ps"
    by (auto simp: chart_wf_def)
  then show ?thesis
    unfolding tp' by (intro chart_wf_update [OF wf ps]) (auto simp: list_all_iff)
qed

section \<open>No team loses its last row\<close>

lemma team_rows_fold [simp]:
  "team_rows (fold (\<lambda>t acc. acc(t \<mapsto> f t)) teams Map.empty) t = (if t \<in> set teams then f t else [])"
  by (simp add: team_rows_def)

lemma chart_rows_distinct: "inj (ids t) \<Longrightarrow> distinct (map cp_id (chart_rows ids t n))"
  by (simp add: chart_rows_def chart_new_row_def comp_def distinct_map inj_on_subset [OF _ subset_UNIV])

lemma chart_rows_ok_at:
  "chart_rows_ok teams tp \<Longrightarrow> t \<in> set teams \<Longrightarrow> tp t = Some ps \<Longrightarrow> ps \<noteq> [] \<and> distinct (map cp_id ps)"
  unfolding chart_rows_ok_def team_rows_def by (drule bspec) auto

lemma chart_rows_ok_update:
  "chart_rows_ok teams tp \<Longrightarrow> ps \<noteq> [] \<Longrightarrow> distinct (map cp_id ps) \<Longrightarrow>
     chart_rows_ok teams (tp(t \<mapsto> ps))"
  by (simp add: chart_rows_ok_def team_rows_def)

lemma chart_reachable_rows_ok: "chart_reachable teams tp \<Longrightarrow> chart_wf teams tp \<and> chart_rows_ok teams tp"
proof (induction rule: chart_reachable.induct)
  case (init ids)
  have "chart_rows_ok teams (chart_init teams ids)"
    unfolding chart_rows_ok_def chart_init_def by (simp only: team_rows_fold) (simp add: chart_rows_def)
  then show ?case by (simp add: chart_wf_init)
next
  case (preset label n ids)
  have "0 < n" using preset.hyps(1) by (auto simp: preset_configs_def)
  have "chart_rows_ok teams (set_player_count teams ids n)"
    unfolding chart_rows_ok_def set_player_count_def
  proof (simp only: team_rows_fold, intro ballI)
    fix t assume t: "t \<in> set teams"
    have "distinct (map cp_id (chart_rows ids t n))" using preset.hyps(2) by (rule chart_rows_distinct)
    moreover have "chart_rows ids t n \<noteq> []" using \<open>0 < n\<close> by (simp add: chart_rows_def)
    ultimately show "(if t \<in> set teams then chart_rows ids t n else []) \<noteq> []
        \<and> distinct (map cp_id (if t \<in> set teams then chart_rows ids t n else []))"
      using t by simp
  qed
  then show ?case by (simp add: chart_wf_set_player_count)
next
  case (add tp t uuid tp')
  then obtain ps where ps: "tp t = Some ps"
    and tp': "tp' = tp(t \<mapsto> ps @ [chart_new_row uuid t (length ps)])"
    by (auto simp: handle_add_row_def split: option.splits)
  have "distinct (map cp_id ps)" using chart_rows_ok_at [OF conjunct2 [OF add.IH] add.hyps(2) ps] by simp
  moreover have "uuid \<notin> cp_id ` set ps" using add.hyps(3) ps by (simp add: team_rows_def)
  ultimately have "distinct (map cp_id (ps @ [chart_new_row uuid t (length ps)]))"
    by (simp add: chart_new_row_def)
  then have "chart_rows_ok teams tp'"
    unfolding tp' by (intro chart_rows_ok_update [OF conjunct2 [OF add.IH]]) simp_all
  with chart_wf_add_row [OF conjunct1 [OF add.IH] add.hyps(4)] show ?case by simp
next
  case (delete tp t p tp')
  then obtain ps where ps: "tp t = Some ps"
    and tp': "tp' = tp(t \<mapsto> filter (\<lambda>q. cp_id q \<noteq> cp_id p) ps)"
    by (auto simp: handle_delete_row_def split: option.splits)
  have d: "distinct (map cp_id ps)" using chart_rows_ok_at [OF conjunct2 [OF delete.IH] delete.hyps(2) ps] by simp
  have p: "p \<in> set ps" using delete.hyps(4) ps by (simp add: team_rows_def)
  have "length (filter (\<lambda>q. cp_id q \<noteq> cp_id p) ps) = length ps - 1"
    by (rule length_filter_key_neq [OF d p])
  moreover have "2 \<le> length ps" using delete.hyps(3) ps by (simp add: chart_delete_enabled_def team_rows_def)
  ultimately have "filter (\<lambda>q. cp_id q \<noteq> cp_id p) ps \<noteq> []" by auto
  moreover have "distinct (map cp_id (filter (\<lambda>q. cp_id q \<noteq> cp_id p) ps))"
    using d by (simp add: distinct_map_filter)
  ultimately have "chart_rows_ok teams tp'"
    unfolding tp' by (intro chart_rows_ok_update [OF conjunct2 [OF delete.IH]])
  with chart_wf_delete_row [OF conjunct1 [OF delete.IH] delete.hyps(5)] show ?case by simp
next
  case (input tp t p e tp')
  then obtain ps where ps: "tp t = Some ps"
    and tp': "tp' = tp(t \<mapsto> map (\<lambda>q. if cp_id q = cp_id p then apply_chart_edit q e else q) ps)"
    by (auto simp: handle_input_change_def split: option.splits)
  have ids: "map cp_id (map (\<lambda>q. if cp_id q = cp_id p then apply_chart_edit q e else q) ps) = map cp_id ps"
    by (cases e) (simp_all add: apply_chart_edit_def)
  have base: "ps \<noteq> [] \<and> distinct (map cp_id ps)"
    using chart_rows_ok_at [OF conjunct2 [OF input.IH] input.hyps(2) ps] by simp
  have "distinct (map cp_id (map (\<lambda>q. if cp_id q = cp_id p then apply_chart_edit q e else q) ps))"
    using base by (simp only: ids)
  moreover have "map (\<lambda>q. if cp_id q = cp_id p then apply_chart_edit q e else q) ps \<noteq> []"
    using base by simp
  ultimately have "chart_rows_ok teams tp'"
    unfolding tp' by (intro chart_rows_ok_update [OF conjunct2 [OF input.IH]])
  with chart_wf_input_change [OF conjunct1 [OF input.IH] input.hyps(4)] show ?case by simp
qed

section \<open>Totals\<close>

lemma team_total_gained:
  "tt_gained (calculate_team_totals tp pens team)
     = tt_after (calculate_team_totals tp pens team) - tt_before (calculate_team_totals tp pens team)"
  by (simp add: calculate_team_totals_def Let_def sum_list_map_diff)

lemma foldl_add_total:
  "foldl (\<lambda>acc team. add_total acc (f team)) a ts
     = \<lparr>tt_before = tt_before a + sum_list (map (tt_before \<circ> f) ts),
        tt_after = tt_after a + sum_list (map (tt_after \<circ> f) ts),
        tt_gained = tt_gained a + sum_list (map (tt_gained \<circ> f) ts),
        tt_penalties = tt_penalties a + sum_list (map (tt_penalties \<circ> f) ts),
        tt_net = tt_net a + sum_list (map (tt_net \<circ> f) ts)\<rparr>"
  by (induction ts arbitrary: a) (simp_all add: add_total_def algebra_simps)

lemma collect_named_ok:
  "list_all (\<lambda>t. tp t \<noteq> None) ts \<Longrightarrow>
     collect_named tp ts = Inr (concat (map (\<lambda>t. map to_match_player
        (filter (\<lambda>p. js_trim (cp_name p) \<noteq> []) (team_rows tp t))) ts))"
  by (induction ts) (auto simp: team_rows_def)

lemma collect_named_error:
  "collect_named tp ts = Inl e \<longleftrightarrow> e = JsTypeError \<and> (\<exists>t \<in> set ts. tp t = None)"
  by (induction ts) (auto split: option.splits sum.splits)


section \<open>Properties of the chart\<close>

text \<open>
  C22. In every state the chart reaches from its initialiser and presets through its own
  buttons and inputs, no row handler on a team of the prop and no save raises the
  \<open>TypeError\<close> of reading \<open>teamPlayers[team]\<close> for a team without rows. The state is
  initialised once (\<open>useState\<close> with an initialiser function): when the \<open>teams\<close> prop
  later gains a team, the same state has no rows for it and saving raises the \<open>TypeError\<close>.
\<close>

theorem chart_no_type_error:
  assumes reach: "chart_reachable teams tp"
  shows "(\<forall>t \<in> set teams. \<not> isl (handle_add_row tp t uuid) \<and> \<not> isl (handle_delete_row tp t pid)
                          \<and> \<not> isl (handle_input_change tp t pid e))
         \<and> \<not> isl (chart_save teams tp pens)
         \<and> (t' \<notin> set teams \<longrightarrow> chart_save (teams @ [t']) tp pens = Inl JsTypeError)"
proof -
  have wf: "chart_wf teams tp"
    using chart_reachable_rows_ok [OF reach] by simp
  have ok: "list_all (\<lambda>t. tp t \<noteq> None) teams"
    using wf by (auto simp: chart_wf_def list_all_iff)
  have handlers: "\<not> isl (handle_add_row tp t uuid) \<and> \<not> isl (handle_delete_row tp t pid)
                   \<and> \<not> isl (handle_input_change tp t pid e)" if "t \<in> set teams" for t
  proof -
    have "tp t \<noteq> None" using ok that by (simp add: list_all_iff)
    then show ?thesis
      by (auto simp: handle_add_row_def handle_delete_row_def handle_input_change_def)
  qed
  have save: "\<not> isl (chart_save teams tp pens)"
    using collect_named_ok [OF ok] by (simp add: chart_save_def)
  have stale: "chart_save (teams @ [t']) tp pens = Inl JsTypeError" if "t' \<notin> set teams"
  proof -
    have "tp t' = None" using wf that by (auto simp: chart_wf_def)
    then have "collect_named tp (teams @ [t']) = Inl JsTypeError"
      using collect_named_error [of tp "teams @ [t']" JsTypeError] by auto
    then show ?thesis by (simp add: chart_save_def)
  qed
  show ?thesis
    using handlers save stale by blast
qed

theorem chart_no_type_error_witness:
  "\<not> isl (chart_save [''A'', ''B''] (chart_init [''A'', ''B''] (\<lambda>t i. t)) [])
   \<and> \<not> isl (handle_add_row (chart_init [''A'', ''B''] (\<lambda>t i. t)) ''B'' ''u'')
   \<and> chart_save [''A'', ''B'', ''C''] (chart_init [''A'', ''B''] (\<lambda>t i. t)) [] = Inl JsTypeError"
  using chart_no_type_error [OF chart_reachable.init [of "[''A'', ''B'']" "\<lambda>t i. t"],
      of "''u''" _ _ "[]" "''C''"]
  by simp

end
