(* ===== verification/SavedMatchView.thy ===== *)
theory SavedMatchView
  imports StompChart
begin

text \<open>
  \<open>SavedMatchView\<close> of \<open>src/components/saved-match-view.tsx\<close>: the saved players and
  penalties grouped by team, the per-team totals (objects keyed by team name, maps here), the
  winner banner and the overall totals. \<open>getWinningTeam\<close> sorts the teams by net gain with
  \<open>Array.prototype.sort\<close>, which is stable, with the comparator \<open>b.total - a.total\<close>:
  \<^const>\<open>sort_key\<close> on the negated total is the same stable descending sort.
\<close>

definition sv_players_by_team :: "string list \<Rightarrow> match_player list \<Rightarrow> string \<rightharpoonup> match_player list" where
  "sv_players_by_team teams players =
     fold (\<lambda>t acc. acc(t \<mapsto> filter (\<lambda>p. mp_team p = t) players)) teams Map.empty"

definition sv_penalties_by_team :: "string list \<Rightarrow> match_penalty list \<Rightarrow> string \<rightharpoonup> match_penalty list" where
  "sv_penalties_by_team teams pens =
     fold (\<lambda>t acc. acc(t \<mapsto> filter (\<lambda>p. mpn_team p = t) pens)) teams Map.empty"

definition or_empty :: "'a list option \<Rightarrow> 'a list" where
  "or_empty v = (case v of None \<Rightarrow> [] | Some xs \<Rightarrow> xs)"

definition sv_team_totals ::
  "string list \<Rightarrow> match_player list \<Rightarrow> match_penalty list \<Rightarrow> string \<rightharpoonup> team_total" where
  "sv_team_totals teams players pens =
     fold (\<lambda>t acc.
        let team_players = or_empty (sv_players_by_team teams players t);
            team_penalties = or_empty (sv_penalties_by_team teams pens t);
            penalty_total = js_sum mpn_amount team_penalties;
            stomps_gained = js_sum (\<lambda>p. mp_after p - mp_before p) team_players
        in acc(t \<mapsto> \<lparr>tt_before = js_sum mp_before team_players,
                     tt_after = js_sum mp_after team_players,
                     tt_gained = stomps_gained, tt_penalties = penalty_total,
                     tt_net = stomps_gained - penalty_total\<rparr>))
       teams Map.empty"

definition tie_label :: string where
  "tie_label = ''Tie''"

definition team_net :: "(string \<rightharpoonup> team_total) \<Rightarrow> string \<Rightarrow> int" where
  "team_net totals t = (case totals t of None \<Rightarrow> 0 | Some tt \<Rightarrow> tt_net tt)"

definition get_winning_team :: "string list \<Rightarrow> (string \<rightharpoonup> team_total) \<Rightarrow> (string \<times> int) option" where
  "get_winning_team teams totals =
     (if teams = [] then None
      else let sorted = sort_key (\<lambda>p. - snd p) (map (\<lambda>t. (t, team_net totals t)) teams)
           in case sorted of
                [] \<Rightarrow> None
              | [w] \<Rightarrow> Some w
              | w # v # _ \<Rightarrow> if snd w = snd v then Some (tie_label, snd w) else Some w)"

definition winner_banner :: "(string \<times> int) option \<Rightarrow> string option" where
  "winner_banner w =
     (case w of None \<Rightarrow> None
      | Some (t, n) \<Rightarrow> Some (if t = tie_label then ''It's a Tie!'' else t @ '' Wins!''))"

text \<open>\<open>Object.values(teamTotals)\<close>: one value per distinct team name.\<close>

definition sv_overall :: "(team_total \<Rightarrow> int) \<Rightarrow> string list \<Rightarrow> (string \<rightharpoonup> team_total) \<Rightarrow> int" where
  "sv_overall field teams totals =
     js_sum (\<lambda>t. case totals t of None \<Rightarrow> 0 | Some tt \<Rightarrow> field tt) (remdups teams)"

text \<open>
  A team's section: its name, the player count, a row per player (name, start, end,
  \<open>scoreAfter - scoreBefore\<close>), the totals row, the penalty list with its total when the
  team has penalties, and the summary (gained, penalties, net) read from the same totals.
  \<open>teamTotals[team] || {...}\<close> falls back to zeros.
\<close>

record sv_section =
  sec_team :: string
  sec_player_count :: nat
  sec_rows :: "(string \<times> int \<times> int \<times> int) list"
  sec_totals :: team_total
  sec_penalties :: "((string \<times> int) list \<times> int) option"

definition sv_team_section ::
  "string list \<Rightarrow> match_player list \<Rightarrow> match_penalty list \<Rightarrow> string \<Rightarrow> sv_section" where
  "sv_team_section teams players pens team =
     (let team_players = or_empty (sv_players_by_team teams players team);
          team_penalties = or_empty (sv_penalties_by_team teams pens team);
          team_total = (case sv_team_totals teams players pens team of
                          None \<Rightarrow> \<lparr>tt_before = 0, tt_after = 0, tt_gained = 0, tt_penalties = 0, tt_net = 0\<rparr>
                        | Some tt \<Rightarrow> tt)
      in \<lparr>sec_team = team, sec_player_count = length team_players,
          sec_rows = map (\<lambda>p. (mp_name p, mp_before p, mp_after p, mp_after p - mp_before p)) team_players,
          sec_totals = team_total,
          sec_penalties = (if team_penalties = [] then None
                           else Some (map (\<lambda>p. (mpn_description p, mpn_amount p)) team_penalties,
                                      tt_penalties team_total))\<rparr>)"

definition sv_sections :: "string list \<Rightarrow> match_player list \<Rightarrow> match_penalty list \<Rightarrow> sv_section list" where
  "sv_sections teams players pens = map (sv_team_section teams players pens) teams"

section \<open>Totals\<close>

lemma sv_team_totals_in:
  "t \<in> set teams \<Longrightarrow> sv_team_totals teams players pens t =
     Some \<lparr>tt_before = sum_list (map mp_before (filter (\<lambda>p. mp_team p = t) players)),
           tt_after = sum_list (map mp_after (filter (\<lambda>p. mp_team p = t) players)),
           tt_gained = sum_list (map (\<lambda>p. mp_after p - mp_before p) (filter (\<lambda>p. mp_team p = t) players)),
           tt_penalties = sum_list (map mpn_amount (filter (\<lambda>p. mpn_team p = t) pens)),
           tt_net = sum_list (map (\<lambda>p. mp_after p - mp_before p) (filter (\<lambda>p. mp_team p = t) players))
                    - sum_list (map mpn_amount (filter (\<lambda>p. mpn_team p = t) pens))\<rparr>"
  by (simp add: sv_team_totals_def sv_players_by_team_def sv_penalties_by_team_def or_empty_def Let_def)

lemma sv_team_totals_notin: "t \<notin> set teams \<Longrightarrow> sv_team_totals teams players pens t = None"
  by (simp add: sv_team_totals_def Let_def)


text \<open>
  Each section of the saved match agrees with itself: its totals row is the sum of its rows'
  columns, the net gain is the gained column's sum less the listed penalties, the player
  count is the number of rows, and the penalty block appears exactly when the team has
  penalties, with their sum as its total.
\<close>

lemma sv_team_section_consistent:
  assumes "team \<in> set teams"
  shows "tt_before (sec_totals (sv_team_section teams players pens team))
           = sum_list (map (\<lambda>(n, b, a, g). b) (sec_rows (sv_team_section teams players pens team)))
         \<and> tt_after (sec_totals (sv_team_section teams players pens team))
           = sum_list (map (\<lambda>(n, b, a, g). a) (sec_rows (sv_team_section teams players pens team)))
         \<and> tt_gained (sec_totals (sv_team_section teams players pens team))
           = sum_list (map (\<lambda>(n, b, a, g). g) (sec_rows (sv_team_section teams players pens team)))
         \<and> sec_player_count (sv_team_section teams players pens team)
           = length (sec_rows (sv_team_section teams players pens team))
         \<and> (case sec_penalties (sv_team_section teams players pens team) of
              None \<Rightarrow> filter (\<lambda>p. mpn_team p = team) pens = []
            | Some (rows, tot) \<Rightarrow> rows \<noteq> [] \<and> tot = sum_list (map snd rows)
                \<and> tt_net (sec_totals (sv_team_section teams players pens team))
                  = tt_gained (sec_totals (sv_team_section teams players pens team)) - tot)"
  using assms
  by (simp add: sv_team_section_def sv_team_totals_in sv_players_by_team_def sv_penalties_by_team_def
      or_empty_def Let_def comp_def case_prod_beta)

section \<open>The winner\<close>

lemma sorted_min_prefix:
  "sorted (map f ys) \<Longrightarrow> (\<forall>y \<in> set ys. k \<le> f y) \<Longrightarrow>
     ys = filter (\<lambda>y. f y = k) ys @ filter (\<lambda>y. f y \<noteq> k) ys"
  for f :: "'a \<Rightarrow> int"
proof (induction ys)
  case Nil
  then show ?case by simp
next
  case (Cons y ys)
  show ?case
  proof (cases "f y = k")
    case True
    with Cons show ?thesis by simp
  next
    case False
    with Cons.prems have "\<forall>z \<in> set ys. k < f z" by fastforce
    then have "filter (\<lambda>z. f z = k) ys = []" and "filter (\<lambda>z. f z \<noteq> k) ys = ys"
      by (auto simp: filter_empty_conv filter_id_conv)
    with False show ?thesis by simp
  qed
qed

lemma sort_key_desc_split:
  fixes f :: "'a \<Rightarrow> int"
  assumes ne: "xs \<noteq> []"
  shows "\<exists>R. sort_key (\<lambda>x. - f x) xs = filter (\<lambda>x. f x = Max (f ` set xs)) xs @ R
             \<and> list_all (\<lambda>v. f v < Max (f ` set xs)) R"
proof -
  define m where "m = Max (f ` set xs)"
  define S where "S = sort_key (\<lambda>x. - f x) xs"
  have le_m: "f x \<le> m" if "x \<in> set xs" for x
    unfolding m_def using that by (intro Max_ge) simp_all
  have sortedS: "sorted (map (\<lambda>x. - f x) S)"
    by (simp add: S_def)
  have lowS: "\<forall>x \<in> set S. - m \<le> - f x"
    using le_m by (simp add: S_def)
  have split: "S = filter (\<lambda>x. - f x = - m) S @ filter (\<lambda>x. - f x \<noteq> - m) S"
    by (rule sorted_min_prefix [OF sortedS lowS])
  have "filter (\<lambda>x. - f x = - m) S = filter (\<lambda>x. - f x = - m) xs"
    unfolding S_def by (rule sort_key_stable)
  moreover have "filter (\<lambda>x. - f x = - m) xs = filter (\<lambda>x. f x = m) xs"
    by simp
  moreover have "list_all (\<lambda>v. f v < m) (filter (\<lambda>x. - f x \<noteq> - m) S)"
    using le_m by (force simp: list_all_iff S_def)
  ultimately show ?thesis
    using split by (auto simp: m_def [symmetric] S_def [symmetric])
qed

text \<open>The choice \<open>getWinningTeam\<close> makes on the sorted list, when its head block ties at the top.\<close>

lemma pick_winner_split:
  fixes m :: int
  assumes "W \<noteq> []" and "list_all (\<lambda>w. snd w = m) W" and "list_all (\<lambda>v. snd v < m) R"
  shows "(case W @ R of [] \<Rightarrow> None | [w] \<Rightarrow> Some w
            | w # v # _ \<Rightarrow> if snd w = snd v then Some (tie_label, snd w) else Some w)
         = (if 2 \<le> length W then Some (tie_label, m) else Some (hd W))"
proof (cases W rule: remdups_adj.cases)
  case 1
  then show ?thesis using assms by simp
next
  case (2 x)
  then show ?thesis using assms by (cases R) auto
next
  case (3 x y xs)
  then show ?thesis using assms by auto
qed

text \<open>
  C21. The winner banner names the team with the largest net gain (stomps gained minus
  penalties) when exactly one team has it, and announces a tie with that net gain when two or
  more teams share it, whatever the order of the teams.
\<close>

theorem get_winning_team_spec:
  assumes ne: "teams \<noteq> []"
  shows "get_winning_team teams totals =
           (let m = Max (team_net totals ` set teams);
                winners = filter (\<lambda>t. team_net totals t = m) teams
            in if 2 \<le> length winners then Some (tie_label, m) else Some (hd winners, m))"
proof -
  define P where "P = (\<lambda>t. (t, team_net totals t))"
  define m where "m = Max (team_net totals ` set teams)"
  have Mx: "Max (snd ` set (map P teams)) = m"
    by (simp add: P_def m_def image_image)
  obtain R where S: "sort_key (\<lambda>p. - snd p) (map P teams) = filter (\<lambda>p. snd p = m) (map P teams) @ R"
    and R: "list_all (\<lambda>v. snd v < m) R"
    using sort_key_desc_split [of "map P teams" snd] ne Mx by auto
  define T where "T = filter (\<lambda>t. team_net totals t = m) teams"
  have FT: "filter (\<lambda>p. snd p = m) (map P teams) = map P T"
    by (simp add: T_def filter_map comp_def P_def)
  have "m \<in> team_net totals ` set teams"
    unfolding m_def using ne by (intro Max_in) simp_all
  then have T_ne: "T \<noteq> []"
    by (auto simp: T_def filter_empty_conv)
  have "list_all (\<lambda>w. snd w = m) (map P T)"
    by (simp add: T_def P_def list_all_iff)
  from pick_winner_split [OF _ this R] T_ne
  have "get_winning_team teams totals = (if 2 \<le> length T then Some (tie_label, m) else Some (hd (map P T)))"
    using ne S FT by (simp add: get_winning_team_def P_def)
  also have "hd (map P T) = (hd T, m)"
  proof -
    have "hd T \<in> set T" by (rule hd_in_set [OF T_ne])
    then have "team_net totals (hd T) = m" by (simp add: T_def)
    then show ?thesis using T_ne by (simp add: hd_map P_def)
  qed
  finally show ?thesis
    by (simp add: Let_def m_def [symmetric] T_def [symmetric])
qed

theorem get_winning_team_spec_witness:
  "get_winning_team [''Reds'', ''Blues'']
     [''Reds'' \<mapsto> zero_total\<lparr>tt_net := 5\<rparr>, ''Blues'' \<mapsto> zero_total\<lparr>tt_net := 3\<rparr>]
   = Some (''Reds'', 5)"
  using get_winning_team_spec [of "[''Reds'', ''Blues'']"
      "[''Reds'' \<mapsto> zero_total\<lparr>tt_net := 5\<rparr>, ''Blues'' \<mapsto> zero_total\<lparr>tt_net := 3\<rparr>]"]
  by (simp add: team_net_def)

text \<open>
  The tie marker is an ordinary team name: a team called \<open>Tie\<close> that wins outright is
  announced as a tie.
\<close>

lemma tie_named_team_shown_as_tie:
  "winner_banner (get_winning_team [''Tie'', ''Reds'']
     [''Tie'' \<mapsto> zero_total\<lparr>tt_net := 5\<rparr>, ''Reds'' \<mapsto> zero_total\<lparr>tt_net := 3\<rparr>])
   = Some ''It's a Tie!''"
  by (simp add: get_winning_team_def winner_banner_def team_net_def tie_label_def)

end
