(* ===== verification/StompCounter.thy ===== *)
theory StompCounter
  imports TeamManager SavedMatchView
begin

text \<open>
  The stomp-counter page of \<open>src/app/stomp-counter/page.tsx\<close>. Its state (six \<open>useState\<close>
  hooks) is the record \<open>page_state\<close>; each handler is a function on it. The page passes
  \<open>teams\<close> and its handlers to \<open>TeamManager\<close>, \<open>teams\<close> and \<open>penalties\<close> to
  \<open>PenaltiesManager\<close> and \<open>StompChart\<close>, and renders \<open>SavedMatchView\<close> from the saved
  match. \<open>page_reachable\<close> closes the page under the events those components can produce
  (\<open>tm_emits\<close>, \<open>pm_emits\<close>, a save from a well-formed chart state), the edit button of the
  saved match and the tab triggers. Each handler reads the state of the render it was created
  in and sets every hook at most once, so a handler is one function from state to state.
\<close>

datatype tab = TabDescription | TabTeams | TabPenalties | TabChart | TabOverview

record page_state =
  active_tab :: tab
  saved_players :: "match_player list"
  saved_penalties :: "match_penalty list"
  is_editing_match :: bool
  page_teams :: "string list"
  page_penalties :: "penalty list"

definition page_init :: page_state where
  "page_init =
     \<lparr>active_tab = TabDescription, saved_players = [], saved_penalties = [], is_editing_match = False,
      page_teams = [''Team 1'', ''Team 2''], page_penalties = []\<rparr>"

definition handle_save_all_players ::
  "page_state \<Rightarrow> match_player list \<Rightarrow> match_penalty list \<Rightarrow> page_state" where
  "handle_save_all_players s chart_players chart_penalties =
     s\<lparr>saved_players := chart_players, saved_penalties := chart_penalties,
       active_tab := TabOverview, is_editing_match := False\<rparr>"

definition handle_edit_match :: "page_state \<Rightarrow> page_state" where
  "handle_edit_match s = s\<lparr>is_editing_match := True, active_tab := TabChart\<rparr>"

definition handle_add_team :: "page_state \<Rightarrow> string \<Rightarrow> page_state" where
  "handle_add_team s team =
     (if team \<in> set (page_teams s) then s else s\<lparr>page_teams := page_teams s @ [team]\<rparr>)"

definition handle_delete_team :: "page_state \<Rightarrow> string \<Rightarrow> page_state" where
  "handle_delete_team s team =
     (if length (page_teams s) \<le> 2 then s
      else s\<lparr>page_teams := filter (\<lambda>t. t \<noteq> team) (page_teams s),
             saved_players := filter (\<lambda>p. mp_team p \<noteq> team) (saved_players s),
             saved_penalties := filter (\<lambda>p. mpn_team p \<noteq> team) (saved_penalties s),
             page_penalties := filter (\<lambda>p. pen_team p \<noteq> team) (page_penalties s)\<rparr>)"

definition handle_rename_team :: "page_state \<Rightarrow> string \<Rightarrow> string \<Rightarrow> page_state" where
  "handle_rename_team s old_name new_name =
     (if new_name \<in> set (page_teams s) \<and> old_name \<noteq> new_name then s
      else s\<lparr>page_teams := map (\<lambda>t. if t = old_name then new_name else t) (page_teams s),
             saved_players := map (\<lambda>p. if mp_team p = old_name then p\<lparr>mp_team := new_name\<rparr> else p)
                                (saved_players s),
             saved_penalties := map (\<lambda>p. if mpn_team p = old_name then p\<lparr>mpn_team := new_name\<rparr> else p)
                                  (saved_penalties s),
             page_penalties := map (\<lambda>p. if pen_team p = old_name then p\<lparr>pen_team := new_name\<rparr> else p)
                                 (page_penalties s)\<rparr>)"

definition handle_add_penalty :: "page_state \<Rightarrow> penalty \<Rightarrow> page_state" where
  "handle_add_penalty s p = s\<lparr>page_penalties := page_penalties s @ [p]\<rparr>"

definition handle_delete_penalty :: "page_state \<Rightarrow> string \<Rightarrow> page_state" where
  "handle_delete_penalty s pid = s\<lparr>page_penalties := filter (\<lambda>p. pen_id p \<noteq> pid) (page_penalties s)\<rparr>"

definition select_tab :: "page_state \<Rightarrow> tab \<Rightarrow> page_state" where
  "select_tab s t = s\<lparr>active_tab := t\<rparr>"

text \<open>The overview tab shows the saved match when there is one and it is not being edited.\<close>

definition overview_shows_match :: "page_state \<Rightarrow> bool" where
  "overview_shows_match s \<longleftrightarrow> saved_players s \<noteq> [] \<and> \<not> is_editing_match s"

text \<open>The callbacks handed to \<open>TeamManager\<close>, applied to the event it emits.\<close>

definition apply_team_event :: "page_state \<Rightarrow> team_event \<Rightarrow> page_state" where
  "apply_team_event s e =
     (case e of
        AddTeam n \<Rightarrow> handle_add_team s n
      | DeleteTeam n \<Rightarrow> handle_delete_team s n
      | RenameTeam old_name n \<Rightarrow> handle_rename_team s old_name n)"

inductive page_reachable :: "page_state \<Rightarrow> bool" where
  init: "page_reachable page_init"
| team: "page_reachable s \<Longrightarrow> tm_emits (page_teams s) e \<Longrightarrow> page_reachable (apply_team_event s e)"
| add_penalty: "page_reachable s \<Longrightarrow> pm_emits (page_teams s) p \<Longrightarrow>
    page_reachable (handle_add_penalty s p)"
| delete_penalty: "page_reachable s \<Longrightarrow> page_reachable (handle_delete_penalty s pid)"
| save: "page_reachable s \<Longrightarrow> chart_wf (page_teams s) tp \<Longrightarrow>
    chart_save (page_teams s) tp (page_penalties s) = Inr (Inr (ps, pens)) \<Longrightarrow>
    page_reachable (handle_save_all_players s ps pens)"
| edit: "page_reachable s \<Longrightarrow> overview_shows_match s \<Longrightarrow> page_reachable (handle_edit_match s)"
| select: "page_reachable s \<Longrightarrow> page_reachable (select_tab s t)"

text \<open>
  Well-formed page: distinct, non-blank team names, at least two of them, every penalty positive
  and naming a team, every saved player and saved penalty naming a team.
\<close>

definition page_wf :: "page_state \<Rightarrow> bool" where
  "page_wf s \<longleftrightarrow>
     distinct (page_teams s) \<and> 2 \<le> length (page_teams s)
     \<and> list_all (\<lambda>t. js_trim t \<noteq> []) (page_teams s)
     \<and> list_all (\<lambda>p. pen_team p \<in> set (page_teams s) \<and> 0 < pen_amount p) (page_penalties s)
     \<and> list_all (\<lambda>p. mp_team p \<in> set (page_teams s)) (saved_players s)
     \<and> list_all (\<lambda>p. mpn_team p \<in> set (page_teams s) \<and> 0 < mpn_amount p) (saved_penalties s)"

section \<open>Each event keeps the page well-formed\<close>

lemma page_wf_init [wf_intros]: "page_wf page_init"
  by (simp add: page_wf_def page_init_def js_trim_Nil_iff js_is_space_def)

lemma page_wf_add_team [wf_intros]:
  "page_wf s \<Longrightarrow> n \<notin> set (page_teams s) \<Longrightarrow> js_trim n \<noteq> [] \<Longrightarrow> page_wf (handle_add_team s n)"
  by (auto simp: page_wf_def handle_add_team_def list_all_iff)

lemma page_wf_delete_team [wf_intros]:
  assumes "page_wf s" and "n \<in> set (page_teams s)" and "2 < length (page_teams s)"
  shows "page_wf (handle_delete_team s n)"
proof -
  have "length (filter (\<lambda>t. t \<noteq> n) (page_teams s)) = length (page_teams s) - 1"
    using assms by (simp add: page_wf_def length_filter_neq_distinct)
  with assms show ?thesis
    by (auto simp: page_wf_def handle_delete_team_def list_all_iff)
qed

lemma page_wf_rename_team [wf_intros]:
  assumes wf: "page_wf s" and old: "old_name \<in> set (page_teams s)"
    and new: "n \<notin> set (page_teams s) \<or> n = old_name" and blank: "js_trim n \<noteq> []"
  shows "page_wf (handle_rename_team s old_name n)"
proof -
  let ?ren = "\<lambda>t. if t = old_name then n else t"
  have teams': "set (map ?ren (page_teams s)) = insert n (set (page_teams s) - {old_name})"
    using old by (auto simp: set_map_rename)
  have mem: "?ren t \<in> set (map ?ren (page_teams s))" if "t \<in> set (page_teams s)" for t
    using that by auto
  have "distinct (map ?ren (page_teams s))"
    using wf new by (intro distinct_map_rename) (simp_all add: page_wf_def)
  moreover have "length (map ?ren (page_teams s)) = length (page_teams s)"
    by simp
  ultimately show ?thesis
    using wf blank mem teams'
    by (auto simp: page_wf_def handle_rename_team_def list_all_iff)
qed

lemma pm_emits_event:
  assumes "pm_emits teams p" and "teams \<noteq> []" and "hd teams \<noteq> []"
  shows "pen_team p \<in> set teams \<and> 0 < pen_amount p \<and> pen_description p \<noteq> []"
  using assms(1)
proof cases
  case (add f id1 id2 f' al)
  then show ?thesis
    using pm_handle_add_penalty_event [OF add(2)] pm_form_team [OF add(1) assms(2,3)] by simp
qed

lemma page_wf_hd_teams:
  "page_wf s \<Longrightarrow> page_teams s \<noteq> [] \<and> hd (page_teams s) \<noteq> []"
  by (cases "page_teams s") (auto simp: page_wf_def js_trim_def)

lemma page_wf_add_penalty [wf_intros]:
  "page_wf s \<Longrightarrow> pm_emits (page_teams s) p \<Longrightarrow> page_wf (handle_add_penalty s p)"
  using pm_emits_event [of "page_teams s" p] page_wf_hd_teams [of s]
  by (auto simp: page_wf_def handle_add_penalty_def)

lemma page_wf_delete_penalty [wf_intros]:
  "page_wf s \<Longrightarrow> page_wf (handle_delete_penalty s pid)"
  by (auto simp: page_wf_def handle_delete_penalty_def list_all_iff)

lemma chart_wf_team_rows:
  "chart_wf teams tp \<Longrightarrow> p \<in> set (team_rows tp t) \<Longrightarrow> cp_team p = t"
  by (cases "tp t") (auto simp: chart_wf_def team_rows_def list_all_iff)

lemma chart_save_teams:
  assumes wf: "chart_wf teams tp" and save: "chart_save teams tp pens = Inr (Inr (ps, mpens))"
  shows "list_all (\<lambda>p. mp_team p \<in> set teams) ps \<and> mpens = map to_match_penalty pens"
proof -
  have ok: "list_all (\<lambda>t. tp t \<noteq> None) teams"
    using wf by (auto simp: chart_wf_def list_all_iff)
  have "ps = concat (map (\<lambda>t. map to_match_player
          (filter (\<lambda>p. js_trim (cp_name p) \<noteq> []) (team_rows tp t))) teams)"
    and pens: "mpens = map to_match_penalty pens"
    using save collect_named_ok [OF ok] by (auto simp: chart_save_def split: if_splits)
  moreover have "mp_team (to_match_player p) \<in> set teams"
    if "t \<in> set teams" and "p \<in> set (team_rows tp t)" for t p
    using that chart_wf_team_rows [OF wf] by (simp add: to_match_player_def)
  ultimately show ?thesis
    by (auto simp: list_all_iff)
qed

lemma page_wf_save [wf_intros]:
  assumes "page_wf s" and "chart_wf (page_teams s) tp"
    and "chart_save (page_teams s) tp (page_penalties s) = Inr (Inr (ps, pens))"
  shows "page_wf (handle_save_all_players s ps pens)"
  using assms chart_save_teams [OF assms(2,3)]
  by (auto simp: page_wf_def handle_save_all_players_def list_all_iff to_match_penalty_def)

lemma page_wf_edit [wf_intros]: "page_wf s \<Longrightarrow> page_wf (handle_edit_match s)"
  by (simp add: page_wf_def handle_edit_match_def)

lemma page_wf_select [wf_intros]: "page_wf s \<Longrightarrow> page_wf (select_tab s t)"
  by (simp add: page_wf_def select_tab_def)

lemma page_wf_team_event [wf_intros]:
  "page_wf s \<Longrightarrow> tm_emits (page_teams s) e \<Longrightarrow> page_wf (apply_team_event s e)"
  by (cases e) (auto simp: apply_team_event_def tm_emits_simps intro: wf_intros)

lemma page_reachable_wf_inv: "page_reachable s \<Longrightarrow> page_wf s"
  by (induction rule: page_reachable.induct) (auto intro: wf_intros)


lemma handle_rename_team_same: "handle_rename_team s t t = s"
proof -
  have A: "map (\<lambda>p. if mp_team p = t then p\<lparr>mp_team := t\<rparr> else p) ps = ps" for ps
    by (rule map_idI) simp
  have B: "map (\<lambda>p. if mpn_team p = t then p\<lparr>mpn_team := t\<rparr> else p) ps = ps" for ps
    by (rule map_idI) simp
  have C: "map (\<lambda>p. if pen_team p = t then p\<lparr>pen_team := t\<rparr> else p) ps = ps" for ps
    by (rule map_idI) simp
  have D: "map (\<lambda>x. if x = t then t else x) ts = ts" for ts
    by (rule map_idI) simp
  show ?thesis
    unfolding handle_rename_team_def A B C D by simp
qed

lemma sv_team_totals_same:
  assumes "t \<in> set teams \<longleftrightarrow> t' \<in> set teams'"
    and "filter (\<lambda>p. mp_team p = t) ps = map (\<lambda>p. p\<lparr>mp_team := t\<rparr>) (filter (\<lambda>p. mp_team p = t') ps')"
    and "filter (\<lambda>p. mpn_team p = t) pens = map (\<lambda>p. p\<lparr>mpn_team := t\<rparr>) (filter (\<lambda>p. mpn_team p = t') pens')"
  shows "sv_team_totals teams ps pens t = sv_team_totals teams' ps' pens' t'"
  using assms by (cases "t \<in> set teams") (simp_all add: sv_team_totals_in sv_team_totals_notin comp_def)


lemma page_rename_filters:
  assumes wf: "page_wf s" and n: "n \<notin> set (page_teams s)"
  shows "filter (\<lambda>p. mp_team p = n) (saved_players (handle_rename_team s old_name n))
           = map (\<lambda>p. p\<lparr>mp_team := n\<rparr>) (filter (\<lambda>p. mp_team p = old_name) (saved_players s))"
    and "filter (\<lambda>p. mpn_team p = n) (saved_penalties (handle_rename_team s old_name n))
           = map (\<lambda>p. p\<lparr>mpn_team := n\<rparr>) (filter (\<lambda>p. mpn_team p = old_name) (saved_penalties s))"
    and "filter (\<lambda>p. pen_team p = n) (page_penalties (handle_rename_team s old_name n))
           = map (\<lambda>p. p\<lparr>pen_team := n\<rparr>) (filter (\<lambda>p. pen_team p = old_name) (page_penalties s))"
  using wf n by (auto simp: handle_rename_team_def page_wf_def list_all_iff intro!: filter_map_rename)

lemma page_rename_filters_other:
  assumes "t \<noteq> old_name" and "t \<noteq> n"
  shows "filter (\<lambda>p. mp_team p = t) (saved_players (handle_rename_team s old_name n))
           = filter (\<lambda>p. mp_team p = t) (saved_players s)"
    and "filter (\<lambda>p. mpn_team p = t) (saved_penalties (handle_rename_team s old_name n))
           = filter (\<lambda>p. mpn_team p = t) (saved_penalties s)"
  using assms by (simp_all add: handle_rename_team_def filter_map_rename_other)

lemma sv_team_totals_cong:
  assumes "t \<in> set teams \<longleftrightarrow> t \<in> set teams'"
    and "filter (\<lambda>p. mp_team p = t) ps = filter (\<lambda>p. mp_team p = t) ps'"
    and "filter (\<lambda>p. mpn_team p = t) pens = filter (\<lambda>p. mpn_team p = t) pens'"
  shows "sv_team_totals teams ps pens t = sv_team_totals teams' ps' pens' t"
  using assms by (cases "t \<in> set teams") (simp_all add: sv_team_totals_in sv_team_totals_notin)

section \<open>Properties of the page\<close>

text \<open>
  C10. Whatever sequence of events the page goes through (team events from \<open>TeamManager\<close>,
  penalties from \<open>PenaltiesManager\<close>, saves from \<open>StompChart\<close>, edits and tab changes),
  its team names stay distinct and non-blank, at least two teams remain, every penalty is
  positive and names a current team, and every saved player and saved penalty names a
  current team.
\<close>

theorem page_reachable_wf:
  "page_reachable s \<Longrightarrow>
     distinct (page_teams s) \<and> 2 \<le> length (page_teams s)
     \<and> list_all (\<lambda>t. js_trim t \<noteq> []) (page_teams s)
     \<and> list_all (\<lambda>p. pen_team p \<in> set (page_teams s) \<and> 0 < pen_amount p) (page_penalties s)
     \<and> list_all (\<lambda>p. mp_team p \<in> set (page_teams s)) (saved_players s)
     \<and> list_all (\<lambda>p. mpn_team p \<in> set (page_teams s) \<and> 0 < mpn_amount p) (saved_penalties s)"
  using page_reachable_wf_inv unfolding page_wf_def by blast

theorem page_reachable_wf_witness:
  "page_reachable (apply_team_event page_init (AddTeam ''Team 3''))
   \<and> distinct (page_teams (apply_team_event page_init (AddTeam ''Team 3'')))
   \<and> 2 \<le> length (page_teams (apply_team_event page_init (AddTeam ''Team 3'')))"
proof -
  have r: "page_reachable (apply_team_event page_init (AddTeam ''Team 3''))"
    by (rule page_reachable.team [OF page_reachable.init])
      (simp add: tm_emits_simps page_init_def js_trim_Nil_iff js_is_space_def)
  show ?thesis
    using page_reachable_wf [OF r] r by simp
qed

text \<open>
  C11. Deleting a team through \<open>TeamManager\<close> removes exactly that name from the team list,
  leaves at least two teams, removes every saved player, saved penalty and penalty of that team,
  and leaves the overview totals of every other team unchanged.
\<close>

theorem delete_team_cascade:
  assumes "page_reachable s" and "tm_emits (page_teams s) (DeleteTeam n)"
  shows "let s' = apply_team_event s (DeleteTeam n) in
           page_teams s' = remove1 n (page_teams s) \<and> 2 \<le> length (page_teams s')
           \<and> list_all (\<lambda>p. mp_team p \<noteq> n) (saved_players s')
           \<and> list_all (\<lambda>p. mpn_team p \<noteq> n) (saved_penalties s')
           \<and> list_all (\<lambda>p. pen_team p \<noteq> n) (page_penalties s')
           \<and> (\<forall>t. t \<noteq> n \<longrightarrow> sv_team_totals (page_teams s') (saved_players s') (saved_penalties s') t
                               = sv_team_totals (page_teams s) (saved_players s) (saved_penalties s) t)"
proof -
  have wf: "page_wf s"
    using assms(1) by (rule page_reachable_wf_inv)
  have ev: "n \<in> set (page_teams s)" "2 < length (page_teams s)"
    using assms(2) by (simp_all add: tm_emits_simps)
  define s' where "s' = handle_delete_team s n"
  have teams': "page_teams s' = remove1 n (page_teams s)"
    using wf ev by (simp add: s'_def handle_delete_team_def page_wf_def filter_neq_remove1)
  have len: "2 \<le> length (page_teams s')"
    using ev by (simp add: teams' length_remove1)
  have other: "sv_team_totals (page_teams s') (saved_players s') (saved_penalties s') t
                 = sv_team_totals (page_teams s) (saved_players s) (saved_penalties s) t"
    if "t \<noteq> n" for t
  proof (cases "t \<in> set (page_teams s)")
    case True
    with that wf have "t \<in> set (page_teams s')"
      by (simp add: teams' page_wf_def)
    moreover have "filter (\<lambda>p. mp_team p = t) (saved_players s')
                     = filter (\<lambda>p. mp_team p = t) (saved_players s)"
      using that ev by (auto simp: s'_def handle_delete_team_def filter_filter intro!: filter_cong)
    moreover have "filter (\<lambda>p. mpn_team p = t) (saved_penalties s')
                     = filter (\<lambda>p. mpn_team p = t) (saved_penalties s)"
      using that ev by (auto simp: s'_def handle_delete_team_def filter_filter intro!: filter_cong)
    ultimately show ?thesis
      using True by (simp add: sv_team_totals_in)
  next
    case False
    then have "t \<notin> set (page_teams s')"
      using teams' by (metis notin_set_remove1)
    with False show ?thesis
      by (simp add: sv_team_totals_notin)
  qed
  show ?thesis
    using teams' len other ev
    by (simp add: s'_def [symmetric] apply_team_event_def)
       (simp add: s'_def handle_delete_team_def list_all_iff)
qed

theorem delete_team_cascade_witness:
  "let s = apply_team_event page_init (AddTeam ''Team 3'') in
     page_teams (apply_team_event s (DeleteTeam ''Team 1'')) = [''Team 2'', ''Team 3'']"
proof -
  define s where "s = apply_team_event page_init (AddTeam ''Team 3'')"
  have r: "page_reachable s"
    unfolding s_def by (rule page_reachable.team [OF page_reachable.init])
      (simp add: tm_emits_simps page_init_def js_trim_Nil_iff js_is_space_def)
  have teams: "page_teams s = [''Team 1'', ''Team 2'', ''Team 3'']"
    by (simp add: s_def apply_team_event_def handle_add_team_def page_init_def)
  have "tm_emits (page_teams s) (DeleteTeam ''Team 1'')"
    by (simp add: teams tm_emits_simps)
  from delete_team_cascade [OF r this] teams show ?thesis
    by (simp add: s_def [symmetric] Let_def)
qed


text \<open>
  C12. Renaming a team through \<open>TeamManager\<close> renames it in place: the new name takes the
  old name's position in the team list and every other entry is kept, carries its saved players' and saved penalties' totals and its
  penalties over to the new name, and leaves every other team's overview totals unchanged.
\<close>

theorem rename_team_carries_totals:
  assumes "page_reachable s" and "tm_emits (page_teams s) (RenameTeam old_name n)"
  shows "let s' = apply_team_event s (RenameTeam old_name n) in
           (\<forall>i < length (page_teams s). page_teams s ! i = old_name
              \<longrightarrow> page_teams s' = (page_teams s)[i := n])
           \<and> set (page_teams s') = insert n (set (page_teams s) - {old_name})
           \<and> sv_team_totals (page_teams s') (saved_players s') (saved_penalties s') n
               = sv_team_totals (page_teams s) (saved_players s) (saved_penalties s) old_name
           \<and> map pen_amount (filter (\<lambda>p. pen_team p = n) (page_penalties s'))
               = map pen_amount (filter (\<lambda>p. pen_team p = old_name) (page_penalties s))
           \<and> (\<forall>t. t \<noteq> old_name \<longrightarrow> t \<noteq> n \<longrightarrow>
                 sv_team_totals (page_teams s') (saved_players s') (saved_penalties s') t
                   = sv_team_totals (page_teams s) (saved_players s) (saved_penalties s) t)"
proof -
  have wf: "page_wf s"
    using assms(1) by (rule page_reachable_wf_inv)
  have ev: "old_name \<in> set (page_teams s)" "n \<notin> set (page_teams s) \<or> n = old_name"
    using assms(2) by (simp_all add: tm_emits_simps)
  define s' where "s' = handle_rename_team s old_name n"
  have teams': "page_teams s' = map (\<lambda>t. if t = old_name then n else t) (page_teams s)"
    using ev by (auto simp: s'_def handle_rename_team_def)
  have set': "set (page_teams s') = insert n (set (page_teams s) - {old_name})"
    using ev(1) by (auto simp: teams' set_map_rename)
  have pos: "page_teams s' = (page_teams s)[i := n]"
    if "i < length (page_teams s)" and "page_teams s ! i = old_name" for i
    using map_rename_update [OF _ that] wf by (simp add: teams' page_wf_def)
  have main: "sv_team_totals (page_teams s') (saved_players s') (saved_penalties s') n
                = sv_team_totals (page_teams s) (saved_players s) (saved_penalties s) old_name
              \<and> map pen_amount (filter (\<lambda>p. pen_team p = n) (page_penalties s'))
                = map pen_amount (filter (\<lambda>p. pen_team p = old_name) (page_penalties s))"
  proof (cases "n = old_name")
    case True
    then show ?thesis by (simp add: s'_def handle_rename_team_same)
  next
    case False
    with ev have n: "n \<notin> set (page_teams s)" by simp
    have "sv_team_totals (page_teams s') (saved_players s') (saved_penalties s') n
            = sv_team_totals (page_teams s) (saved_players s) (saved_penalties s) old_name"
      unfolding s'_def
      by (rule sv_team_totals_same)
        (use ev(1) set' n in \<open>simp_all add: s'_def page_rename_filters [OF wf n]\<close>)
    then show ?thesis
      by (simp add: s'_def page_rename_filters [OF wf n] comp_def)
  qed
  have other: "sv_team_totals (page_teams s') (saved_players s') (saved_penalties s') t
                 = sv_team_totals (page_teams s) (saved_players s) (saved_penalties s) t"
    if "t \<noteq> old_name" and "t \<noteq> n" for t
    using that set' by (intro sv_team_totals_cong) (simp_all add: s'_def page_rename_filters_other)
  show ?thesis
    using set' main other pos
    by (simp add: s'_def [symmetric] apply_team_event_def)
qed

theorem rename_team_carries_totals_witness:
  "let s = handle_save_all_players page_init
             [\<lparr>mp_name = ''ann'', mp_before = 1, mp_after = 4, mp_team = ''Team 1''\<rparr>] [] in
     sv_team_totals (page_teams (apply_team_event s (RenameTeam ''Team 1'' ''Reds'')))
       (saved_players (apply_team_event s (RenameTeam ''Team 1'' ''Reds'')))
       (saved_penalties (apply_team_event s (RenameTeam ''Team 1'' ''Reds''))) ''Reds''
     = sv_team_totals [''Team 1'', ''Team 2'']
         [\<lparr>mp_name = ''ann'', mp_before = 1, mp_after = 4, mp_team = ''Team 1''\<rparr>] [] ''Team 1''
   \<and> page_teams (apply_team_event s (RenameTeam ''Team 1'' ''Reds'')) = [''Reds'', ''Team 2'']"
proof -
  define s where "s = handle_save_all_players page_init
             [\<lparr>mp_name = ''ann'', mp_before = 1, mp_after = 4, mp_team = ''Team 1''\<rparr>] []"
  define tp where "tp = [''Team 1'' \<mapsto> [\<lparr>cp_id = ''a'', cp_name = ''ann'', score_before = 1,
                           score_after = 4, cp_team = ''Team 1''\<rparr>], ''Team 2'' \<mapsto> []]"
  have wf: "chart_wf (page_teams page_init) tp"
    by (auto simp: chart_wf_def tp_def page_init_def)
  have "chart_save (page_teams page_init) tp (page_penalties page_init)
          = Inr (Inr ([\<lparr>mp_name = ''ann'', mp_before = 1, mp_after = 4, mp_team = ''Team 1''\<rparr>], []))"
    by (simp add: chart_save_def tp_def page_init_def js_trim_Nil_iff js_is_space_def
        to_match_player_def)
  then have r: "page_reachable s"
    unfolding s_def by (rule page_reachable.save [OF page_reachable.init wf])
  have teams: "page_teams s = [''Team 1'', ''Team 2'']" and pl: "saved_penalties s = []"
    by (simp_all add: s_def handle_save_all_players_def page_init_def)
  have "tm_emits (page_teams s) (RenameTeam ''Team 1'' ''Reds'')"
    by (simp add: teams tm_emits_simps js_trim_Nil_iff js_is_space_def)
  note R = rename_team_carries_totals [OF r this]
  have "\<forall>i < length (page_teams s). page_teams s ! i = ''Team 1''
          \<longrightarrow> page_teams (apply_team_event s (RenameTeam ''Team 1'' ''Reds'')) = (page_teams s)[i := ''Reds'']"
    using R unfolding Let_def by blast
  from this [rule_format, of 0]
  have pos: "page_teams (apply_team_event s (RenameTeam ''Team 1'' ''Reds'')) = [''Reds'', ''Team 2'']"
    by (simp add: teams)
  from R pos show ?thesis
    by (simp add: s_def [symmetric] Let_def)
       (simp add: s_def handle_save_all_players_def page_init_def)
qed

end
