(* ===== verification/Tournament.thy ===== *)
theory Tournament
  imports Prelude Complex_Main
begin

text \<open>
  The tournament bracket page of \<open>src/app/tournament/page.tsx\<close>: the team list, the bracket
  (a list of matches with round, position, two slots and a winner), drag and drop of teams into
  slots, and \<open>setWinner\<close>. The page state (four hooks) is the record \<open>tour_state\<close>.
  A handler that calls a state setter twice within one event passes two values computed from
  the same render; React applies the calls in order and keeps the last value. The model lists
  the values a handler passes (\<open>set_winner_calls\<close>) and commits the last one
  (\<open>react_commit\<close>).
\<close>

record bracket_match =
  m_id :: string
  m_round :: nat
  m_position :: nat
  team1 :: "string option"
  team2 :: "string option"
  winner :: "string option"

datatype slot = Team1 | Team2

record tour_state =
  t_teams :: "string list"
  new_team :: string
  matches :: "bracket_match list"
  dragged_team :: "string option"

definition tour_init :: tour_state where
  "tour_init = \<lparr>t_teams = [], new_team = [], matches = [], dragged_team = None\<rparr>"

text \<open>\<open>Math.ceil(Math.log2(n))\<close> for a positive count, computed by halving (rounding up).\<close>

function ceil_log2 :: "nat \<Rightarrow> nat" where
  "ceil_log2 n = (if n \<le> 1 then 0 else Suc (ceil_log2 ((n + 1) div 2)))"
  by pat_completeness auto
termination
  by (relation "measure id") auto

declare ceil_log2.simps [simp del]

definition match_id :: "nat \<Rightarrow> nat \<Rightarrow> string" where
  "match_id r position = js_nat_string r @ ''-'' @ js_nat_string position"

definition new_match :: "nat \<Rightarrow> nat \<Rightarrow> bracket_match" where
  "new_match r position =
     \<lparr>m_id = match_id r position, m_round = r, m_position = position,
      team1 = None, team2 = None, winner = None\<rparr>"

text \<open>The two nested loops: round \<open>r\<close> has \<open>2 ^ (roundCount - r - 1)\<close> matches.\<close>

definition initialize_bracket :: "nat \<Rightarrow> bracket_match list" where
  "initialize_bracket team_count =
     (let round_count = ceil_log2 team_count
      in concat (map (\<lambda>r. map (new_match r) [0..<2 ^ (round_count - r - 1)])
                   [0..<round_count]))"

definition set_new_team :: "tour_state \<Rightarrow> string \<Rightarrow> tour_state" where
  "set_new_team s v = s\<lparr>new_team := v\<rparr>"

definition add_team :: "tour_state \<Rightarrow> tour_state" where
  "add_team s =
     (if new_team s \<noteq> [] \<and> new_team s \<notin> set (t_teams s)
      then let updated = t_teams s @ [new_team s]
           in s\<lparr>t_teams := updated, new_team := [], matches := initialize_bracket (length updated)\<rparr>
      else s)"

definition handle_drag_start :: "tour_state \<Rightarrow> string \<Rightarrow> tour_state" where
  "handle_drag_start s team = s\<lparr>dragged_team := Some team\<rparr>"

definition set_slot :: "slot \<Rightarrow> string \<Rightarrow> bracket_match \<Rightarrow> bracket_match" where
  "set_slot sl t m = (case sl of Team1 \<Rightarrow> m\<lparr>team1 := Some t\<rparr> | Team2 \<Rightarrow> m\<lparr>team2 := Some t\<rparr>)"

definition slot_of :: "slot \<Rightarrow> bracket_match \<Rightarrow> string option" where
  "slot_of sl m = (case sl of Team1 \<Rightarrow> team1 m | Team2 \<Rightarrow> team2 m)"

text \<open>\<open>if (!draggedTeam) return\<close>: \<open>null\<close> and the empty string are both falsy.\<close>

definition handle_drop :: "tour_state \<Rightarrow> string \<Rightarrow> slot \<Rightarrow> tour_state" where
  "handle_drop s match_id_arg sl =
     (case dragged_team s of
        None \<Rightarrow> s
      | Some t \<Rightarrow>
          if t = [] then s
          else s\<lparr>matches := map (\<lambda>m. if m_id m = match_id_arg then set_slot sl t m else m) (matches s),
                 dragged_team := None\<rparr>)"

text \<open>
  The values \<open>setWinner(matchId, winner)\<close> passes to \<open>setMatches\<close>, in order: the matches
  with the winner recorded, then, when the match has a successor, the matches of the same
  render with the winner placed in the successor's slot.
\<close>

definition set_winner_calls :: "bracket_match list \<Rightarrow> string \<Rightarrow> string \<Rightarrow> bracket_match list list" where
  "set_winner_calls ms match_id_arg w =
     (let first = map (\<lambda>m. if m_id m = match_id_arg then m\<lparr>winner := Some w\<rparr> else m) ms
      in case find (\<lambda>m. m_id m = match_id_arg) ms of
           None \<Rightarrow> [first]
         | Some cur \<Rightarrow>
             (case find (\<lambda>m. m_round m = m_round cur + 1 \<and> m_position m = m_position cur div 2) ms of
                None \<Rightarrow> [first]
              | Some nxt \<Rightarrow>
                  [first, map (\<lambda>m. if m_id m = m_id nxt
                                 then set_slot (if m_position cur mod 2 = 0 then Team1 else Team2) w m
                                 else m) ms]))"

definition react_commit :: "'a \<Rightarrow> 'a list \<Rightarrow> 'a" where
  "react_commit old calls = (case calls of [] \<Rightarrow> old | _ \<Rightarrow> last calls)"

definition set_winner :: "tour_state \<Rightarrow> string \<Rightarrow> string \<Rightarrow> tour_state" where
  "set_winner s match_id_arg w =
     s\<lparr>matches := react_commit (matches s) (set_winner_calls (matches s) match_id_arg w)\<rparr>"


definition match_shape :: "bracket_match \<Rightarrow> string \<times> nat \<times> nat" where
  "match_shape m = (m_id m, m_round m, m_position m)"

definition opt_in :: "string option \<Rightarrow> string list \<Rightarrow> bool" where
  "opt_in v ts = (case v of None \<Rightarrow> True | Some t \<Rightarrow> t \<in> set ts)"

definition match_ok :: "string list \<Rightarrow> bracket_match \<Rightarrow> bool" where
  "match_ok ts m \<longleftrightarrow> opt_in (team1 m) ts \<and> opt_in (team2 m) ts \<and> opt_in (winner m) ts"

text \<open>
  The events of the page: typing a name, the Add Team button, dragging a listed team, dropping
  it on a slot of a rendered match, and the crown button of a filled slot (rendered only when
  the slot holds a non-empty name).
\<close>

inductive tour_reachable :: "tour_state \<Rightarrow> bool" where
  init: "tour_reachable tour_init"
| input: "tour_reachable s \<Longrightarrow> tour_reachable (set_new_team s v)"
| add: "tour_reachable s \<Longrightarrow> tour_reachable (add_team s)"
| drag: "tour_reachable s \<Longrightarrow> t \<in> set (t_teams s) \<Longrightarrow> tour_reachable (handle_drag_start s t)"
| drop: "tour_reachable s \<Longrightarrow> m \<in> set (matches s) \<Longrightarrow> tour_reachable (handle_drop s (m_id m) sl)"
| win: "tour_reachable s \<Longrightarrow> m \<in> set (matches s) \<Longrightarrow> slot_of sl m = Some w \<Longrightarrow> w \<noteq> [] \<Longrightarrow>
    tour_reachable (set_winner s (m_id m) w)"

text \<open>
  Well-formed page: distinct non-empty team names; the matches have exactly the ids, rounds and
  positions of a fresh bracket for the current number of teams; every slot, winner and the
  dragged team name a listed team.
\<close>

definition tour_wf :: "tour_state \<Rightarrow> bool" where
  "tour_wf s \<longleftrightarrow>
     distinct (t_teams s) \<and> list_all (\<lambda>t. t \<noteq> []) (t_teams s)
     \<and> map match_shape (matches s) = map match_shape (initialize_bracket (length (t_teams s)))
     \<and> list_all (match_ok (t_teams s)) (matches s)
     \<and> opt_in (dragged_team s) (t_teams s)"

section \<open>The number of rounds\<close>

lemma ceil_log2_bounds:
  "1 \<le> n \<Longrightarrow> n \<le> 2 ^ ceil_log2 n \<and> (2 \<le> n \<longrightarrow> 2 ^ (ceil_log2 n - 1) < n)"
proof (induction n rule: ceil_log2.induct)
  case (1 n)
  show ?case
  proof (cases "n \<le> 1")
    case True
    with 1 show ?thesis by (simp add: ceil_log2.simps)
  next
    case False
    define h where "h = (n + 1) div 2"
    have rec: "ceil_log2 n = Suc (ceil_log2 h)"
      using False by (simp add: ceil_log2.simps h_def)
    have "1 \<le> h" using False by (simp add: h_def)
    with 1 False have IH: "h \<le> 2 ^ ceil_log2 h \<and> (2 \<le> h \<longrightarrow> 2 ^ (ceil_log2 h - 1) < h)"
      by (simp add: h_def)
    have "n \<le> 2 * h"
      unfolding h_def by presburger
    moreover have "2 * h \<le> 2 * 2 ^ ceil_log2 h"
      using IH by simp
    ultimately have up: "n \<le> 2 ^ ceil_log2 n"
      by (simp add: rec)
    have low: "2 ^ ceil_log2 h < n"
    proof (cases "2 \<le> h")
      case True
      with IH have "2 ^ (ceil_log2 h - 1) < h" by simp
      moreover have "ceil_log2 h \<noteq> 0"
        using True by (simp add: ceil_log2.simps)
      ultimately have "2 * 2 ^ (ceil_log2 h - 1) < 2 * h - 1"
        by linarith
      moreover have "2 * 2 ^ (ceil_log2 h - 1) = (2::nat) ^ ceil_log2 h"
        using \<open>ceil_log2 h \<noteq> 0\<close> by (metis power_Suc Suc_pred' neq0_conv)
      ultimately show ?thesis
        by (simp add: h_def)
    next
      case False
      with \<open>1 \<le> h\<close> have "h = 1" by simp
      with \<open>\<not> n \<le> 1\<close> show ?thesis by (simp add: ceil_log2.simps)
    qed
    show ?thesis
      using up low by (simp add: rec)
  qed
qed

section \<open>Shape of a fresh bracket\<close>

lemma match_id_no_dash: "CHR ''-'' \<notin> set (js_nat_string n)"
  using js_nat_string_digit [of "CHR ''-''" n] by auto

lemma match_id_inj: "match_id r p = match_id r' p' \<longleftrightarrow> r = r' \<and> p = p'"
  using match_id_no_dash [of r] match_id_no_dash [of p]
  by (auto simp: match_id_def append_Cons_eq_iff)

lemma initialize_bracket_pairs:
  "initialize_bracket n = map (\<lambda>(r, p). new_match r p)
     (concat (map (\<lambda>r. map (Pair r) [0..<2 ^ (ceil_log2 n - r - 1)]) [0..<ceil_log2 n]))"
  by (simp add: initialize_bracket_def Let_def map_concat comp_def)

lemma initialize_bracket_ids_distinct: "distinct (map m_id (initialize_bracket n))"
proof -
  define P where "P = concat (map (\<lambda>r. map (Pair r) [0..<2 ^ (ceil_log2 n - r - 1)]) [0..<ceil_log2 n])"
  have "distinct P"
    unfolding P_def by (rule distinct_concat_map_Pair) simp_all
  moreover have "inj_on (\<lambda>(r, p). match_id r p) (set P)"
    by (auto simp: inj_on_def match_id_inj)
  ultimately have "distinct (map (\<lambda>(r, p). match_id r p) P)"
    by (simp add: distinct_map)
  moreover have "map m_id (initialize_bracket n) = map (\<lambda>(r, p). match_id r p) P"
    by (auto simp: initialize_bracket_pairs P_def new_match_def)
  ultimately show ?thesis by simp
qed

lemma initialize_bracket_mem:
  "m \<in> set (initialize_bracket n) \<longleftrightarrow>
     m_round m < ceil_log2 n \<and> m_position m < 2 ^ (ceil_log2 n - m_round m - 1)
     \<and> m = new_match (m_round m) (m_position m)"
proof -
  have "m \<in> set (initialize_bracket n) \<longleftrightarrow>
          (\<exists>r p. r < ceil_log2 n \<and> p < 2 ^ (ceil_log2 n - r - 1) \<and> m = new_match r p)"
    by (fastforce simp: initialize_bracket_def Let_def image_iff)
  also have "\<dots> \<longleftrightarrow> m_round m < ceil_log2 n \<and> m_position m < 2 ^ (ceil_log2 n - m_round m - 1)
                    \<and> m = new_match (m_round m) (m_position m)"
    by (auto simp: new_match_def)
  finally show ?thesis .
qed

lemma sum_pow2_rev: "sum_list (map (\<lambda>r. 2 ^ (k - Suc r)) [0..<k]) = (2::nat) ^ k - 1"
proof -
  have "sum_list (map (\<lambda>r. 2 ^ (k - Suc r)) [0..<k]) = (\<Sum>r<k. (2::nat) ^ (k - Suc r))"
    by (simp add: interv_sum_list_conv_sum_set_nat atLeast0LessThan)
  also have "\<dots> = (\<Sum>i<k. 2 ^ i)"
    by (rule sum.nat_diff_reindex)
  also have "\<dots> = 2 ^ k - 1"
    by (induction k) simp_all
  finally show ?thesis .
qed

lemma length_initialize_bracket: "length (initialize_bracket n) = 2 ^ ceil_log2 n - 1"
  by (simp add: initialize_bracket_def Let_def length_concat comp_def sum_pow2_rev)

lemma first_round_length:
  "1 \<le> ceil_log2 n \<Longrightarrow>
     length (filter (\<lambda>m. m_round m = 0) (initialize_bracket n)) = 2 ^ (ceil_log2 n - 1)"
proof -
  assume "1 \<le> ceil_log2 n"
  then have "[0..<ceil_log2 n] = 0 # [1..<ceil_log2 n]"
    by (simp add: upt_rec)
  moreover have "filter (\<lambda>m. m_round m = 0) (map (new_match r) xs) = []" if "1 \<le> r" for r xs
    using that by (induction xs) (simp_all add: new_match_def)
  ultimately show ?thesis
    by (simp add: initialize_bracket_def Let_def filter_concat comp_def new_match_def)
qed


section \<open>The page invariant\<close>

lemma map_shape_update:
  "(\<And>m. match_shape (f m) = match_shape m) \<Longrightarrow> map (match_shape \<circ> f) ms = map match_shape ms"
  by (induction ms) simp_all

lemma match_shape_set_slot [simp]: "match_shape (set_slot sl t m) = match_shape m"
  by (cases sl) (simp_all add: set_slot_def match_shape_def)

lemma match_shape_winner [simp]: "match_shape (m\<lparr>winner := w\<rparr>) = match_shape m"
  by (simp add: match_shape_def)

lemma match_ok_set_slot: "match_ok ts m \<Longrightarrow> t \<in> set ts \<Longrightarrow> match_ok ts (set_slot sl t m)"
  by (cases sl) (simp_all add: set_slot_def match_ok_def opt_in_def)

lemma match_ok_winner: "match_ok ts m \<Longrightarrow> t \<in> set ts \<Longrightarrow> match_ok ts (m\<lparr>winner := Some t\<rparr>)"
  by (simp add: match_ok_def opt_in_def)

lemma match_ok_slot_of: "match_ok ts m \<Longrightarrow> slot_of sl m = Some t \<Longrightarrow> t \<in> set ts"
  by (cases sl) (simp_all add: match_ok_def opt_in_def slot_of_def)

lemma match_ok_mono: "set ts \<subseteq> set ts' \<Longrightarrow> match_ok ts m \<Longrightarrow> match_ok ts' m"
  by (auto simp: match_ok_def opt_in_def split: option.splits)

lemma slot_of_set_slot: "slot_of sl (set_slot sl t m) = Some t"
  by (cases sl) (simp_all add: set_slot_def slot_of_def)

lemma set_winner_calls_ne: "set_winner_calls ms mid w \<noteq> []"
  by (simp add: set_winner_calls_def Let_def split: option.splits)

lemma set_winner_calls_cases:
  "c \<in> set (set_winner_calls ms mid w) \<Longrightarrow>
     c = map (\<lambda>m. if m_id m = mid then m\<lparr>winner := Some w\<rparr> else m) ms
     \<or> (\<exists>i sl. c = map (\<lambda>m. if m_id m = i then set_slot sl w m else m) ms)"
  by (auto simp: set_winner_calls_def Let_def split: option.splits)

lemma set_winner_calls_shape:
  "c \<in> set (set_winner_calls ms mid w) \<Longrightarrow> map match_shape c = map match_shape ms"
  by (auto dest!: set_winner_calls_cases intro!: map_shape_update)

lemma set_winner_calls_ok:
  "list_all (match_ok ts) ms \<Longrightarrow> w \<in> set ts \<Longrightarrow> c \<in> set (set_winner_calls ms mid w) \<Longrightarrow>
     list_all (match_ok ts) c"
  by (auto dest!: set_winner_calls_cases intro!: list_all_map_if match_ok_set_slot match_ok_winner)

lemma react_commit_in: "calls \<noteq> [] \<Longrightarrow> react_commit old calls \<in> set calls"
  by (cases calls) (simp_all add: react_commit_def)

lemma tour_wf_init [wf_intros]: "tour_wf tour_init"
  by (simp add: tour_wf_def tour_init_def initialize_bracket_def ceil_log2.simps opt_in_def)

lemma tour_wf_input [wf_intros]: "tour_wf s \<Longrightarrow> tour_wf (set_new_team s v)"
  by (simp add: tour_wf_def set_new_team_def)

lemma fresh_match_ok: "m \<in> set (initialize_bracket n) \<Longrightarrow> match_ok ts m"
  by (auto simp: initialize_bracket_def Let_def new_match_def match_ok_def opt_in_def)

lemma tour_wf_add [wf_intros]: "tour_wf s \<Longrightarrow> tour_wf (add_team s)"
  by (auto simp: tour_wf_def add_team_def Let_def list_all_iff opt_in_def fresh_match_ok
      split: option.splits)

lemma tour_wf_drag [wf_intros]: "tour_wf s \<Longrightarrow> t \<in> set (t_teams s) \<Longrightarrow> tour_wf (handle_drag_start s t)"
  by (simp add: tour_wf_def handle_drag_start_def opt_in_def)

lemma tour_wf_drop [wf_intros]: "tour_wf s \<Longrightarrow> tour_wf (handle_drop s mid sl)"
  unfolding tour_wf_def handle_drop_def
  by (auto simp: opt_in_def map_shape_update intro!: list_all_map_if match_ok_set_slot
      split: option.splits)

lemma tour_wf_win [wf_intros]:
  assumes wf: "tour_wf s" and m: "m \<in> set (matches s)" and sl: "slot_of sl m = Some w"
  shows "tour_wf (set_winner s (m_id m) w)"
proof -
  have "w \<in> set (t_teams s)"
    using wf m sl by (auto simp: tour_wf_def list_all_iff intro: match_ok_slot_of)
  moreover define c where "c = react_commit (matches s) (set_winner_calls (matches s) (m_id m) w)"
  moreover have "c \<in> set (set_winner_calls (matches s) (m_id m) w)"
    unfolding c_def by (rule react_commit_in [OF set_winner_calls_ne])
  ultimately show ?thesis
    using wf set_winner_calls_shape set_winner_calls_ok
    by (simp add: tour_wf_def set_winner_def) blast
qed

lemma tour_reachable_wf_inv: "tour_reachable s \<Longrightarrow> tour_wf s"
  by (induction rule: tour_reachable.induct) (auto intro: wf_intros)


section \<open>Facts of a well-formed bracket\<close>

lemma shape_set:
  "set (map match_shape (initialize_bracket n))
     = {(match_id r p, r, p) | r p. r < ceil_log2 n \<and> p < 2 ^ (ceil_log2 n - r - 1)}"
proof
  show "set (map match_shape (initialize_bracket n))
          \<subseteq> {(match_id r p, r, p) | r p. r < ceil_log2 n \<and> p < 2 ^ (ceil_log2 n - r - 1)}"
    by (auto simp: initialize_bracket_def Let_def match_shape_def new_match_def)
next
  show "{(match_id r p, r, p) | r p. r < ceil_log2 n \<and> p < 2 ^ (ceil_log2 n - r - 1)}
          \<subseteq> set (map match_shape (initialize_bracket n))"
  proof clarify
    fix r p :: nat
    assume "r < ceil_log2 n" and "p < 2 ^ (ceil_log2 n - r - 1)"
    then have "new_match r p \<in> set (initialize_bracket n)"
      by (simp add: initialize_bracket_mem new_match_def)
    moreover have "match_shape (new_match r p) = (match_id r p, r, p)"
      by (simp add: match_shape_def new_match_def)
    ultimately show "(match_id r p, r, p) \<in> set (map match_shape (initialize_bracket n))"
      by (metis image_eqI set_map)
  qed
qed

lemma tour_wf_match:
  assumes "tour_wf s" and "m \<in> set (matches s)"
  shows "m_id m = match_id (m_round m) (m_position m)
         \<and> m_round m < ceil_log2 (length (t_teams s))
         \<and> m_position m < 2 ^ (ceil_log2 (length (t_teams s)) - m_round m - 1)"
proof -
  have "match_shape m \<in> set (map match_shape (matches s))"
    using assms(2) by simp
  then show ?thesis
    using assms(1) by (simp only: tour_wf_def shape_set) (auto simp: match_shape_def)
qed

lemma tour_wf_slot_exists:
  assumes "tour_wf s" and "r < ceil_log2 (length (t_teams s))"
    and "p < 2 ^ (ceil_log2 (length (t_teams s)) - r - 1)"
  shows "\<exists>x \<in> set (matches s). m_round x = r \<and> m_position x = p"
proof -
  have "(match_id r p, r, p) \<in> set (map match_shape (matches s))"
    using assms by (simp only: tour_wf_def shape_set) auto
  then show ?thesis
    by (auto simp: match_shape_def)
qed

lemma tour_wf_ids_distinct: "tour_wf s \<Longrightarrow> distinct (map m_id (matches s))"
proof -
  assume "tour_wf s"
  then have "map fst (map match_shape (matches s))
               = map fst (map match_shape (initialize_bracket (length (t_teams s))))"
    by (simp add: tour_wf_def)
  then have "map m_id (matches s) = map m_id (initialize_bracket (length (t_teams s)))"
    by (simp add: match_shape_def comp_def)
  then show ?thesis
    using initialize_bracket_ids_distinct by simp
qed

lemma successor_pos_bound:
  "Suc r < k \<Longrightarrow> p < 2 ^ (k - r - 1) \<Longrightarrow> p div 2 < 2 ^ (k - Suc r - 1)"
  for p :: nat
proof -
  assume "Suc r < k" and "p < 2 ^ (k - r - 1)"
  moreover have "(2::nat) ^ (k - r - 1) = 2 * 2 ^ (k - Suc r - 1)"
    using \<open>Suc r < k\<close> by (simp add: power_Suc [symmetric] Suc_diff_Suc)
  ultimately show ?thesis by simp
qed


section \<open>Properties of the bracket\<close>

text \<open>
  C13. In every state the tournament page reaches, team names are distinct, match ids are
  distinct (so a drop or a crown click addresses exactly one match), the bracket has
  \<open>2 ^ roundCount - 1\<close> matches for the current number of teams, and every slot and winner
  names a listed team.
\<close>

theorem tour_reachable_wf:
  "tour_reachable s \<Longrightarrow>
     distinct (t_teams s) \<and> distinct (map m_id (matches s))
     \<and> length (matches s) = 2 ^ ceil_log2 (length (t_teams s)) - 1
     \<and> list_all (match_ok (t_teams s)) (matches s)"
proof -
  assume "tour_reachable s"
  then have wf: "tour_wf s" by (rule tour_reachable_wf_inv)
  then have "length (map match_shape (matches s))
               = length (map match_shape (initialize_bracket (length (t_teams s))))"
    by (simp only: tour_wf_def)
  with wf show ?thesis
    by (simp add: tour_wf_ids_distinct length_initialize_bracket) (simp add: tour_wf_def)
qed

theorem tour_reachable_wf_witness:
  "tour_reachable (add_team (set_new_team (add_team (set_new_team tour_init ''A'')) ''B''))
   \<and> length (matches (add_team (set_new_team (add_team (set_new_team tour_init ''A'')) ''B''))) = 1"
proof -
  have r: "tour_reachable (add_team (set_new_team (add_team (set_new_team tour_init ''A'')) ''B''))"
    by (intro tour_reachable.add tour_reachable.input tour_reachable.init)
  have "length (t_teams (add_team (set_new_team (add_team (set_new_team tour_init ''A'')) ''B''))) = 2"
    by (simp add: add_team_def set_new_team_def tour_init_def Let_def)
  with tour_reachable_wf [OF r] r show ?thesis
    by (simp add: ceil_log2.simps)
qed

text \<open>
  C14. For two or more teams the fresh bracket has \<open>2 ^ roundCount - 1\<close> matches (the
  unused \<open>totalMatches\<close> of the source), distinct ids, and a first round with room for
  every team and fewer than twice as many slots as teams.
\<close>

theorem bracket_capacity:
  assumes "2 \<le> n"
  shows "length (initialize_bracket n) = 2 ^ ceil_log2 n - 1
         \<and> distinct (map m_id (initialize_bracket n))
         \<and> n \<le> 2 * length (filter (\<lambda>m. m_round m = 0) (initialize_bracket n))
         \<and> 2 * length (filter (\<lambda>m. m_round m = 0) (initialize_bracket n)) < 2 * n"
proof -
  have b: "n \<le> 2 ^ ceil_log2 n" "2 ^ (ceil_log2 n - 1) < n"
    using ceil_log2_bounds [of n] assms by simp_all
  have pos: "1 \<le> ceil_log2 n"
    using assms by (simp add: ceil_log2.simps)
  then have "2 * 2 ^ (ceil_log2 n - 1) = (2::nat) ^ ceil_log2 n"
    by (metis Suc_diff_1 less_le_trans power_Suc zero_less_one)
  then show ?thesis
    using b pos by (simp add: length_initialize_bracket initialize_bracket_ids_distinct first_round_length)
qed

theorem bracket_capacity_witness:
  "2 \<le> (5::nat) \<and> length (initialize_bracket 5) = 7
   \<and> length (filter (\<lambda>m. m_round m = 0) (initialize_bracket 5)) = 4"
proof -
  have "ceil_log2 5 = 3" by (simp add: ceil_log2.simps)
  with bracket_capacity [of 5] show ?thesis
    by (simp add: first_round_length)
qed


lemma set_winner_successor:
  assumes wf: "tour_wf s" and m: "m \<in> set (matches s)"
    and last: "Suc (m_round m) < ceil_log2 (length (t_teams s))"
  obtains nxt where "nxt \<in> set (matches s)"
    and "find (\<lambda>x. m_round x = Suc (m_round m) \<and> m_position x = m_position m div 2) (matches s) = Some nxt"
    and "m_id nxt \<noteq> m_id m"
proof -
  let ?P = "\<lambda>x. m_round x = Suc (m_round m) \<and> m_position x = m_position m div 2"
  have fm: "m_id m = match_id (m_round m) (m_position m)"
    and pm: "m_position m < 2 ^ (ceil_log2 (length (t_teams s)) - m_round m - 1)"
    using tour_wf_match [OF wf m] by simp_all
  have "p div 2 < 2 ^ (ceil_log2 (length (t_teams s)) - Suc (m_round m) - 1)"
    if "p = m_position m" for p
    using successor_pos_bound [OF last pm] that by simp
  then obtain x where "x \<in> set (matches s)" and "?P x"
    using tour_wf_slot_exists [OF wf last] by blast
  then have "find ?P (matches s) \<noteq> None"
    by (auto simp: find_None_iff)
  then obtain nxt where f: "find ?P (matches s) = Some nxt"
    by blast
  from find_Some_in [OF f] have nxt: "nxt \<in> set (matches s)" and pn: "?P nxt"
    by simp_all
  have "m_id nxt = match_id (m_round nxt) (m_position nxt)"
    using tour_wf_match [OF wf nxt] by simp
  with pn fm have "m_id nxt \<noteq> m_id m"
    by (simp add: match_id_inj)
  from that [OF nxt f this] show ?thesis .
qed

lemma set_winner_find_self:
  "tour_wf s \<Longrightarrow> m \<in> set (matches s) \<Longrightarrow> find (\<lambda>x. m_id x = m_id m) (matches s) = Some m"
  by (rule find_distinct_key [OF tour_wf_ids_distinct])

text \<open>
  \<open>setWinner\<close> on a match that has a successor does not record the winner: the two
  \<open>setMatches\<close> calls are computed from the same \<open>matches\<close>, and the second (placing the
  winner in the successor's slot) replaces the first. The match keeps its previous winner,
  while the successor's slot receives the team.
\<close>

lemma set_winner_drops_winner:
  assumes "tour_reachable s" and "m \<in> set (matches s)"
    and "Suc (m_round m) < ceil_log2 (length (t_teams s))"
  shows "find (\<lambda>x. m_id x = m_id m) (matches (set_winner s (m_id m) w)) = Some m
         \<and> (\<exists>nxt. find (\<lambda>x. m_round x = Suc (m_round m) \<and> m_position x = m_position m div 2)
                     (matches (set_winner s (m_id m) w)) = Some nxt
                 \<and> slot_of (if m_position m mod 2 = 0 then Team1 else Team2) nxt = Some w)"
proof -
  have wf: "tour_wf s"
    using assms(1) by (rule tour_reachable_wf_inv)
  obtain nxt where nxt: "nxt \<in> set (matches s)"
    and f: "find (\<lambda>x. m_round x = Suc (m_round m) \<and> m_position x = m_position m div 2) (matches s) = Some nxt"
    and ne: "m_id nxt \<noteq> m_id m"
    using set_winner_successor [OF wf assms(2,3)] by blast
  define sl where "sl = (if m_position m mod 2 = 0 then Team1 else Team2)"
  define g :: "bracket_match \<Rightarrow> bracket_match"
    where "g = (\<lambda>x. if m_id x = m_id nxt then set_slot sl w x else x)"
  have res: "matches (set_winner s (m_id m) w) = map g (matches s)"
    using set_winner_find_self [OF wf assms(2)] f
    by (simp add: set_winner_def set_winner_calls_def react_commit_def Let_def g_def sl_def)
  have ids: "map m_id (map g (matches s)) = map m_id (matches s)"
    by (auto simp: g_def set_slot_def split: slot.splits)
  have dist: "distinct (map m_id (map g (matches s)))"
    by (simp only: ids) (rule tour_wf_ids_distinct [OF wf])
  have "g m \<in> g ` set (matches s)"
    using assms(2) by (rule imageI)
  moreover have "g m = m" using ne by (simp add: g_def)
  ultimately have "m \<in> set (map g (matches s))"
    by simp
  then have self: "find (\<lambda>x. m_id x = m_id m) (map g (matches s)) = Some m"
    by (rule find_distinct_key [OF dist])
  have "find (\<lambda>x. m_round x = Suc (m_round m) \<and> m_position x = m_position m div 2) (map g (matches s))
          = Some (set_slot sl w nxt)"
    using f by (subst find_map_inv) (auto simp: g_def set_slot_def split: slot.splits)
  moreover have "slot_of sl (set_slot sl w nxt) = Some w"
    by (simp add: slot_of_set_slot)
  ultimately show ?thesis
    using self res by (simp add: sl_def)
qed

text \<open>
  On a final match (no successor) \<open>setWinner\<close> records the winner.
\<close>

lemma set_winner_final_records:
  assumes "tour_reachable s" and "m \<in> set (matches s)"
    and "Suc (m_round m) = ceil_log2 (length (t_teams s))"
  shows "find (\<lambda>x. m_id x = m_id m) (matches (set_winner s (m_id m) w)) = Some (m\<lparr>winner := Some w\<rparr>)"
proof -
  have wf: "tour_wf s"
    using assms(1) by (rule tour_reachable_wf_inv)
  define g :: "bracket_match \<Rightarrow> bracket_match"
    where "g = (\<lambda>x. if m_id x = m_id m then x\<lparr>winner := Some w\<rparr> else x)"
  have "find (\<lambda>x. m_round x = Suc (m_round m) \<and> m_position x = m_position m div 2) (matches s) = None"
    using assms(3) by (auto simp: find_None_iff dest: tour_wf_match [OF wf])
  then have res: "matches (set_winner s (m_id m) w) = map g (matches s)"
    using set_winner_find_self [OF wf assms(2)]
    by (simp add: set_winner_def set_winner_calls_def react_commit_def Let_def g_def)
  have ids: "map m_id (map g (matches s)) = map m_id (matches s)"
    by (simp add: g_def)
  have dist: "distinct (map m_id (map g (matches s)))"
    by (simp only: ids) (rule tour_wf_ids_distinct [OF wf])
  have "g m \<in> g ` set (matches s)"
    using assms(2) by (rule imageI)
  then have "m\<lparr>winner := Some w\<rparr> \<in> set (map g (matches s))"
    by (simp add: g_def)
  from find_distinct_key [OF dist this] show ?thesis
    by (simp add: res g_def)
qed


lemma initialize_bracket_3: "initialize_bracket 3 = [new_match 0 0, new_match 0 1, new_match 1 0]"
proof -
  have "ceil_log2 3 = 2" by (simp add: ceil_log2.simps)
  then show ?thesis
    by (simp add: initialize_bracket_def upt_rec)
qed

text \<open>
  C15. \<open>setWinner\<close> records a winner only on the final: on a match with a successor the
  second \<open>setMatches\<close> call, placing the team in the successor's slot, replaces the first,
  so the match keeps its previous winner; on the final match (no successor) the winner is
  recorded.
\<close>

theorem set_winner_outcome:
  assumes "tour_reachable s" and "m \<in> set (matches s)"
  shows "(Suc (m_round m) < ceil_log2 (length (t_teams s)) \<longrightarrow>
            find (\<lambda>x. m_id x = m_id m) (matches (set_winner s (m_id m) w)) = Some m
            \<and> (\<exists>nxt. find (\<lambda>x. m_round x = Suc (m_round m) \<and> m_position x = m_position m div 2)
                        (matches (set_winner s (m_id m) w)) = Some nxt
                    \<and> slot_of (if m_position m mod 2 = 0 then Team1 else Team2) nxt = Some w))
         \<and> (Suc (m_round m) = ceil_log2 (length (t_teams s)) \<longrightarrow>
            find (\<lambda>x. m_id x = m_id m) (matches (set_winner s (m_id m) w)) = Some (m\<lparr>winner := Some w\<rparr>))"
  using set_winner_drops_winner [OF assms] set_winner_final_records [OF assms] by blast

theorem set_winner_outcome_witness:
  "find (\<lambda>x. m_id x = m_id (new_match 0 0))
      (matches (set_winner (add_team (set_new_team (add_team (set_new_team (add_team (set_new_team tour_init
             ''A'')) ''B'')) ''C'')) (m_id (new_match 0 0)) ''A''))
     = Some (new_match 0 0)
   \<and> winner (new_match 0 0) = None
   \<and> find (\<lambda>x. m_id x = m_id (new_match 0 0))
      (matches (set_winner (add_team (set_new_team (add_team (set_new_team tour_init ''A'')) ''B''))
                 (m_id (new_match 0 0)) ''A''))
     = Some ((new_match 0 0)\<lparr>winner := Some ''A''\<rparr>)"
proof -
  define s3 where "s3 = add_team (set_new_team (add_team (set_new_team (add_team (set_new_team tour_init
             ''A'')) ''B'')) ''C'')"
  define s2 where "s2 = add_team (set_new_team (add_team (set_new_team tour_init ''A'')) ''B'')"
  have r3: "tour_reachable s3"
    unfolding s3_def by (intro tour_reachable.add tour_reachable.input tour_reachable.init)
  have r2: "tour_reachable s2"
    unfolding s2_def by (intro tour_reachable.add tour_reachable.input tour_reachable.init)
  have c2: "ceil_log2 2 = 1" "ceil_log2 (Suc (Suc 0)) = 1" by (simp_all add: ceil_log2.simps)
  have ms3: "matches s3 = initialize_bracket 3" and ts3: "length (t_teams s3) = 3"
    by (simp_all add: s3_def add_team_def set_new_team_def tour_init_def Let_def numeral_3_eq_3)
  have ms2: "matches s2 = [new_match 0 0]" and ts2: "length (t_teams s2) = 2"
    by (simp_all add: s2_def add_team_def set_new_team_def tour_init_def Let_def initialize_bracket_def c2)
  have mem3: "new_match 0 0 \<in> set (matches s3)"
    by (simp add: ms3 initialize_bracket_3)
  have mem2: "new_match 0 0 \<in> set (matches s2)"
    by (simp add: ms2)
  have lt: "Suc (m_round (new_match 0 0)) < ceil_log2 (length (t_teams s3))"
    by (simp add: ts3 new_match_def ceil_log2.simps)
  have eq: "Suc (m_round (new_match 0 0)) = ceil_log2 (length (t_teams s2))"
    by (simp add: ts2 new_match_def c2)
  have A: "find (\<lambda>x. m_id x = m_id (new_match 0 0)) (matches (set_winner s3 (m_id (new_match 0 0)) ''A''))
          = Some (new_match 0 0)"
    using set_winner_outcome [OF r3 mem3, of "''A''"] lt by blast
  have B: "find (\<lambda>x. m_id x = m_id (new_match 0 0)) (matches (set_winner s2 (m_id (new_match 0 0)) ''A''))
          = Some ((new_match 0 0)\<lparr>winner := Some ''A''\<rparr>)"
    using set_winner_outcome [OF r2 mem2, of "''A''"] eq by blast
  from A B show ?thesis
    unfolding s3_def s2_def by (simp add: new_match_def)
qed

text \<open>
  The executable round count is the source's \<open>Math.ceil(Math.log2(teamCount))\<close> over
  the reals, for every positive team count: the model's integer recursion is exact.
\<close>

lemma ceil_log2_real: "1 \<le> n \<Longrightarrow> ceil_log2 n = nat \<lceil>log 2 (real n)\<rceil>"
proof -
  assume n: "1 \<le> n"
  show ?thesis
  proof (cases "n = 1")
    case True
    then show ?thesis by (simp add: ceil_log2.simps)
  next
    case False
    with n have n2: "2 \<le> n" by simp
    then obtain k where k: "ceil_log2 n = Suc k"
      by (cases "ceil_log2 n") (simp_all add: ceil_log2.simps)
    have "2 ^ k < n \<and> n \<le> 2 ^ (k + 1)"
      using ceil_log2_bounds [OF n] n2 by (simp add: k)
    then have "\<lceil>log (real 2) (real n)\<rceil> = int k + 1"
      using n by (subst ceiling_log_nat_eq_powr_iff) simp_all
    then show ?thesis
      by (simp add: k)
  qed
qed

text \<open>
  C16. Adding a team rebuilds the bracket from scratch: after a successful add every slot and
  every winner of every match is empty, whatever had been placed or decided before.
\<close>

theorem add_team_resets_bracket:
  assumes "new_team s \<noteq> []" and "new_team s \<notin> set (t_teams s)"
  shows "t_teams (add_team s) = t_teams s @ [new_team s]
         \<and> list_all (\<lambda>m. team1 m = None \<and> team2 m = None \<and> winner m = None) (matches (add_team s))"
  using assms
  by (auto simp: add_team_def Let_def list_all_iff initialize_bracket_def new_match_def)

theorem add_team_resets_bracket_witness:
  "new_team (tour_init\<lparr>new_team := ''A''\<rparr>) \<noteq> [] \<and> new_team (tour_init\<lparr>new_team := ''A''\<rparr>) \<notin> set (t_teams (tour_init\<lparr>new_team := ''A''\<rparr>))
   \<and> t_teams (add_team (tour_init\<lparr>new_team := ''A''\<rparr>)) = [''A'']"
  using add_team_resets_bracket [of "tour_init\<lparr>new_team := ''A''\<rparr>"] by (simp add: tour_init_def)

end
