(* ===== verification/Spreadsheet.thy ===== *)
theory Spreadsheet
  imports StompChart
begin

text \<open>
  \<open>StompSpreadsheet\<close> of \<open>src/components/stomp-spreadsheet.tsx\<close>: rows of players with start
  and end stomps, a derived gain per row, a totals record kept by an effect, row handlers, the
  import into the counter and the Tab key handler. A handler followed by the totals effect
  (\<open>sheet_effect\<close>, run after every render where \<open>rows\<close> changed) is one step of
  \<open>sheet_reachable\<close>. Numbers typed into the inputs arrive as \<open>Number(v) || 0\<close>, an integer.
\<close>

record sheet_row =
  sr_id :: string
  sr_name :: string
  start_stomps :: int
  end_stomps :: int
  sr_team :: string
  gained_stomps :: int

record sheet_totals =
  tot_start :: int
  tot_end :: int
  tot_gained :: int

record sheet_state =
  rows :: "sheet_row list"
  totals :: sheet_totals

definition zero_totals :: sheet_totals where
  "zero_totals = \<lparr>tot_start = 0, tot_end = 0, tot_gained = 0\<rparr>"

definition sheet_init :: sheet_state where
  "sheet_init = \<lparr>rows = [], totals = zero_totals\<rparr>"

text \<open>The effect on \<open>[rows]\<close>: \<open>rows.reduce\<close> summing each column (\<open>x || 0\<close> is \<open>x\<close> on integers).\<close>

definition sum_totals :: "sheet_row list \<Rightarrow> sheet_totals" where
  "sum_totals rs =
     foldl (\<lambda>acc r. \<lparr>tot_start = tot_start acc + start_stomps r, tot_end = tot_end acc + end_stomps r,
                     tot_gained = tot_gained acc + gained_stomps r\<rparr>) zero_totals rs"

definition sheet_effect :: "sheet_state \<Rightarrow> sheet_state" where
  "sheet_effect st = st\<lparr>totals := sum_totals (rows st)\<rparr>"

definition sheet_new_row :: "string list \<Rightarrow> string \<Rightarrow> sheet_row" where
  "sheet_new_row teams uuid =
     \<lparr>sr_id = uuid, sr_name = [], start_stomps = 0, end_stomps = 0, sr_team = pm_default_team teams,
      gained_stomps = 0\<rparr>"

definition add_row :: "string list \<Rightarrow> sheet_state \<Rightarrow> string \<Rightarrow> sheet_state" where
  "add_row teams st uuid = st\<lparr>rows := rows st @ [sheet_new_row teams uuid]\<rparr>"

definition delete_row :: "sheet_state \<Rightarrow> string \<Rightarrow> sheet_state" where
  "delete_row st rid = st\<lparr>rows := filter (\<lambda>r. sr_id r \<noteq> rid) (rows st)\<rparr>"

text \<open>The fields the inputs update, with the value each passes.\<close>

datatype sheet_field = FName string | FStart int | FEnd int | FTeam string

definition set_field :: "sheet_row \<Rightarrow> sheet_field \<Rightarrow> sheet_row" where
  "set_field r f =
     (case f of
        FName v \<Rightarrow> r\<lparr>sr_name := v\<rparr>
      | FStart v \<Rightarrow> r\<lparr>start_stomps := v\<rparr>
      | FEnd v \<Rightarrow> r\<lparr>end_stomps := v\<rparr>
      | FTeam v \<Rightarrow> r\<lparr>sr_team := v\<rparr>)"

definition recomputes_gain :: "sheet_field \<Rightarrow> bool" where
  "recomputes_gain f = (case f of FStart _ \<Rightarrow> True | FEnd _ \<Rightarrow> True | _ \<Rightarrow> False)"

text \<open>The updated row of \<open>updateRow\<close>: the field set, the gain recomputed for the two stomp fields.\<close>

definition apply_sheet_field :: "sheet_row \<Rightarrow> sheet_field \<Rightarrow> sheet_row" where
  "apply_sheet_field r f =
     (let u = set_field r f
      in if recomputes_gain f then u\<lparr>gained_stomps := end_stomps u - start_stomps u\<rparr> else u)"

definition update_row :: "sheet_state \<Rightarrow> string \<Rightarrow> sheet_field \<Rightarrow> sheet_state" where
  "update_row st rid f =
     st\<lparr>rows := map (\<lambda>r. if sr_id r = rid then apply_sheet_field r f else r) (rows st)\<rparr>"

definition import_alert :: string where
  "import_alert = ''No valid data to import. Please make sure all rows have names and valid stomp values.''"

definition sheet_to_player :: "sheet_row \<Rightarrow> match_player" where
  "sheet_to_player r =
     \<lparr>mp_name = sr_name r, mp_before = start_stomps r, mp_after = end_stomps r, mp_team = sr_team r\<rparr>"

text \<open>\<open>handleImport\<close>: the alert, or the players passed to \<open>onImportPlayers\<close>.\<close>

definition handle_import :: "sheet_state \<Rightarrow> string + match_player list" where
  "handle_import st =
     (let valid = filter (\<lambda>r. sr_name r \<noteq> [] \<and> start_stomps r \<le> end_stomps r) (rows st)
      in if valid = [] then Inl import_alert else Inr (map sheet_to_player valid))"

text \<open>
  \<open>handleKeyDown(e, rowIndex)\<close>: the key, whether Shift is held, the row index and the
  \<open>name\<close> attribute of the input the event comes from.
\<close>

definition handle_key_down ::
  "string list \<Rightarrow> sheet_state \<Rightarrow> string \<Rightarrow> bool \<Rightarrow> nat \<Rightarrow> string \<Rightarrow> string \<Rightarrow> sheet_state" where
  "handle_key_down teams st key shift row_index target_name uuid =
     (if key = ''Tab'' \<and> \<not> shift \<and> int row_index = int (length (rows st)) - 1
      then if target_name = ''team'' then add_row teams st uuid else st
      else st)"

text \<open>The inputs that carry \<open>onKeyDown\<close>: the name, start and end fields of each row.\<close>

definition key_targets :: "string list" where
  "key_targets = [''name'', ''startStomps'', ''endStomps'']"

text \<open>
  The component's life: the mount effect adds a row to the empty list, then Add Row (with a
  fresh id), the delete button of a row (disabled while one row remains), the inputs and the
  team select (whose items are \<open>teams\<close>), and key presses in the row inputs; each followed by
  the totals effect.
\<close>

inductive sheet_reachable :: "string list \<Rightarrow> sheet_state \<Rightarrow> bool" for teams where
  mount: "sheet_reachable teams (sheet_effect (add_row teams sheet_init uuid))"
| add: "sheet_reachable teams st \<Longrightarrow> uuid \<notin> sr_id ` set (rows st) \<Longrightarrow>
    sheet_reachable teams (sheet_effect (add_row teams st uuid))"
| delete: "sheet_reachable teams st \<Longrightarrow> r \<in> set (rows st) \<Longrightarrow> \<not> length (rows st) \<le> 1 \<Longrightarrow>
    sheet_reachable teams (sheet_effect (delete_row st (sr_id r)))"
| edit: "sheet_reachable teams st \<Longrightarrow> r \<in> set (rows st) \<Longrightarrow> (\<And>v. f = FTeam v \<Longrightarrow> v \<in> set teams) \<Longrightarrow>
    sheet_reachable teams (sheet_effect (update_row st (sr_id r) f))"
| key: "sheet_reachable teams st \<Longrightarrow> target \<in> set key_targets \<Longrightarrow> uuid \<notin> sr_id ` set (rows st) \<Longrightarrow>
    sheet_reachable teams (sheet_effect (handle_key_down teams st k shift i target uuid))"

definition row_ok :: "sheet_row \<Rightarrow> bool" where
  "row_ok r \<longleftrightarrow> gained_stomps r = end_stomps r - start_stomps r"

definition sheet_wf :: "sheet_state \<Rightarrow> bool" where
  "sheet_wf st \<longleftrightarrow> rows st \<noteq> [] \<and> distinct (map sr_id (rows st)) \<and> list_all row_ok (rows st)
     \<and> totals st = sum_totals (rows st)"


section \<open>Lemmas\<close>

lemma foldl_sum_totals:
  "foldl (\<lambda>acc r. \<lparr>tot_start = tot_start acc + start_stomps r, tot_end = tot_end acc + end_stomps r,
                   tot_gained = tot_gained acc + gained_stomps r\<rparr>) a rs
     = \<lparr>tot_start = tot_start a + sum_list (map start_stomps rs),
        tot_end = tot_end a + sum_list (map end_stomps rs),
        tot_gained = tot_gained a + sum_list (map gained_stomps rs)\<rparr>"
  by (induction rs arbitrary: a) (simp_all add: algebra_simps)

lemma sum_totals_eq:
  "sum_totals rs = \<lparr>tot_start = sum_list (map start_stomps rs), tot_end = sum_list (map end_stomps rs),
                     tot_gained = sum_list (map gained_stomps rs)\<rparr>"
  by (simp add: sum_totals_def foldl_sum_totals zero_totals_def)

lemma row_ok_gained_sum:
  "list_all row_ok rs \<Longrightarrow> sum_list (map gained_stomps rs) = sum_list (map end_stomps rs) - sum_list (map start_stomps rs)"
  by (induction rs) (simp_all add: row_ok_def)

lemma row_ok_update: "row_ok r \<Longrightarrow> row_ok (apply_sheet_field r f)"
  by (cases f) (simp_all add: row_ok_def apply_sheet_field_def set_field_def recomputes_gain_def)

lemma sr_id_apply_sheet_field [simp]: "sr_id (apply_sheet_field r f) = sr_id r"
  by (cases f) (simp_all add: apply_sheet_field_def set_field_def Let_def)

lemma update_row_ids: "map sr_id (rows (update_row st rid f)) = map sr_id (rows st)"
  by (simp add: update_row_def)

lemma sheet_effect_simps [simp]:
  "rows (sheet_effect st) = rows st" "totals (sheet_effect st) = sum_totals (rows st)"
  by (simp_all add: sheet_effect_def)

lemma sheet_wf_effect: "sheet_wf st \<Longrightarrow> sheet_wf (sheet_effect st)"
  by (simp add: sheet_wf_def)

lemma sheet_wf_mount [wf_intros]: "sheet_wf (sheet_effect (add_row teams sheet_init uuid))"
  by (simp add: sheet_wf_def add_row_def sheet_init_def sheet_new_row_def row_ok_def)

lemma sheet_wf_add [wf_intros]:
  "sheet_wf st \<Longrightarrow> uuid \<notin> sr_id ` set (rows st) \<Longrightarrow> sheet_wf (sheet_effect (add_row teams st uuid))"
  by (simp add: sheet_wf_def add_row_def sheet_new_row_def row_ok_def)

lemma sheet_wf_delete [wf_intros]:
  assumes "sheet_wf st" and "r \<in> set (rows st)" and "\<not> length (rows st) \<le> 1"
  shows "sheet_wf (sheet_effect (delete_row st (sr_id r)))"
proof -
  have "length (filter (\<lambda>y. sr_id y \<noteq> sr_id r) (rows st)) = length (rows st) - 1"
    using assms by (intro length_filter_key_neq) (simp_all add: sheet_wf_def)
  with assms show ?thesis
    by (auto simp: sheet_wf_def delete_row_def list_all_iff distinct_map_filter)
qed

lemma sheet_wf_edit [wf_intros]:
  assumes "sheet_wf st"
  shows "sheet_wf (sheet_effect (update_row st rid f))"
proof -
  have "list_all row_ok (rows (update_row st rid f))"
    unfolding update_row_def
    using assms by (auto intro!: list_all_map_if row_ok_update simp: sheet_wf_def)
  moreover have "distinct (map sr_id (rows (update_row st rid f)))"
    using assms by (simp only: update_row_ids) (simp add: sheet_wf_def)
  moreover have "rows (update_row st rid f) \<noteq> []"
    using assms by (simp add: update_row_def sheet_wf_def)
  ultimately show ?thesis
    by (simp add: sheet_wf_def)
qed

lemma sheet_wf_key [wf_intros]:
  "sheet_wf st \<Longrightarrow> uuid \<notin> sr_id ` set (rows st) \<Longrightarrow>
     sheet_wf (sheet_effect (handle_key_down teams st k shift i target uuid))"
  by (simp add: handle_key_down_def sheet_wf_add sheet_wf_effect)

lemma sheet_reachable_wf_inv: "sheet_reachable teams st \<Longrightarrow> sheet_wf st"
  by (induction rule: sheet_reachable.induct) (auto intro: wf_intros)


lemma sheet_reachable_teams:
  "sheet_reachable teams st \<Longrightarrow>
     list_all (\<lambda>r. sr_team r \<in> set teams \<or> sr_team r = pm_default_team teams) (rows st)"
proof (induction rule: sheet_reachable.induct)
  case (edit st r f)
  then show ?case
    by (cases f) (auto simp: update_row_def list_all_iff apply_sheet_field_def set_field_def
        recomputes_gain_def)
qed (auto simp: add_row_def sheet_init_def sheet_new_row_def delete_row_def handle_key_down_def
       list_all_iff)

section \<open>Properties of the spreadsheet\<close>

text \<open>
  C17. In every state of the spreadsheet (after the totals effect) there is at least one row,
  every row's displayed gain is its end stomps minus its start stomps, and the totals row's gain
  is the total end minus the total start.
\<close>

theorem sheet_reachable_wf:
  "sheet_reachable teams st \<Longrightarrow>
     rows st \<noteq> [] \<and> list_all (\<lambda>r. gained_stomps r = end_stomps r - start_stomps r) (rows st)
     \<and> tot_gained (totals st) = tot_end (totals st) - tot_start (totals st)"
proof -
  assume "sheet_reachable teams st"
  then have wf: "sheet_wf st" by (rule sheet_reachable_wf_inv)
  then have "list_all row_ok (rows st)" by (simp add: sheet_wf_def)
  with wf show ?thesis
    by (simp add: sheet_wf_def sum_totals_eq row_ok_gained_sum) (simp add: list_all_iff row_ok_def)
qed

theorem sheet_reachable_wf_witness:
  "sheet_reachable [''Red'', ''Blue''] (sheet_effect (add_row [''Red'', ''Blue''] sheet_init ''r1''))
   \<and> tot_gained (totals (sheet_effect (add_row [''Red'', ''Blue''] sheet_init ''r1''))) = 0"
proof -
  have r: "sheet_reachable [''Red'', ''Blue''] (sheet_effect (add_row [''Red'', ''Blue''] sheet_init ''r1''))"
    by (rule sheet_reachable.mount)
  have "tot_end (totals (sheet_effect (add_row [''Red'', ''Blue''] sheet_init ''r1''))) = 0"
    "tot_start (totals (sheet_effect (add_row [''Red'', ''Blue''] sheet_init ''r1''))) = 0"
    by (simp_all add: sum_totals_eq add_row_def sheet_init_def sheet_new_row_def)
  with sheet_reachable_wf [OF r] r show ?thesis by simp
qed

text \<open>
  C18. Import to Counter alerts exactly when no row has a name and an end count at least its
  start count; otherwise it passes those rows, in order, as players with a name, a
  non-negative gain and a team of the \<open>teams\<close> prop (when the first team's name is not empty).
\<close>

theorem handle_import_spec:
  assumes "sheet_reachable teams st" and "teams \<noteq> []" and "hd teams \<noteq> []"
  shows "(handle_import st = Inl import_alert
            \<longleftrightarrow> list_all (\<lambda>r. sr_name r = [] \<or> end_stomps r < start_stomps r) (rows st))
         \<and> (\<forall>ps. handle_import st = Inr ps \<longrightarrow>
              ps = map sheet_to_player (filter (\<lambda>r. sr_name r \<noteq> [] \<and> start_stomps r \<le> end_stomps r) (rows st))
              \<and> ps \<noteq> []
              \<and> list_all (\<lambda>p. mp_name p \<noteq> [] \<and> 0 \<le> mp_after p - mp_before p \<and> mp_team p \<in> set teams) ps)"
proof -
  have teams: "list_all (\<lambda>r. sr_team r \<in> set teams) (rows st)"
    using sheet_reachable_teams [OF assms(1)] pm_default_team_in [OF assms(2,3)]
    by (auto simp: list_all_iff)
  have alert: "filter (\<lambda>r. sr_name r \<noteq> [] \<and> start_stomps r \<le> end_stomps r) (rows st) = []
                 \<longleftrightarrow> list_all (\<lambda>r. sr_name r = [] \<or> end_stomps r < start_stomps r) (rows st)"
    by (auto simp: filter_empty_conv list_all_iff)
  show ?thesis
    using teams alert
    by (auto simp: handle_import_def Let_def list_all_iff sheet_to_player_def)
qed

theorem handle_import_spec_witness:
  "handle_import (sheet_effect (add_row [''Red'', ''Blue''] sheet_init ''r1'')) = Inl import_alert"
proof -
  have r: "sheet_reachable [''Red'', ''Blue''] (sheet_effect (add_row [''Red'', ''Blue''] sheet_init ''r1''))"
    by (rule sheet_reachable.mount)
  from handle_import_spec [OF r] show ?thesis
    by (simp add: add_row_def sheet_init_def sheet_new_row_def)
qed

text \<open>
  C19. The Tab key never adds a row: \<open>handleKeyDown\<close> adds one only for an input named
  \<open>team\<close>, but it is attached only to the name, start and end inputs of each row (the team
  field is a \<open>Select\<close> without the handler). The tip "Tab from the last field adds a new row
  automatically" is not what the code does.
\<close>

theorem tab_key_never_adds_row:
  "target \<in> set key_targets \<Longrightarrow> handle_key_down teams st k shift i target uuid = st"
  by (auto simp: handle_key_down_def key_targets_def)

theorem tab_key_never_adds_row_witness:
  "handle_key_down [''Red''] (add_row [''Red''] sheet_init ''r1'') ''Tab'' False 0 ''endStomps'' ''r2''
     = add_row [''Red''] sheet_init ''r1''"
  using tab_key_never_adds_row [of "''endStomps''"] by (simp add: key_targets_def)

end
