(* ===== verification/EditableTeamTable.thy ===== *)
theory EditableTeamTable
  imports Prelude
begin

text \<open>
  \<open>EditableTeamTable\<close> of \<open>src/components/editable-team-table.tsx\<close> (not rendered by any page):
  the players of one team with click-to-edit cells, a form row that adds a player, and totals.
  Its callbacks are the interface \<open>et_event\<close>; \<open>et_emits\<close> is the set of events its cells,
  delete buttons and add button can pass for given \<open>team\<close> and \<open>players\<close> props.
\<close>

record et_player =
  et_id :: string
  et_name :: string
  et_before :: int
  et_after :: int
  et_team :: string
  achievements :: "string list option"

datatype et_event = UpdatePlayer et_player | DeletePlayer string | AddPlayer string int int string

datatype cell_field = CellName | CellBefore | CellAfter

record et_form =
  form_name :: string
  form_before :: int
  form_after :: int

record et_state =
  editing_cell :: "string \<times> cell_field option"
  new_player :: et_form

definition et_init :: et_state where
  "et_init = \<lparr>editing_cell = ([], None), new_player = \<lparr>form_name = [], form_before = 0, form_after = 0\<rparr>\<rparr>"

definition et_totals :: "et_player list \<Rightarrow> int \<times> int \<times> int" where
  "et_totals players =
     (js_sum et_before players, js_sum et_after players, js_sum (\<lambda>p. et_after p - et_before p) players)"

definition handle_cell_click :: "et_state \<Rightarrow> string \<Rightarrow> cell_field \<Rightarrow> et_state" where
  "handle_cell_click st pid field = st\<lparr>editing_cell := (pid, Some field)\<rparr>"

text \<open>The value of a cell input: the text of the name cell, \<open>Number(value) || 0\<close> of a score cell.\<close>

datatype cell_value = NameValue string | NumberValue js_num

definition set_cell :: "et_player \<Rightarrow> cell_field \<Rightarrow> cell_value \<Rightarrow> et_player" where
  "set_cell p field v =
     (case (field, v) of
        (CellName, NameValue s) \<Rightarrow> p\<lparr>et_name := s\<rparr>
      | (CellBefore, NumberValue n) \<Rightarrow> p\<lparr>et_before := js_or_zero n\<rparr>
      | (CellAfter, NumberValue n) \<Rightarrow> p\<lparr>et_after := js_or_zero n\<rparr>
      | _ \<Rightarrow> p)"

definition handle_cell_change ::
  "et_player list \<Rightarrow> string \<Rightarrow> cell_field \<Rightarrow> cell_value \<Rightarrow> et_event option" where
  "handle_cell_change players pid field v =
     (case find (\<lambda>p. et_id p = pid) players of
        None \<Rightarrow> None
      | Some p \<Rightarrow> Some (UpdatePlayer (set_cell p field v)))"

definition handle_cell_blur :: "et_state \<Rightarrow> et_state" where
  "handle_cell_blur st = st\<lparr>editing_cell := ([], None)\<rparr>"

definition et_handle_key_down :: "et_state \<Rightarrow> string \<Rightarrow> et_state" where
  "et_handle_key_down st key = (if key = ''Enter'' then handle_cell_blur st else st)"

definition handle_add_player :: "string \<Rightarrow> et_state \<Rightarrow> et_state \<times> et_event option" where
  "handle_add_player team st =
     (if form_name (new_player st) = [] then (st, None)
      else (st\<lparr>new_player := \<lparr>form_name = [], form_before = 0, form_after = 0\<rparr>\<rparr>,
            Some (AddPlayer (form_name (new_player st)) (form_before (new_player st))
                    (form_after (new_player st)) team)))"

definition set_form_name :: "et_state \<Rightarrow> string \<Rightarrow> et_state" where
  "set_form_name st v = st\<lparr>new_player := (new_player st)\<lparr>form_name := v\<rparr>\<rparr>"

definition set_form_before :: "et_state \<Rightarrow> js_num \<Rightarrow> et_state" where
  "set_form_before st v = st\<lparr>new_player := (new_player st)\<lparr>form_before := js_or_zero v\<rparr>\<rparr>"

definition set_form_after :: "et_state \<Rightarrow> js_num \<Rightarrow> et_state" where
  "set_form_after st v = st\<lparr>new_player := (new_player st)\<lparr>form_after := js_or_zero v\<rparr>\<rparr>"

text \<open>
  The events of the rendered table: a change in an edited cell of a listed player (the name
  cell passes the text, a score cell the number), the delete button of a listed player, and
  the add button with the form in any state its inputs can reach.
\<close>

inductive et_emits :: "string \<Rightarrow> et_player list \<Rightarrow> et_event \<Rightarrow> bool" for team players where
  name_cell: "p \<in> set players \<Longrightarrow> handle_cell_change players (et_id p) CellName (NameValue s) = Some e \<Longrightarrow>
    et_emits team players e"
| before_cell: "p \<in> set players \<Longrightarrow> handle_cell_change players (et_id p) CellBefore (NumberValue n) = Some e \<Longrightarrow>
    et_emits team players e"
| after_cell: "p \<in> set players \<Longrightarrow> handle_cell_change players (et_id p) CellAfter (NumberValue n) = Some e \<Longrightarrow>
    et_emits team players e"
| delete: "p \<in> set players \<Longrightarrow> et_emits team players (DeletePlayer (et_id p))"
| add: "handle_add_player team (set_form_after (set_form_before (set_form_name st v) b) a) = (st', Some e) \<Longrightarrow>
    et_emits team players e"

text \<open>What an event of the table may be: an update of a listed player changing one edited field
  (id, team and achievements kept), the deletion of a listed player's id, or a named player of
  the table's team.\<close>

definition et_event_ok :: "string \<Rightarrow> et_player list \<Rightarrow> et_event \<Rightarrow> bool" where
  "et_event_ok team players e =
     (case e of
        UpdatePlayer q \<Rightarrow>
          list_ex (\<lambda>p. et_id p = et_id q \<and>
                       (q = p\<lparr>et_name := et_name q\<rparr> \<or> q = p\<lparr>et_before := et_before q\<rparr>
                        \<or> q = p\<lparr>et_after := et_after q\<rparr>)) players
      | DeletePlayer i \<Rightarrow> list_ex (\<lambda>p. et_id p = i) players
      | AddPlayer n b a t \<Rightarrow> n \<noteq> [] \<and> t = team)"


section \<open>The table's events\<close>

lemma set_cell_cases:
  "set_cell p field v = p\<lparr>et_name := et_name (set_cell p field v)\<rparr>
   \<or> set_cell p field v = p\<lparr>et_before := et_before (set_cell p field v)\<rparr>
   \<or> set_cell p field v = p\<lparr>et_after := et_after (set_cell p field v)\<rparr>"
  by (cases field; cases v) (simp_all add: set_cell_def)

lemma set_cell_id [simp]: "et_id (set_cell p field v) = et_id p"
  by (cases field; cases v) (simp_all add: set_cell_def)

lemma handle_cell_change_ok:
  assumes "handle_cell_change players pid field v = Some e"
  shows "et_event_ok team players e"
proof -
  obtain p where f: "find (\<lambda>p. et_id p = pid) players = Some p"
    and e: "e = UpdatePlayer (set_cell p field v)"
    using assms by (auto simp: handle_cell_change_def split: option.splits)
  from find_Some_in [OF f] have "p \<in> set players" by simp
  then show ?thesis
    using e set_cell_cases [of p field v] by (auto simp: et_event_ok_def list_ex_iff)
qed

text \<open>
  The table only emits well-formed events: updates of a listed player that change one
  of the edited fields and keep its id, team and achievements, deletions of a listed player,
  and additions of a named player to the table's own team.
\<close>

lemma et_emits_sound: "et_emits team players e \<Longrightarrow> et_event_ok team players e"
proof (induction rule: et_emits.induct)
  case (delete p)
  then show ?case by (auto simp: et_event_ok_def list_ex_iff)
next
  case (add st v b a st' e)
  then show ?case
    by (auto simp: et_event_ok_def handle_add_player_def set_form_name_def set_form_before_def
        set_form_after_def split: if_splits)
qed (simp_all add: handle_cell_change_ok)

text \<open>
  Conversely, when the listed players have distinct ids, every well-formed event can be
  produced by the table: the events of \<open>et_emits\<close> are exactly those of \<open>et_event_ok\<close>.
\<close>

lemma et_emits_complete:
  assumes "distinct (map et_id players)" and "et_event_ok team players e"
  shows "et_emits team players e"
proof (cases e)
  case (UpdatePlayer q)
  with assms(2) obtain p where p: "p \<in> set players" and pid: "et_id p = et_id q"
    and one: "q = p\<lparr>et_name := et_name q\<rparr> \<or> q = p\<lparr>et_before := et_before q\<rparr> \<or> q = p\<lparr>et_after := et_after q\<rparr>"
    by (auto simp: et_event_ok_def list_ex_iff)
  have f: "find (\<lambda>x. et_id x = et_id p) players = Some p"
    by (rule find_distinct_key [OF assms(1) p])
  from one show ?thesis
  proof (elim disjE)
    assume q: "q = p\<lparr>et_name := et_name q\<rparr>"
    have "handle_cell_change players (et_id p) CellName (NameValue (et_name q)) = Some e"
      using f UpdatePlayer q by (simp add: handle_cell_change_def set_cell_def)
    with p show ?thesis by (rule et_emits.name_cell)
  next
    assume q: "q = p\<lparr>et_before := et_before q\<rparr>"
    have "handle_cell_change players (et_id p) CellBefore (NumberValue (Some (et_before q))) = Some e"
      using f UpdatePlayer q by (simp add: handle_cell_change_def set_cell_def)
    with p show ?thesis by (rule et_emits.before_cell)
  next
    assume q: "q = p\<lparr>et_after := et_after q\<rparr>"
    have "handle_cell_change players (et_id p) CellAfter (NumberValue (Some (et_after q))) = Some e"
      using f UpdatePlayer q by (simp add: handle_cell_change_def set_cell_def)
    with p show ?thesis by (rule et_emits.after_cell)
  qed
next
  case (DeletePlayer i)
  with assms(2) obtain p where "p \<in> set players" and "et_id p = i"
    by (auto simp: et_event_ok_def list_ex_iff)
  with DeletePlayer show ?thesis
    using et_emits.delete by blast
next
  case (AddPlayer n b a t)
  with assms(2) have "n \<noteq> []" and "t = team"
    by (simp_all add: et_event_ok_def)
  then have "handle_add_player team (set_form_after (set_form_before (set_form_name et_init n) (Some b)) (Some a))
               = (et_init, Some e)"
    using AddPlayer by (simp add: handle_add_player_def set_form_name_def set_form_before_def
        set_form_after_def et_init_def)
  then show ?thesis
    by (rule et_emits.add)
qed

text \<open>
  C20. The table's events are exactly the well-formed ones: every event it emits is an update
  of a listed player changing the edited field, a deletion of a listed player, or an addition
  of a named player to its own team; and when the players have distinct ids, every such event
  can be emitted.
\<close>

theorem et_emits_exact:
  "(et_emits team players e \<longrightarrow> et_event_ok team players e)
   \<and> (distinct (map et_id players) \<longrightarrow> (et_emits team players e \<longleftrightarrow> et_event_ok team players e))"
  using et_emits_sound et_emits_complete by blast

theorem et_emits_exact_witness:
  "et_emits ''Red'' [] (AddPlayer ''bob'' 3 7 ''Red'') \<and> et_event_ok ''Red'' [] (AddPlayer ''bob'' 3 7 ''Red'')"
proof -
  have ok: "et_event_ok ''Red'' [] (AddPlayer ''bob'' 3 7 ''Red'')"
    by (simp add: et_event_ok_def)
  have "distinct (map et_id ([] :: et_player list))" by simp
  with et_emits_exact [of "''Red''" "[]" "AddPlayer ''bob'' 3 7 ''Red''"] ok show ?thesis by simp
qed

end
