(* ===== verification/EditableChart.thy ===== *)
theory EditableChart
  imports StompChart
begin

text \<open>
  \<open>EditableChart\<close> of \<open>src/components/editable-chart.tsx\<close>: the predecessor of the
  stomp chart, without penalties. Its rows are the same \<^typ>\<open>chart_player\<close> records in the
  same team-keyed object; it starts with five rows per team, offers the presets 10v10, 5v5,
  3v3, 2v2 and Custom (one row), totals each team and all teams without penalties, and saves
  the named rows alone. The component is not rendered by any page of \<open>src/\<close>.
\<close>

record ec_total =
  ec_before :: int
  ec_after :: int
  ec_gained :: int

definition ec_preset_configs :: "(string \<times> nat) list" where
  "ec_preset_configs = [(''10v10'', 10), (''5v5'', 5), (''3v3'', 3), (''2v2'', 2), (''Custom'', 1)]"

definition ec_set_player_count :: "string list \<Rightarrow> (string \<Rightarrow> nat \<Rightarrow> string) \<Rightarrow> nat \<Rightarrow> chart_state" where
  "ec_set_player_count teams ids player_count =
     fold (\<lambda>team acc. acc(team \<mapsto> map (\<lambda>index. chart_new_row (ids team index) team index) [0..<player_count]))
       teams Map.empty"

text \<open>The state's initialiser: five rows per team.\<close>

definition ec_init :: "string list \<Rightarrow> (string \<Rightarrow> nat \<Rightarrow> string) \<Rightarrow> chart_state" where
  "ec_init teams ids =
     fold (\<lambda>team acc. acc(team \<mapsto> map (\<lambda>index. chart_new_row (ids team index) team index) [0..<5]))
       teams Map.empty"

text \<open>\<open>calculateTeamTotals\<close>: \<open>teamPlayers[team] || []\<close> summed three ways.\<close>

definition ec_team_totals :: "chart_state \<Rightarrow> string \<Rightarrow> ec_total" where
  "ec_team_totals tp team =
     (let players = (case tp team of None \<Rightarrow> [] | Some ps \<Rightarrow> ps)
      in \<lparr>ec_before = js_sum score_before players,
          ec_after = js_sum score_after players,
          ec_gained = js_sum (\<lambda>p. score_after p - score_before p) players\<rparr>)"

text \<open>\<open>overallTotals\<close>: \<open>teams.forEach\<close> adding each team's totals into a zero record.\<close>

definition ec_overall_totals :: "string list \<Rightarrow> chart_state \<Rightarrow> ec_total" where
  "ec_overall_totals teams tp =
     foldl (\<lambda>overall team. let t = ec_team_totals tp team in
              \<lparr>ec_before = ec_before overall + ec_before t, ec_after = ec_after overall + ec_after t,
               ec_gained = ec_gained overall + ec_gained t\<rparr>)
       \<lparr>ec_before = 0, ec_after = 0, ec_gained = 0\<rparr> teams"

text \<open>The row handlers; \<open>prev[team]\<close> of a team without rows raises a \<open>TypeError\<close>.\<close>

definition ec_handle_add_row :: "chart_state \<Rightarrow> string \<Rightarrow> string \<Rightarrow> chart_state js_result" where
  "ec_handle_add_row tp team uuid =
     (case tp team of
        None \<Rightarrow> Inl JsTypeError
      | Some ps \<Rightarrow> Inr (tp(team \<mapsto> ps @ [\<lparr>cp_id = uuid, cp_name = ''Player '' @ js_nat_string (length ps + 1),
                                          score_before = 0, score_after = 0, cp_team = team\<rparr>])))"

definition ec_handle_delete_row :: "chart_state \<Rightarrow> string \<Rightarrow> string \<Rightarrow> chart_state js_result" where
  "ec_handle_delete_row tp team pid =
     (case tp team of
        None \<Rightarrow> Inl JsTypeError
      | Some ps \<Rightarrow> Inr (tp(team \<mapsto> filter (\<lambda>p. cp_id p \<noteq> pid) ps)))"

definition ec_handle_input_change ::
  "chart_state \<Rightarrow> string \<Rightarrow> string \<Rightarrow> chart_edit \<Rightarrow> chart_state js_result" where
  "ec_handle_input_change tp team pid e =
     (case tp team of
        None \<Rightarrow> Inl JsTypeError
      | Some ps \<Rightarrow> Inr (tp(team \<mapsto> map (\<lambda>p. if cp_id p = pid then
             (case e of
                EditName v \<Rightarrow> p\<lparr>cp_name := v\<rparr>
              | EditScoreBefore v \<Rightarrow> p\<lparr>score_before := js_or_zero v\<rparr>
              | EditScoreAfter v \<Rightarrow> p\<lparr>score_after := js_or_zero v\<rparr>)
           else p) ps)))"

text \<open>
  \<open>handleSaveAllPlayers\<close>: the named rows of every team in team order (\<open>Inl\<close> the
  \<open>TypeError\<close> of a team without rows), \<open>Inr (Inl msg)\<close> the alert when there are none,
  \<open>Inr (Inr players)\<close> the call of \<open>onSaveAllPlayers\<close>.
\<close>

fun ec_collect :: "chart_state \<Rightarrow> string list \<Rightarrow> match_player list js_result" where
  "ec_collect tp [] = Inr []"
| "ec_collect tp (team # rest) =
     (case tp team of
        None \<Rightarrow> Inl JsTypeError
      | Some ps \<Rightarrow>
          (case ec_collect tp rest of
             Inl e \<Rightarrow> Inl e
           | Inr others \<Rightarrow>
               Inr (map (\<lambda>p. \<lparr>mp_name = cp_name p, mp_before = score_before p,
                              mp_after = score_after p, mp_team = cp_team p\<rparr>)
                      (filter (\<lambda>p. js_trim (cp_name p) \<noteq> []) ps) @ others)))"

definition ec_save :: "string list \<Rightarrow> chart_state \<Rightarrow> (string + match_player list) js_result" where
  "ec_save teams tp =
     (case ec_collect tp teams of
        Inl e \<Rightarrow> Inl e
      | Inr players \<Rightarrow>
          if players = [] then Inr (Inl ''No players to save. Please make sure players have names.'')
          else Inr (Inr players))"


text \<open>
  The rendered chart: for each team of the prop its rows (name, start, end, gained, and the
  delete button's \<open>disabled\<close> while the team has at most one row) and its totals row,
  then the overall totals. \<open>teamPlayers[team].map\<close> raises a \<open>TypeError\<close> for a team
  without rows.
\<close>

record ec_row_view =
  rv_name :: string
  rv_before :: int
  rv_after :: int
  rv_gained :: int
  rv_delete_disabled :: bool

fun ec_render_teams ::
  "chart_state \<Rightarrow> string list \<Rightarrow> (string \<times> ec_row_view list \<times> ec_total) list js_result" where
  "ec_render_teams tp [] = Inr []"
| "ec_render_teams tp (team # rest) =
     (case tp team of
        None \<Rightarrow> Inl JsTypeError
      | Some ps \<Rightarrow>
          (case ec_render_teams tp rest of
             Inl e \<Rightarrow> Inl e
           | Inr sections \<Rightarrow>
               Inr ((team,
                     map (\<lambda>p. \<lparr>rv_name = cp_name p, rv_before = score_before p, rv_after = score_after p,
                               rv_gained = score_after p - score_before p,
                               rv_delete_disabled = (length ps \<le> 1)\<rparr>) ps,
                     ec_team_totals tp team) # sections)))"

definition ec_render ::
  "string list \<Rightarrow> chart_state \<Rightarrow> ((string \<times> ec_row_view list \<times> ec_total) list \<times> ec_total) js_result" where
  "ec_render teams tp =
     (case ec_render_teams tp teams of
        Inl e \<Rightarrow> Inl e
      | Inr sections \<Rightarrow> Inr (sections, ec_overall_totals teams tp))"

text \<open>The stomp chart's team total seen without its penalty columns.\<close>

definition ec_of_total :: "team_total \<Rightarrow> ec_total" where
  "ec_of_total t = \<lparr>ec_before = tt_before t, ec_after = tt_after t, ec_gained = tt_gained t\<rparr>"

text \<open>
  The states the editable chart reaches: the five-row initialiser, a preset, and its buttons
  and inputs on the teams of the prop. Row ids come from \<open>crypto.randomUUID()\<close> and are
  fresh; the delete button is disabled while the team has at most one row; an input edits a
  row it is rendered for.
\<close>

inductive ec_reachable :: "string list \<Rightarrow> chart_state \<Rightarrow> bool" for teams where
  init: "(\<And>t. inj (ids t)) \<Longrightarrow> ec_reachable teams (ec_init teams ids)"
| preset: "(label, n) \<in> set ec_preset_configs \<Longrightarrow> (\<And>t. inj (ids t))
           \<Longrightarrow> ec_reachable teams (ec_set_player_count teams ids n)"
| add: "ec_reachable teams tp \<Longrightarrow> t \<in> set teams \<Longrightarrow> uuid \<notin> cp_id ` set (team_rows tp t)
        \<Longrightarrow> ec_handle_add_row tp t uuid = Inr tp' \<Longrightarrow> ec_reachable teams tp'"
| delete: "ec_reachable teams tp \<Longrightarrow> t \<in> set teams \<Longrightarrow> \<not> length (team_rows tp t) \<le> 1
           \<Longrightarrow> p \<in> set (team_rows tp t) \<Longrightarrow> ec_handle_delete_row tp t (cp_id p) = Inr tp'
           \<Longrightarrow> ec_reachable teams tp'"
| input: "ec_reachable teams tp \<Longrightarrow> t \<in> set teams \<Longrightarrow> p \<in> set (team_rows tp t)
          \<Longrightarrow> ec_handle_input_change tp t (cp_id p) e = Inr tp' \<Longrightarrow> ec_reachable teams tp'"

section \<open>The editable chart is the stomp chart without penalties\<close>

lemma ec_set_player_count_eq: "ec_set_player_count teams ids n = set_player_count teams ids n"
  by (simp add: ec_set_player_count_def set_player_count_def chart_rows_def)

lemma ec_init_eq: "ec_init teams ids = set_player_count teams ids 5"
  by (simp add: ec_init_def set_player_count_def chart_rows_def)

lemma ec_handle_add_row_eq: "ec_handle_add_row tp team uuid = handle_add_row tp team uuid"
  by (simp add: ec_handle_add_row_def handle_add_row_def chart_new_row_def player_label_def
      split: option.split)

lemma ec_handle_delete_row_eq: "ec_handle_delete_row tp team pid = handle_delete_row tp team pid"
  by (simp add: ec_handle_delete_row_def handle_delete_row_def)

lemma ec_handle_input_change_eq: "ec_handle_input_change tp team pid e = handle_input_change tp team pid e"
  unfolding ec_handle_input_change_def handle_input_change_def apply_chart_edit_def ..

lemma ec_collect_eq: "ec_collect tp ts = collect_named tp ts"
  by (induction ts) (simp_all add: to_match_player_def split: option.splits sum.splits)

lemma ec_team_totals_eq: "ec_team_totals tp team = ec_of_total (calculate_team_totals tp [] team)"
  by (simp add: ec_team_totals_def calculate_team_totals_def ec_of_total_def team_rows_def Let_def)

lemma ec_overall_foldl:
  "foldl (\<lambda>overall team. let t = ec_team_totals tp team in
            \<lparr>ec_before = ec_before overall + ec_before t, ec_after = ec_after overall + ec_after t,
             ec_gained = ec_gained overall + ec_gained t\<rparr>) (ec_of_total a) ts
   = ec_of_total (foldl (\<lambda>acc team. add_total acc (calculate_team_totals tp [] team)) a ts)"
proof (induction ts arbitrary: a)
  case (Cons t ts)
  have "(let x = ec_team_totals tp t in
           \<lparr>ec_before = ec_before (ec_of_total a) + ec_before x, ec_after = ec_after (ec_of_total a) + ec_after x,
            ec_gained = ec_gained (ec_of_total a) + ec_gained x\<rparr>)
        = ec_of_total (add_total a (calculate_team_totals tp [] t))"
    by (simp add: ec_team_totals_eq ec_of_total_def add_total_def Let_def)
  then show ?case using Cons.IH by simp
qed simp

lemma ec_overall_totals_eq: "ec_overall_totals teams tp = ec_of_total (overall_totals teams tp [])"
proof -
  have "\<lparr>ec_before = 0, ec_after = 0, ec_gained = 0\<rparr> = ec_of_total zero_total"
    by (simp add: ec_of_total_def zero_total_def)
  then show ?thesis
    unfolding ec_overall_totals_def overall_totals_def by (simp only: ec_overall_foldl)
qed

lemma ec_save_eq: "ec_save teams tp = map_sum id (map_sum id fst) (chart_save teams tp [])"
  by (simp add: ec_save_def chart_save_def ec_collect_eq no_players_alert_def split: sum.splits)

lemmas ec_refines_stomp_chart =
  ec_init_eq ec_set_player_count_eq ec_handle_add_row_eq ec_handle_delete_row_eq
  ec_handle_input_change_eq ec_team_totals_eq ec_overall_totals_eq ec_save_eq



section \<open>The rendered chart\<close>

lemma ec_render_teams_ok:
  "list_all (\<lambda>t. tp t \<noteq> None) ts \<Longrightarrow>
     \<exists>sections. ec_render_teams tp ts = Inr sections \<and> map fst sections = ts
       \<and> list_all (\<lambda>(t, rows, tot). ec_gained tot = sum_list (map rv_gained rows)
                   \<and> ec_before tot = sum_list (map rv_before rows)
                   \<and> ec_after tot = sum_list (map rv_after rows)) sections"
proof (induction ts)
  case (Cons t ts)
  then obtain ps where ps: "tp t = Some ps" by auto
  from Cons obtain sections where s: "ec_render_teams tp ts = Inr sections" "map fst sections = ts"
    "list_all (\<lambda>(t, rows, tot). ec_gained tot = sum_list (map rv_gained rows)
                   \<and> ec_before tot = sum_list (map rv_before rows)
                   \<and> ec_after tot = sum_list (map rv_after rows)) sections"
    by auto
  show ?case
    using ps s by (simp add: ec_team_totals_def comp_def)
qed simp

text \<open>
  On a well-formed state (a row list for every team, which every handler keeps) the chart
  renders; each team's totals row is the sum of its rows' columns.
\<close>

lemma ec_render_consistent:
  assumes "chart_wf teams tp"
  shows "\<exists>sections. ec_render teams tp = Inr (sections, ec_overall_totals teams tp)
           \<and> map fst sections = teams
           \<and> list_all (\<lambda>(t, rows, tot). ec_gained tot = sum_list (map rv_gained rows)
                   \<and> ec_before tot = sum_list (map rv_before rows)
                   \<and> ec_after tot = sum_list (map rv_after rows)) sections"
proof -
  have "list_all (\<lambda>t. tp t \<noteq> None) teams"
    using assms by (auto simp: chart_wf_def list_all_iff)
  from ec_render_teams_ok [OF this] show ?thesis by (auto simp: ec_render_def)
qed

section \<open>Reachable states\<close>

lemma ec_preset_counts: "snd ` set ec_preset_configs = snd ` set preset_configs"
  by (simp add: ec_preset_configs_def preset_configs_def insert_commute)

lemma ec_preset_in_stomp_presets:
  assumes "(label, n) \<in> set ec_preset_configs"
  shows "\<exists>label'. (label', n) \<in> set preset_configs"
proof -
  have "n \<in> snd ` set ec_preset_configs"
    using assms by (rule rev_image_eqI) simp
  then obtain p where "p \<in> set preset_configs" and "n = snd p"
    unfolding ec_preset_counts by blast
  then show ?thesis by (intro exI [of _ "fst p"]) simp
qed

text \<open>Every state the editable chart reaches is one the stomp chart reaches.\<close>

lemma ec_reachable_chart: "ec_reachable teams tp \<Longrightarrow> chart_reachable teams tp"
proof (induction rule: ec_reachable.induct)
  case (init ids)
  have "(''5v5'', 5) \<in> set ec_preset_configs"
    by (simp add: ec_preset_configs_def)
  then obtain l where "(l, 5) \<in> set preset_configs"
    using ec_preset_in_stomp_presets by blast
  from chart_reachable.preset [OF this init] show ?case by (simp add: ec_init_eq)
next
  case (preset label n ids)
  then obtain l where "(l, n) \<in> set preset_configs"
    using ec_preset_in_stomp_presets by blast
  from chart_reachable.preset [OF this preset(2)] show ?case by (simp add: ec_set_player_count_eq)
next
  case (add tp t uuid tp')
  have "handle_add_row tp t uuid = Inr tp'"
    using add.hyps(4) by (simp add: ec_handle_add_row_eq)
  from chart_reachable.add [OF add.IH add.hyps(2,3) this] show ?case .
next
  case (delete tp t p tp')
  have en: "chart_delete_enabled tp t"
    using delete.hyps(3) by (simp add: chart_delete_enabled_def)
  have "handle_delete_row tp t (cp_id p) = Inr tp'"
    using delete.hyps(5) by (simp add: ec_handle_delete_row_eq)
  from chart_reachable.delete [OF delete.IH delete.hyps(2) en delete.hyps(4) this] show ?case .
next
  case (input tp t p e tp')
  have "handle_input_change tp t (cp_id p) e = Inr tp'"
    using input.hyps(4) by (simp add: ec_handle_input_change_eq)
  from chart_reachable.input [OF input.IH input.hyps(2,3) this] show ?case .
qed

lemma ec_overall_sums:
  "foldl (\<lambda>overall team. let t = ec_team_totals tp team in
            \<lparr>ec_before = ec_before overall + ec_before t, ec_after = ec_after overall + ec_after t,
             ec_gained = ec_gained overall + ec_gained t\<rparr>) z ts
   = \<lparr>ec_before = ec_before z + sum_list (map (\<lambda>t. ec_before (ec_team_totals tp t)) ts),
      ec_after = ec_after z + sum_list (map (\<lambda>t. ec_after (ec_team_totals tp t)) ts),
      ec_gained = ec_gained z + sum_list (map (\<lambda>t. ec_gained (ec_team_totals tp t)) ts)\<rparr>"
  by (induction ts arbitrary: z) (simp_all add: Let_def algebra_simps)

lemma ec_render_teams_totals:
  "ec_render_teams tp ts = Inr sections \<Longrightarrow> map (\<lambda>(t, rows, tot). tot) sections = map (ec_team_totals tp) ts"
  by (induction ts arbitrary: sections) (auto split: option.splits sum.splits)

section \<open>Properties\<close>

text \<open>
  C30. In every state the editable chart reaches, each team of the prop keeps at least one row
  (the delete button is disabled on the last one), no row handler on a team of the prop and no
  save raises a \<open>TypeError\<close>, and the chart renders: one section per team in prop order,
  each team's totals row the column sums of its rows, and the overall totals row the sums of
  the team totals rows.
\<close>

theorem ec_reachable_consistent:
  assumes reach: "ec_reachable teams tp"
  shows "(\<forall>t \<in> set teams. team_rows tp t \<noteq> [] \<and> \<not> isl (ec_handle_add_row tp t uuid)
              \<and> \<not> isl (ec_handle_delete_row tp t pid) \<and> \<not> isl (ec_handle_input_change tp t pid e))
         \<and> \<not> isl (ec_save teams tp)
         \<and> (\<exists>sections. ec_render teams tp = Inr (sections, ec_overall_totals teams tp)
              \<and> map fst sections = teams
              \<and> list_all (\<lambda>(t, rows, tot). ec_gained tot = sum_list (map rv_gained rows)
                   \<and> ec_before tot = sum_list (map rv_before rows)
                   \<and> ec_after tot = sum_list (map rv_after rows)) sections
              \<and> ec_before (ec_overall_totals teams tp) = sum_list (map (\<lambda>(t, rows, tot). ec_before tot) sections)
              \<and> ec_after (ec_overall_totals teams tp) = sum_list (map (\<lambda>(t, rows, tot). ec_after tot) sections)
              \<and> ec_gained (ec_overall_totals teams tp) = sum_list (map (\<lambda>(t, rows, tot). ec_gained tot) sections))"
proof -
  have cr: "chart_wf teams tp \<and> chart_rows_ok teams tp"
    using chart_reachable_rows_ok [OF ec_reachable_chart [OF reach]] .
  then have ok: "list_all (\<lambda>t. tp t \<noteq> None) teams"
    by (auto simp: chart_wf_def list_all_iff)
  have rows: "team_rows tp t \<noteq> [] \<and> \<not> isl (ec_handle_add_row tp t uuid)
              \<and> \<not> isl (ec_handle_delete_row tp t pid) \<and> \<not> isl (ec_handle_input_change tp t pid e)"
    if "t \<in> set teams" for t
  proof -
    have "tp t \<noteq> None" using ok that by (simp add: list_all_iff)
    moreover have "team_rows tp t \<noteq> []" using cr that by (simp add: chart_rows_ok_def)
    ultimately show ?thesis
      by (auto simp: ec_handle_add_row_def ec_handle_delete_row_def ec_handle_input_change_def)
  qed
  have save: "\<not> isl (ec_save teams tp)"
    using collect_named_ok [OF ok] by (simp add: ec_save_def ec_collect_eq)
  obtain sections where s: "ec_render_teams tp teams = Inr sections" "map fst sections = teams"
    "list_all (\<lambda>(t, rows, tot). ec_gained tot = sum_list (map rv_gained rows)
                   \<and> ec_before tot = sum_list (map rv_before rows)
                   \<and> ec_after tot = sum_list (map rv_after rows)) sections"
    using ec_render_teams_ok [OF ok] by blast
  have tot: "map (\<lambda>(t, rows, tot). tot) sections = map (ec_team_totals tp) teams"
    by (rule ec_render_teams_totals [OF s(1)])
  have sums: "map (\<lambda>(t, rows, tot). f tot) sections = map (\<lambda>t. f (ec_team_totals tp t)) teams"
    for f :: "ec_total \<Rightarrow> int"
  proof -
    have "map (\<lambda>(t, rows, tot). f tot) sections = map f (map (\<lambda>(t, rows, tot). tot) sections)"
      by (simp add: case_prod_beta)
    then show ?thesis by (simp add: tot)
  qed
  have ov: "ec_before (ec_overall_totals teams tp) = sum_list (map (\<lambda>(t, rows, tot). ec_before tot) sections)
            \<and> ec_after (ec_overall_totals teams tp) = sum_list (map (\<lambda>(t, rows, tot). ec_after tot) sections)
            \<and> ec_gained (ec_overall_totals teams tp) = sum_list (map (\<lambda>(t, rows, tot). ec_gained tot) sections)"
    unfolding sums by (simp add: ec_overall_totals_def ec_overall_sums)
  have r: "ec_render teams tp = Inr (sections, ec_overall_totals teams tp)"
    using s(1) by (simp add: ec_render_def)
  have ex: "\<exists>sections. ec_render teams tp = Inr (sections, ec_overall_totals teams tp)
              \<and> map fst sections = teams
              \<and> list_all (\<lambda>(t, rows, tot). ec_gained tot = sum_list (map rv_gained rows)
                   \<and> ec_before tot = sum_list (map rv_before rows)
                   \<and> ec_after tot = sum_list (map rv_after rows)) sections
              \<and> ec_before (ec_overall_totals teams tp) = sum_list (map (\<lambda>(t, rows, tot). ec_before tot) sections)
              \<and> ec_after (ec_overall_totals teams tp) = sum_list (map (\<lambda>(t, rows, tot). ec_after tot) sections)
              \<and> ec_gained (ec_overall_totals teams tp) = sum_list (map (\<lambda>(t, rows, tot). ec_gained tot) sections)"
    using r s(2,3) ov by blast
  have all: "\<forall>t \<in> set teams. team_rows tp t \<noteq> [] \<and> \<not> isl (ec_handle_add_row tp t uuid)
              \<and> \<not> isl (ec_handle_delete_row tp t pid) \<and> \<not> isl (ec_handle_input_change tp t pid e)"
    using rows by blast
  show ?thesis
    by (rule conjI [OF all conjI [OF save ex]])
qed

theorem ec_reachable_consistent_witness:
  "team_rows (ec_init [''A'', ''B''] (\<lambda>t i. t @ replicate i CHR ''x'')) ''A'' \<noteq> []
   \<and> \<not> isl (ec_save [''A'', ''B''] (ec_init [''A'', ''B''] (\<lambda>t i. t @ replicate i CHR ''x'')))"
proof -
  have inj: "inj (\<lambda>i. t @ replicate i CHR ''x'')" for t :: string
    by (rule injI) (simp add: replicate_eq_replicate)
  have r: "ec_reachable [''A'', ''B''] (ec_init [''A'', ''B''] (\<lambda>t i. t @ replicate i CHR ''x''))"
    by (rule ec_reachable.init) (rule inj)
  note C = ec_reachable_consistent [OF r, of "''u''" "''p''" "EditName ''n''"]
  from C [THEN conjunct1, rule_format, of "''A''"]
  have "team_rows (ec_init [''A'', ''B''] (\<lambda>t i. t @ replicate i CHR ''x'')) ''A'' \<noteq> []"
    by simp
  moreover have "\<not> isl (ec_save [''A'', ''B''] (ec_init [''A'', ''B''] (\<lambda>t i. t @ replicate i CHR ''x'')))"
    by (rule C [THEN conjunct2, THEN conjunct1])
  ultimately show ?thesis ..
qed

end
