(* ===== verification/PendingPlayers.thy ===== *)
theory PendingPlayers
  imports PenaltiesManager
begin

text \<open>
  \<open>PendingPlayers\<close> of \<open>src/components/pending-players.tsx\<close>: players who have a start
  score but no end score yet. The component holds the form \<open>newPlayer\<close> in \<open>useState\<close>;
  its team is initialised once from the \<open>teams\<close> prop and kept over re-renders, when the
  prop may have changed. The relation \<^term>\<open>pp_state\<close> therefore carries the history of
  \<open>teams\<close> props, newest first. \<open>crypto.randomUUID()\<close> values are arguments.
\<close>

record pending_player =
  pend_id :: string
  pend_name :: string
  score_before :: int
  pend_team :: string

datatype pp_event = PpAdd pending_player | PpDelete string | PpSelect pending_player

definition pp_init :: "string list \<Rightarrow> string \<Rightarrow> pending_player" where
  "pp_init teams uuid = \<lparr>pend_id = uuid, pend_name = [], score_before = 0, pend_team = pm_default_team teams\<rparr>"

text \<open>The name input, \<open>Number.parseInt(v) || 0\<close> of the start-stomps input, the team select.\<close>

definition pp_set_name :: "pending_player \<Rightarrow> string \<Rightarrow> pending_player" where
  "pp_set_name f v = f\<lparr>pend_name := v\<rparr>"

definition pp_set_score :: "pending_player \<Rightarrow> js_num \<Rightarrow> pending_player" where
  "pp_set_score f v = f\<lparr>score_before := js_or_zero v\<rparr>"

definition pp_set_team :: "pending_player \<Rightarrow> string \<Rightarrow> pending_player" where
  "pp_set_team f v = f\<lparr>pend_team := v\<rparr>"

text \<open>
  \<open>handleAddPlayer\<close>: nothing without a name; otherwise \<open>onAddPendingPlayer\<close> with the form
  under the fresh id \<open>id1\<close>, and a new empty form under \<open>id2\<close> that keeps the team.
\<close>

definition pp_handle_add_player ::
  "pending_player \<Rightarrow> string \<Rightarrow> string \<Rightarrow> pending_player \<times> pending_player option" where
  "pp_handle_add_player f id1 id2 =
     (if pend_name f = [] then (f, None)
      else (\<lparr>pend_id = id2, pend_name = [], score_before = 0, pend_team = pend_team f\<rparr>,
            Some (f\<lparr>pend_id := id1\<rparr>)))"

text \<open>
  The forms reachable under a history \<open>h\<close> of \<open>teams\<close> props (the current one first): the
  initial form, the inputs, the select (whose items are the current teams), a click on Add
  Pending, and a re-render with a new \<open>teams\<close> prop, which leaves the state as it is.
\<close>

inductive pp_state :: "string list list \<Rightarrow> pending_player \<Rightarrow> bool" where
  init: "pp_state [teams] (pp_init teams uuid)"
| name: "pp_state h f \<Longrightarrow> pp_state h (pp_set_name f v)"
| score: "pp_state h f \<Longrightarrow> pp_state h (pp_set_score f n)"
| team: "pp_state (teams # h) f \<Longrightarrow> v \<in> set teams \<Longrightarrow> pp_state (teams # h) (pp_set_team f v)"
| added: "pp_state h f \<Longrightarrow> pp_handle_add_player f id1 id2 = (f', r) \<Longrightarrow> pp_state h f'"
| rerender: "pp_state h f \<Longrightarrow> pp_state (teams' # h) f"

text \<open>The callbacks the component calls: add from the form, edit and delete from the table rows.\<close>

inductive pp_emits :: "pending_player list \<Rightarrow> string list list \<Rightarrow> pp_event \<Rightarrow> bool" for pending h where
  add: "pp_state h f \<Longrightarrow> pp_handle_add_player f id1 id2 = (f', Some p) \<Longrightarrow> pp_emits pending h (PpAdd p)"
| delete: "p \<in> set pending \<Longrightarrow> pp_emits pending h (PpDelete (pend_id p))"
| select: "p \<in> set pending \<Longrightarrow> pp_emits pending h (PpSelect p)"

section \<open>Lemmas\<close>

lemma pp_handle_add_player_team:
  "pp_handle_add_player f id1 id2 = (f', r) \<Longrightarrow> pend_team f' = pend_team f"
  by (auto simp: pp_handle_add_player_def split: if_splits)

lemma pp_handle_add_player_event:
  "pp_handle_add_player f id1 id2 = (f', Some p) \<Longrightarrow> p = f\<lparr>pend_id := id1\<rparr> \<and> pend_name f \<noteq> []"
  by (auto simp: pp_handle_add_player_def split: if_splits)

lemma pp_state_hist_ne: "pp_state h f \<Longrightarrow> h \<noteq> []"
  by (induction rule: pp_state.induct) auto

text \<open>The team of a reachable form is \<open>Team 1\<close> or a team of some \<open>teams\<close> prop seen so far.\<close>

lemma pp_state_team_seen:
  "pp_state h f \<Longrightarrow> pend_team f = ''Team 1'' \<or> (\<exists>T \<in> set h. pend_team f \<in> set T)"
proof (induction rule: pp_state.induct)
  case (init teams uuid)
  then show ?case by (cases teams) (auto simp: pp_init_def pm_default_team_def)
qed (auto simp: pp_set_name_def pp_set_score_def pp_set_team_def dest: pp_handle_add_player_team)

text \<open>Without a re-render, the team stays one of the \<open>teams\<close> prop when its first team is named.\<close>

lemma pp_state_team_fixed:
  "pp_state h f \<Longrightarrow> h = [teams] \<Longrightarrow> teams \<noteq> [] \<Longrightarrow> hd teams \<noteq> [] \<Longrightarrow> pend_team f \<in> set teams"
proof (induction rule: pp_state.induct)
  case (init teams uuid)
  then show ?case using pm_default_team_in by (simp add: pp_init_def)
next
  case (rerender h f teams')
  then show ?case using pp_state_hist_ne by blast
qed (auto simp: pp_set_name_def pp_set_score_def pp_set_team_def dest: pp_handle_add_player_team)


section \<open>Properties\<close>

text \<open>
  C28. Every pending player the component hands to \<open>onAddPendingPlayer\<close> has a name; its
  team is \<open>Team 1\<close> or a team of some \<open>teams\<close> prop the component was rendered with; and
  while that prop has not changed, with a named first team, it is one of the teams.
\<close>

theorem pending_add_sound:
  assumes "pp_emits pending h (PpAdd p)"
  shows "pend_name p \<noteq> [] \<and> (pend_team p = ''Team 1'' \<or> (\<exists>T \<in> set h. pend_team p \<in> set T))
         \<and> (h = [teams] \<longrightarrow> teams \<noteq> [] \<longrightarrow> hd teams \<noteq> [] \<longrightarrow> pend_team p \<in> set teams)"
proof -
  from assms obtain f f' id1 id2 where st: "pp_state h f"
    and add: "pp_handle_add_player f id1 id2 = (f', Some p)"
    by (cases rule: pp_emits.cases) auto
  from add have p: "p = f\<lparr>pend_id := id1\<rparr>" and n: "pend_name f \<noteq> []"
    by (auto dest: pp_handle_add_player_event)
  show ?thesis
    using p n pp_state_team_seen [OF st] pp_state_team_fixed [OF st] by simp
qed

theorem pending_add_sound_witness:
  "pp_emits [] [[''A'']]
     (PpAdd \<lparr>pend_id = ''u1'', pend_name = ''x'', score_before = 0, pend_team = ''A''\<rparr>)
   \<and> pend_name \<lparr>pend_id = ''u1'', pend_name = ''x'', score_before = 0, pend_team = ''A''\<rparr> \<noteq> []
   \<and> pend_team \<lparr>pend_id = ''u1'', pend_name = ''x'', score_before = 0, pend_team = ''A''\<rparr> \<in> set [''A'']"
proof -
  have s: "pp_state [[''A'']] (pp_set_name (pp_init [''A''] ''u0'') ''x'')"
    by (rule pp_state.name [OF pp_state.init])
  have a: "pp_handle_add_player (pp_set_name (pp_init [''A''] ''u0'') ''x'') ''u1'' ''u2''
             = (pp_init [''A''] ''u2'',
                Some \<lparr>pend_id = ''u1'', pend_name = ''x'', score_before = 0, pend_team = ''A''\<rparr>)"
    by (simp add: pp_handle_add_player_def pp_set_name_def pp_init_def pm_default_team_def)
  have e: "pp_emits [] [[''A'']]
             (PpAdd \<lparr>pend_id = ''u1'', pend_name = ''x'', score_before = 0, pend_team = ''A''\<rparr>)"
    by (rule pp_emits.add [OF s a])
  show ?thesis
    using e pending_add_sound [OF e, of "[''A'']"] by simp
qed

text \<open>
  The team of the form is not re-validated when the \<open>teams\<close> prop changes: after team
  \<open>A\<close> is removed, Add Pending still emits a player of team \<open>A\<close>.
\<close>

lemma pending_team_stale:
  "pp_emits [] [[''B''], [''A'', ''B'']]
     (PpAdd \<lparr>pend_id = ''u1'', pend_name = ''x'', score_before = 0, pend_team = ''A''\<rparr>)
   \<and> ''A'' \<notin> set [''B'']"
proof -
  have s: "pp_state [[''B''], [''A'', ''B'']] (pp_set_name (pp_init [''A'', ''B''] ''u0'') ''x'')"
    by (rule pp_state.rerender [OF pp_state.name [OF pp_state.init]])
  have a: "pp_handle_add_player (pp_set_name (pp_init [''A'', ''B''] ''u0'') ''x'') ''u1'' ''u2''
             = (pp_init [''A''] ''u2'',
                Some \<lparr>pend_id = ''u1'', pend_name = ''x'', score_before = 0, pend_team = ''A''\<rparr>)"
    by (simp add: pp_handle_add_player_def pp_set_name_def pp_init_def pm_default_team_def)
  have "pp_emits [] [[''B''], [''A'', ''B'']]
          (PpAdd \<lparr>pend_id = ''u1'', pend_name = ''x'', score_before = 0, pend_team = ''A''\<rparr>)"
    by (rule pp_emits.add [OF s a])
  then show ?thesis by simp
qed

end
