(* ===== verification/JsString.thy ===== *)
theory JsString
  imports Prelude "HOL-Library.Sublist"
begin

text \<open>
  The \<open>String.prototype\<close> methods the player components call, on the 8-bit characters of the
  model (Latin-1): \<open>toLowerCase\<close>, \<open>toUpperCase\<close>, \<open>includes\<close>, \<open>split\<close> with a
  one-character separator, and \<open>Array.prototype.join\<close>. Case mapping follows the Unicode
  mappings restricted to Latin-1: A-Z and U+00C0-U+00DE (except U+00D7) lower by 32;
  \<open>toUpperCase\<close> maps U+00DF to \<open>SS\<close>; U+00B5 and U+00FF uppercase to U+039C and U+0178,
  outside the model's character set, and are left unchanged (the two places the model differs
  from the browser).
\<close>

definition lower_char :: "char \<Rightarrow> char" where
  "lower_char c =
     (let n = of_char c :: nat
      in if (65 \<le> n \<and> n \<le> 90) \<or> (192 \<le> n \<and> n \<le> 222 \<and> n \<noteq> 215) then char_of (n + 32) else c)"

definition js_to_lower :: "string \<Rightarrow> string" where
  "js_to_lower s = map lower_char s"

definition upper_char :: "char \<Rightarrow> string" where
  "upper_char c =
     (let n = of_char c :: nat
      in if (97 \<le> n \<and> n \<le> 122) \<or> (224 \<le> n \<and> n \<le> 254 \<and> n \<noteq> 247) then [char_of (n - 32)]
         else if n = 223 then ''SS'' else [c])"

definition js_to_upper :: "string \<Rightarrow> string" where
  "js_to_upper s = concat (map upper_char s)"

text \<open>\<open>s.includes(t)\<close>: \<open>t\<close> occurs in \<open>s\<close> at some position \<open>0 \<le> i \<le> s.length\<close>.\<close>

definition js_includes :: "string \<Rightarrow> string \<Rightarrow> bool" where
  "js_includes s t = list_ex (\<lambda>i. take (length t) (drop i s) = t) [0..<Suc (length s)]"

text \<open>
  \<open>s.split(c)\<close> for a one-character separator: the text up to the next separator, then the
  split of the rest after it; a string without separator is a single piece.
\<close>

function js_split :: "char \<Rightarrow> string \<Rightarrow> string list" where
  "js_split c s =
     (let w = takeWhile (\<lambda>x. x \<noteq> c) s; rest = dropWhile (\<lambda>x. x \<noteq> c) s
      in if rest = [] then [w] else w # js_split c (tl rest))"
  by pat_completeness auto
termination
  by (relation "measure (\<lambda>(c, s). length s)") (auto simp: Let_def length_dropWhile_shorter)

declare js_split.simps [simp del]

definition js_join :: "string \<Rightarrow> string list \<Rightarrow> string" where
  "js_join sep ws = (case ws of [] \<Rightarrow> [] | w # rest \<Rightarrow> w @ concat (map (\<lambda>x. sep @ x) rest))"


section \<open>Substring search\<close>

lemma sublist_take_drop: "sublist t s \<longleftrightarrow> (\<exists>i \<le> length s. take (length t) (drop i s) = t)"
proof
  assume "sublist t s"
  then obtain ps ss where s: "s = ps @ t @ ss"
    by (auto simp: sublist_def)
  then have "take (length t) (drop (length ps) s) = t" and "length ps \<le> length s"
    by simp_all
  then show "\<exists>i \<le> length s. take (length t) (drop i s) = t"
    by blast
next
  assume "\<exists>i \<le> length s. take (length t) (drop i s) = t"
  then obtain i where "take (length t) (drop i s) = t"
    by blast
  then have "s = take i s @ t @ drop (length t) (drop i s)"
    by (metis append_take_drop_id)
  then show "sublist t s"
    by (metis sublist_appendI)
qed

section \<open>Case mapping\<close>

lemma lower_char_idem [simp]: "lower_char (lower_char c) = lower_char c"
proof -
  define n where "n = (of_char c :: nat)"
  have "n < 256" unfolding n_def by (rule nat_of_char_less_256)
  show ?thesis
  proof (cases "(65 \<le> n \<and> n \<le> 90) \<or> (192 \<le> n \<and> n \<le> 222 \<and> n \<noteq> 215)")
    case True
    then have "of_char (char_of (n + 32) :: char) = (n + 32 :: nat)"
      by (auto simp: of_char_of)
    with True show ?thesis
      by (auto simp: lower_char_def Let_def n_def [symmetric])
  next
    case False
    then show ?thesis
      by (auto simp: lower_char_def Let_def n_def [symmetric])
  qed
qed

lemma js_to_lower_Nil [simp]: "js_to_lower [] = []"
  by (simp add: js_to_lower_def)

lemma js_to_lower_idem [simp]: "js_to_lower (js_to_lower s) = js_to_lower s"
  by (simp add: js_to_lower_def comp_def)

section \<open>split and join\<close>

lemma js_split_ne [simp]: "js_split c s \<noteq> []"
  by (subst js_split.simps) (simp add: Let_def)

lemma js_join_Cons: "js_join sep (w # ws) = w @ (if ws = [] then [] else sep @ js_join sep ws)"
  by (cases ws) (simp_all add: js_join_def)

lemma js_split_unfold:
  "js_split c s =
     (if c \<in> set s
      then takeWhile (\<lambda>x. x \<noteq> c) s # js_split c (tl (dropWhile (\<lambda>x. x \<noteq> c) s))
      else [s])"
  by (subst js_split.simps) (auto simp: Let_def dropWhile_eq_Nil_conv takeWhile_eq_all_conv)

lemma dropWhile_neq_hd:
  "c \<in> set s \<Longrightarrow> dropWhile (\<lambda>x. x \<noteq> c) s = c # tl (dropWhile (\<lambda>x. x \<noteq> c) s)"
  by (induction s) auto

lemma js_join_split: "js_join [c] (js_split c s) = s"
proof (induction c s rule: js_split.induct)
  case (1 c s)
  show ?case
  proof (cases "c \<in> set s")
    case True
    then have "js_join [c] (js_split c s)
                 = takeWhile (\<lambda>x. x \<noteq> c) s @ c # tl (dropWhile (\<lambda>x. x \<noteq> c) s)"
      using 1 by (subst js_split_unfold) (simp add: js_join_Cons Let_def dropWhile_eq_Nil_conv)
    also have "\<dots> = s"
      using dropWhile_neq_hd [OF True] by (metis takeWhile_dropWhile_id)
    finally show ?thesis .
  next
    case False
    then show ?thesis
      by (subst js_split_unfold) (simp add: js_join_def)
  qed
qed

lemma js_split_pieces: "w \<in> set (js_split c s) \<Longrightarrow> c \<notin> set w"
proof (induction c s arbitrary: w rule: js_split.induct)
  case (1 c s)
  then show ?case
    by (subst (asm) js_split_unfold)
      (auto simp: Let_def dropWhile_eq_Nil_conv dest: set_takeWhileD split: if_splits)
qed

lemma js_split_join:
  "ws \<noteq> [] \<Longrightarrow> \<forall>w \<in> set ws. c \<notin> set w \<Longrightarrow> js_split c (js_join [c] ws) = ws"
proof (induction ws)
  case (Cons w ws)
  show ?case
  proof (cases "ws = []")
    case True
    then show ?thesis using Cons.prems by (subst js_split_unfold) (simp add: js_join_def)
  next
    case False
    have w: "c \<notin> set w" using Cons.prems by simp
    have "takeWhile (\<lambda>x. x \<noteq> c) (w @ c # js_join [c] ws) = w"
      using w by (induction w) auto
    moreover have "dropWhile (\<lambda>x. x \<noteq> c) (w @ c # js_join [c] ws) = c # js_join [c] ws"
      using w by (induction w) auto
    ultimately show ?thesis
      using False Cons by (subst js_split_unfold) (simp add: js_join_Cons)
  qed
qed simp

end
