(* ===== verification/PlayerDatabase.thy ===== *)
theory PlayerDatabase
  imports JsString
begin

text \<open>
  The player databases: \<open>PlayerDatabaseManager\<close> of
  \<open>src/components/player-database-manager.tsx\<close> (a search box, an add form and delete and
  reset buttons over a \<open>players\<close> prop) and the read-only \<open>PlayerDatabase\<close> of
  \<open>src/components/player-database.tsx\<close> over the \<open>PlayerDatabase\<close> type of
  \<open>src/types/index.ts\<close>. Both search with
  \<open>name.toLowerCase().includes(term.toLowerCase())\<close>. Neither is rendered by a page.
\<close>

record prev_player =
  pp_id :: string
  pp_name :: string
  total_stomps :: int
  matches_played :: int
  win_rate :: int

record pp_form =
  pf_name :: string
  pf_total :: int
  pf_matches :: int
  pf_win :: int

record pdm_state =
  search_term :: string
  pdm_new :: pp_form

datatype pdm_event = PdmAdd pp_form | PdmDelete string | PdmReset

definition empty_pp_form :: pp_form where
  "empty_pp_form = \<lparr>pf_name = [], pf_total = 0, pf_matches = 0, pf_win = 0\<rparr>"

definition pdm_init :: pdm_state where
  "pdm_init = \<lparr>search_term = [], pdm_new = empty_pp_form\<rparr>"

definition matches_search :: "string \<Rightarrow> string \<Rightarrow> bool" where
  "matches_search name term = js_includes (js_to_lower name) (js_to_lower term)"

definition pdm_filtered :: "prev_player list \<Rightarrow> string \<Rightarrow> prev_player list" where
  "pdm_filtered players term = filter (\<lambda>p. matches_search (pp_name p) term) players"

definition pdm_handle_add_player :: "pdm_state \<Rightarrow> pdm_state \<times> pdm_event option" where
  "pdm_handle_add_player st =
     (if pf_name (pdm_new st) = [] then (st, None)
      else (st\<lparr>pdm_new := empty_pp_form\<rparr>, Some (PdmAdd (pdm_new st))))"

definition pdm_set_search :: "pdm_state \<Rightarrow> string \<Rightarrow> pdm_state" where
  "pdm_set_search st v = st\<lparr>search_term := v\<rparr>"

text \<open>The form inputs: the name text, and \<open>Number.parseInt(v) || 0\<close> for the three numbers.\<close>

datatype pp_input = InName string | InTotal js_num | InMatches js_num | InWin js_num

definition pdm_set_input :: "pdm_state \<Rightarrow> pp_input \<Rightarrow> pdm_state" where
  "pdm_set_input st i =
     st\<lparr>pdm_new := (case i of
         InName v \<Rightarrow> (pdm_new st)\<lparr>pf_name := v\<rparr>
       | InTotal v \<Rightarrow> (pdm_new st)\<lparr>pf_total := js_or_zero v\<rparr>
       | InMatches v \<Rightarrow> (pdm_new st)\<lparr>pf_matches := js_or_zero v\<rparr>
       | InWin v \<Rightarrow> (pdm_new st)\<lparr>pf_win := js_or_zero v\<rparr>)\<rparr>"

text \<open>
  The events of the rendered manager: Reset to Defaults, the delete button of a player shown by
  the current search, and Add to Database with the form in any state its inputs reach.
\<close>

inductive pdm_emits :: "prev_player list \<Rightarrow> pdm_state \<Rightarrow> pdm_event \<Rightarrow> bool" for players st where
  reset: "pdm_emits players st PdmReset"
| delete: "p \<in> set (pdm_filtered players (search_term st)) \<Longrightarrow> pdm_emits players st (PdmDelete (pp_id p))"
| add: "pdm_handle_add_player (fold (\<lambda>i s. pdm_set_input s i) is st) = (st', Some e) \<Longrightarrow> pdm_emits players st e"

section \<open>The read-only database\<close>

record player_db =
  pd_id :: string
  pd_username :: string
  pd_total_stomps :: int
  pd_matches_played :: int
  pd_win_rate :: int

definition pd_filtered :: "player_db list \<Rightarrow> string \<Rightarrow> player_db list" where
  "pd_filtered players search = filter (\<lambda>p. matches_search (pd_username p) search) players"

section \<open>Lemmas\<close>

lemma js_includes_sublist: "js_includes s t \<longleftrightarrow> sublist t s"
  by (auto simp del: upt_Suc simp: js_includes_def list_ex_iff sublist_take_drop less_Suc_eq_le)

lemma matches_search_sublist:
  "matches_search name term \<longleftrightarrow> sublist (js_to_lower term) (js_to_lower name)"
  by (simp add: matches_search_def js_includes_sublist)


lemma filter_subseq_weaker:
  "(\<And>x. Q x \<Longrightarrow> P x) \<Longrightarrow> subseq (filter Q xs) (filter P xs)"
proof -
  assume QP: "\<And>x. Q x \<Longrightarrow> P x"
  have "filter Q xs = filter Q (filter P xs)"
    using QP by (auto simp: filter_filter intro: filter_cong)
  then show ?thesis
    by (metis subseq_filter_left)
qed

section \<open>Properties of the search\<close>

lemma pdm_search_narrows:
  "sublist t t' \<Longrightarrow> subseq (pdm_filtered players t') (pdm_filtered players t)"
  unfolding pdm_filtered_def matches_search_sublist
proof (rule filter_subseq_weaker)
  fix p
  assume "sublist t t'" and "sublist (js_to_lower t') (js_to_lower (pp_name p))"
  moreover have "sublist (js_to_lower t) (js_to_lower t')"
    using \<open>sublist t t'\<close> by (simp add: js_to_lower_def map_mono_sublist)
  ultimately show "sublist (js_to_lower t) (js_to_lower (pp_name p))"
    by (meson sublist_order.order_trans)
qed

text \<open>
  C24. The manager's search keeps, in order, the players whose lower-cased name contains the
  lower-cased term as a contiguous substring (\<^const>\<open>sublist\<close> of \<open>HOL-Library.Sublist\<close>);
  the empty term shows every player; the search does not depend on the case of the term; and
  typing more narrows it: when the old term is a substring of the new one, the new result is
  a subsequence of the old one.
\<close>

theorem pdm_search_spec:
  "pdm_filtered players term
     = filter (\<lambda>p. sublist (js_to_lower term) (js_to_lower (pp_name p))) players
   \<and> pdm_filtered players [] = players
   \<and> pdm_filtered players (js_to_lower term) = pdm_filtered players term
   \<and> (sublist t t' \<longrightarrow> subseq (pdm_filtered players t') (pdm_filtered players t))"
  using pdm_search_narrows by (simp add: pdm_filtered_def matches_search_sublist)

theorem pdm_search_spec_witness:
  "sublist ''an'' ''ann'' \<and>
   subseq (pdm_filtered [\<lparr>pp_id = ''1'', pp_name = ''Ann'', total_stomps = 0, matches_played = 0, win_rate = 0\<rparr>] ''ann'')
          (pdm_filtered [\<lparr>pp_id = ''1'', pp_name = ''Ann'', total_stomps = 0, matches_played = 0, win_rate = 0\<rparr>] ''an'')"
proof -
  have s: "sublist ''an'' ''ann''"
    by (rule prefix_imp_sublist) simp
  show ?thesis
    using pdm_search_spec [of "[\<lparr>pp_id = ''1'', pp_name = ''Ann'', total_stomps = 0, matches_played = 0, win_rate = 0\<rparr>]"
        "''an''" "''an''" "''ann''"] s by blast
qed

text \<open>
  C25. The manager only asks its parent to add a player with a name, and only to delete a
  player the current search shows.
\<close>

theorem pdm_emits_sound:
  "pdm_emits players st e \<Longrightarrow>
     (case e of PdmAdd f \<Rightarrow> pf_name f \<noteq> []
      | PdmDelete i \<Rightarrow> list_ex (\<lambda>p. pp_id p = i) (pdm_filtered players (search_term st))
      | PdmReset \<Rightarrow> True)"
  by (induction rule: pdm_emits.induct)
    (auto simp: pdm_handle_add_player_def list_ex_iff split: if_splits)

theorem pdm_emits_sound_witness:
  "list_ex (\<lambda>p. pp_id p = ''1'')
     (pdm_filtered [\<lparr>pp_id = ''1'', pp_name = ''Ann'', total_stomps = 0, matches_played = 0, win_rate = 0\<rparr>] ''an'')"
proof -
  have "pdm_emits [\<lparr>pp_id = ''1'', pp_name = ''Ann'', total_stomps = 0, matches_played = 0, win_rate = 0\<rparr>]
          (pdm_init\<lparr>search_term := ''an''\<rparr>) (PdmDelete ''1'')"
    by (rule pdm_emits.delete [where p = "\<lparr>pp_id = ''1'', pp_name = ''Ann'', total_stomps = 0, matches_played = 0, win_rate = 0\<rparr>",
          simplified])
       (simp add: pdm_filtered_def matches_search_def js_includes_def js_to_lower_def lower_char_def char_of_def bit_0)
  from pdm_emits_sound [OF this] show ?thesis by simp
qed

end
