(* ===== verification/TeamOverview.thy ===== *)
theory TeamOverview
  imports EditableTeamTable PenaltiesManager JsString "HOL-Library.Multiset"
begin

text \<open>
  \<open>TeamOverview\<close> of \<open>src/components/team-overview.tsx\<close> and \<open>PlayerCard\<close> of
  \<open>src/components/player-card.tsx\<close> (neither rendered by a page). The overview sorts a team's
  players by stomps gained with \<open>Array.prototype.sort\<close> and the comparator
  \<open>gain(b) - gain(a)\<close>: a stable descending sort, \<^const>\<open>sort_key\<close> on the negated gain. It
  shows the first three, a bar per player, the team stats and the penalties. The card shows a
  player's numbers and the initials of the name. Players and penalties have the types of
  \<open>EditableTeamTable\<close> and \<open>PenaltiesManager\<close>.
\<close>

record overview_total =
  ov_before :: int
  ov_after :: int
  ov_penalties :: int
  ov_gained :: int

definition player_gain :: "et_player \<Rightarrow> int" where
  "player_gain p = et_after p - et_before p"

definition sorted_players :: "et_player list \<Rightarrow> et_player list" where
  "sorted_players players = sort_key (\<lambda>p. - player_gain p) players"

definition top3_players :: "et_player list \<Rightarrow> et_player list" where
  "top3_players players = take 3 (sorted_players players)"

record chart_datum =
  cd_name :: string
  cd_stomps :: int
  cd_before :: int
  cd_after :: int

definition overview_chart_data :: "et_player list \<Rightarrow> chart_datum list" where
  "overview_chart_data players =
     map (\<lambda>p. \<lparr>cd_name = et_name p, cd_stomps = player_gain p, cd_before = et_before p, cd_after = et_after p\<rparr>)
       (sorted_players players)"

definition comparison_data :: "overview_total \<Rightarrow> (string \<times> int \<times> int) list" where
  "comparison_data tot = [(''Stomps'', ov_gained tot, ov_penalties tot)]"

text \<open>The rank badge of the \<open>index\<close>-th top performer: gold, silver, then bronze.\<close>

datatype badge = Gold | Silver | Bronze

definition rank_badge :: "nat \<Rightarrow> badge" where
  "rank_badge index = (if index = 0 then Gold else if index = 1 then Silver else Bronze)"

text \<open>What the overview renders from its props: the numbered top performers with their gains,
  the three team stats, whether the chart and the comparison are shown, and the penalties.\<close>

record overview_view =
  ov_top :: "(nat \<times> badge \<times> string \<times> int) list"
  ov_stat_gained :: int
  ov_stat_penalties :: int
  ov_stat_final :: int
  ov_shows_chart :: bool
  ov_shows_comparison :: bool
  ov_penalty_rows :: "(string \<times> int) list"

definition team_overview :: "et_player list \<Rightarrow> penalty list \<Rightarrow> overview_total \<Rightarrow> overview_view" where
  "team_overview players pens tot =
     \<lparr>ov_top = map (\<lambda>(i, p). (i + 1, rank_badge i, et_name p, player_gain p))
                 (enumerate 0 (top3_players players)),
      ov_stat_gained = ov_after tot - ov_before tot,
      ov_stat_penalties = ov_penalties tot,
      ov_stat_final = ov_gained tot,
      ov_shows_chart = (overview_chart_data players \<noteq> []),
      ov_shows_comparison = (0 < ov_gained tot \<or> 0 < ov_penalties tot),
      ov_penalty_rows = map (\<lambda>p. (pen_description p, pen_amount p)) pens\<rparr>"

section \<open>Player card\<close>

definition card_improvement :: "int \<Rightarrow> int \<Rightarrow> int" where
  "card_improvement score_before score_after = score_after - score_before"

text \<open>\<open>name.split(" ").map((n) => n[0]).join("").toUpperCase()\<close>: \<open>n[0]\<close> of an empty piece
  is \<open>undefined\<close>, which \<open>join\<close> prints as the empty string.\<close>

definition initials :: "string \<Rightarrow> string" where
  "initials name = js_to_upper (js_join [] (map (take 1) (js_split CHR '' '' name)))"

datatype achievement_icon = TrophyIcon | StarIcon | AwardIcon

definition achievement_icon :: "nat \<Rightarrow> achievement_icon" where
  "achievement_icon i = (if i mod 3 = 0 then TrophyIcon else if i mod 3 = 1 then StarIcon else AwardIcon)"


section \<open>Lemmas\<close>

lemma sorted_players_perm [simp]: "mset (sorted_players players) = mset players"
  by (simp add: sorted_players_def)

lemma sorted_players_desc: "sorted (map (\<lambda>p. - player_gain p) (sorted_players players))"
  by (simp add: sorted_players_def)

lemma sorted_desc_take_drop:
  assumes "sorted (map (\<lambda>p. - g p) xs)" and "p \<in> set (take k xs)" and "q \<in> set (drop k xs)"
  shows "g q \<le> (g p :: int)"
proof -
  have "sorted (map (\<lambda>p. - g p) (take k xs @ drop k xs))"
    using assms(1) by simp
  then have "\<forall>x \<in> set (take k xs). \<forall>y \<in> set (drop k xs). - g x \<le> - g y"
    by (simp only: map_append sorted_append) (auto simp del: append_take_drop_id)
  with assms(2,3) show ?thesis by force
qed

lemma initials_heads: "initials name = js_to_upper (concat (map (take 1) (js_split CHR '' '' name)))"
  by (cases "js_split CHR '' '' name") (simp_all add: initials_def js_join_def comp_def)

section \<open>Properties of the overview and the card\<close>

text \<open>
  C26. The overview's ranking is a stable descending sort by stomps gained: a permutation of the
  team's players, sorted; the top performers are its first \<open>min 3 n\<close> players, and each of
  them gained at least as much as every player ranked below.
\<close>

theorem top3_spec:
  "mset (sorted_players players) = mset players
   \<and> sorted (map (\<lambda>p. - player_gain p) (sorted_players players))
   \<and> length (top3_players players) = min 3 (length players)
   \<and> (\<forall>p \<in> set (top3_players players). \<forall>q \<in> set (drop 3 (sorted_players players)).
        player_gain q \<le> player_gain p)"
proof -
  have "length (sorted_players players) = length players"
    by (metis mset_eq_length sorted_players_perm)
  then show ?thesis
    using sorted_desc_take_drop [OF sorted_players_desc] sorted_players_desc
    by (simp add: top3_players_def min_def)
qed

theorem top3_spec_witness:
  "length (top3_players [\<lparr>et_id = ''1'', et_name = ''a'', et_before = 0, et_after = 1, et_team = ''R'', achievements = None\<rparr>,
                         \<lparr>et_id = ''2'', et_name = ''b'', et_before = 0, et_after = 5, et_team = ''R'', achievements = None\<rparr>]) = 2"
  using top3_spec [of "[\<lparr>et_id = ''1'', et_name = ''a'', et_before = 0, et_after = 1, et_team = ''R'', achievements = None\<rparr>,
                        \<lparr>et_id = ''2'', et_name = ''b'', et_before = 0, et_after = 5, et_team = ''R'', achievements = None\<rparr>]"]
  by simp

text \<open>
  C27. For a name made of non-empty space-free words separated by single spaces, the card's
  initials are the upper case of each word's first letter, in order (\<open>\<ss>\<close> giving
  \<open>SS\<close>).
\<close>

theorem player_card_initials:
  assumes "ws \<noteq> []" and "\<forall>w \<in> set ws. w \<noteq> [] \<and> CHR '' '' \<notin> set w"
  shows "initials (js_join '' '' ws) = concat (map (\<lambda>w. upper_char (hd w)) ws)"
proof -
  have split: "js_split CHR '' '' (js_join '' '' ws) = ws"
    using js_split_join [of ws "CHR '' ''"] assms by simp
  have "concat (map (take 1) ws) = map hd ws"
    using assms(2) by (induction ws) (auto simp: take_Suc neq_Nil_conv)
  then show ?thesis
    by (simp add: initials_heads split js_to_upper_def comp_def)
qed

theorem player_card_initials_witness:
  "initials ''ann bee'' = ''AB''"
proof -
  have "''ann bee'' = js_join '' '' [''ann'', ''bee'']"
    by (simp add: js_join_def)
  then show ?thesis
    using player_card_initials [of "[''ann'', ''bee'']"]
    by (simp add: upper_char_def Let_def char_of_def bit_0)
qed

end
