(* ===== verification/MatchHistory.thy ===== *)
theory MatchHistory
  imports Prelude
begin

text \<open>
  The shared types of \<open>src/types/index.ts\<close> (\<open>Player\<close>, \<open>Team\<close>, \<open>Penalty\<close>,
  \<open>Match\<close>) as records, and \<open>MatchHistory\<close> of \<open>src/components/match-history.tsx\<close>:
  a list of match cards of which the one whose id is \<open>expandedMatch\<close> is open. A card
  header click toggles that state. The date line (\<open>toLocaleDateString\<close>) and the
  animation are not modelled.
\<close>

section \<open>Shared types\<close>

record ty_player =
  typ_id :: string
  typ_username :: string
  typ_team :: string
  stomps_gained :: int
  typ_match_id :: "string option"

record ty_penalty =
  tpen_id :: string
  tpen_description :: string
  tpen_amount :: int
  tpen_team_id :: string

record ty_team =
  tt_id :: string
  tt_name :: string
  tt_players :: "ty_player list"
  tt_penalties :: "ty_penalty list"

record ty_match =
  mt_id :: string
  mt_date :: string
  mt_team1 :: ty_team
  mt_team2 :: ty_team
  mt_winner :: string

section \<open>Match history\<close>

text \<open>\<open>setExpandedMatch(expandedMatch === match.id ? null : match.id)\<close>.\<close>

definition mh_toggle :: "string option \<Rightarrow> string \<Rightarrow> string option" where
  "mh_toggle expanded mid = (if expanded = Some mid then None else Some mid)"

definition mh_is_expanded :: "string option \<Rightarrow> ty_match \<Rightarrow> bool" where
  "mh_is_expanded expanded m \<longleftrightarrow> expanded = Some (mt_id m)"

text \<open>
  The body of an open card, per team of \<open>[match.team1, match.team2]\<close>: its name, each
  player's username and \<open>+stompsGained\<close>, and the penalty list, shown only when non-empty.
\<close>

record mh_team_view =
  tv_name :: string
  tv_players :: "(string \<times> int) list"
  tv_penalties :: "(string \<times> int) list option"

definition mh_team_view :: "ty_team \<Rightarrow> mh_team_view" where
  "mh_team_view t =
     \<lparr>tv_name = tt_name t,
      tv_players = map (\<lambda>p. (typ_username p, stomps_gained p)) (tt_players t),
      tv_penalties = (if tt_penalties t = [] then None
                      else Some (map (\<lambda>p. (tpen_description p, tpen_amount p)) (tt_penalties t)))\<rparr>"

record mh_card =
  card_title :: "string \<times> string"
  card_winner :: string
  card_open :: bool
  card_body :: "mh_team_view list"

definition mh_view :: "ty_match list \<Rightarrow> string option \<Rightarrow> mh_card list" where
  "mh_view matches expanded =
     map (\<lambda>m. \<lparr>card_title = (tt_name (mt_team1 m), tt_name (mt_team2 m)),
               card_winner = mt_winner m,
               card_open = mh_is_expanded expanded m,
               card_body = (if mh_is_expanded expanded m
                            then map mh_team_view [mt_team1 m, mt_team2 m] else [])\<rparr>) matches"

text \<open>The state after a sequence of header clicks, from the initial \<open>null\<close>.\<close>

definition mh_clicks :: "string list \<Rightarrow> string option" where
  "mh_clicks clicks = fold (\<lambda>mid e. mh_toggle e mid) clicks None"

section \<open>Lemmas\<close>

lemma mh_open_cards:
  "filter card_open (mh_view matches e) = mh_view (filter (mh_is_expanded e) matches) e"
  by (induction matches) (simp_all add: mh_view_def)

lemma mh_toggle_same: "mh_is_expanded (mh_toggle e (mt_id m)) m \<longleftrightarrow> \<not> mh_is_expanded e m"
  by (simp add: mh_toggle_def mh_is_expanded_def)

lemma mh_toggle_other:
  "mt_id m' \<noteq> mt_id m \<Longrightarrow> \<not> mh_is_expanded (mh_toggle e (mt_id m)) m'"
  by (simp add: mh_toggle_def mh_is_expanded_def)


section \<open>Properties\<close>

text \<open>
  C29. With distinct match ids at most one card of the history is open, whatever the
  state; a click on a card's header opens it when it was closed and closes it when it was
  open, and closes every card of another id.
\<close>

theorem match_history_expand:
  assumes "distinct (map mt_id matches)"
  shows "length (filter card_open (mh_view matches e)) \<le> 1
         \<and> (mh_is_expanded (mh_toggle e (mt_id m)) m \<longleftrightarrow> \<not> mh_is_expanded e m)
         \<and> (mt_id m' \<noteq> mt_id m \<longrightarrow> \<not> mh_is_expanded (mh_toggle e (mt_id m)) m')"
proof -
  have len: "length (filter card_open (mh_view matches e)) = length (filter (mh_is_expanded e) matches)"
    by (simp only: mh_open_cards) (simp add: mh_view_def)
  have "length (filter (mh_is_expanded e) matches) \<le> 1"
  proof (cases e)
    case None
    then show ?thesis by (simp add: mh_is_expanded_def)
  next
    case (Some k)
    have "filter (mh_is_expanded e) matches = filter (\<lambda>x. mt_id x = k) matches"
      by (rule filter_cong) (auto simp: mh_is_expanded_def Some)
    then show ?thesis using length_filter_distinct_key [OF assms] by simp
  qed
  with len have "length (filter card_open (mh_view matches e)) \<le> 1" by simp
  then show ?thesis using mh_toggle_same mh_toggle_other by blast
qed

theorem match_history_expand_witness:
  "length (filter card_open (mh_view
     [\<lparr>mt_id = ''m1'', mt_date = [], mt_team1 = \<lparr>tt_id = ''1'', tt_name = ''A'', tt_players = [], tt_penalties = []\<rparr>,
       mt_team2 = \<lparr>tt_id = ''2'', tt_name = ''B'', tt_players = [], tt_penalties = []\<rparr>, mt_winner = ''A''\<rparr>,
      \<lparr>mt_id = ''m2'', mt_date = [], mt_team1 = \<lparr>tt_id = ''1'', tt_name = ''A'', tt_players = [], tt_penalties = []\<rparr>,
       mt_team2 = \<lparr>tt_id = ''2'', tt_name = ''B'', tt_players = [], tt_penalties = []\<rparr>, mt_winner = ''B''\<rparr>]
     (mh_clicks [''m1'', ''m2'']))) \<le> 1"
  using match_history_expand [of
     "[\<lparr>mt_id = ''m1'', mt_date = [], mt_team1 = \<lparr>tt_id = ''1'', tt_name = ''A'', tt_players = [], tt_penalties = []\<rparr>,
       mt_team2 = \<lparr>tt_id = ''2'', tt_name = ''B'', tt_players = [], tt_penalties = []\<rparr>, mt_winner = ''A''\<rparr>,
      \<lparr>mt_id = ''m2'', mt_date = [], mt_team1 = \<lparr>tt_id = ''1'', tt_name = ''A'', tt_players = [], tt_penalties = []\<rparr>,
       mt_team2 = \<lparr>tt_id = ''2'', tt_name = ''B'', tt_players = [], tt_penalties = []\<rparr>, mt_winner = ''B''\<rparr>]"
     "mh_clicks [''m1'', ''m2'']"]
  by simp

end
