(* ===== verification/CherryBlossoms.thy ===== *)
theory CherryBlossoms
  imports Prelude Complex_Main
begin

text \<open>
  \<open>CherryBlossoms\<close> of \<open>src/components/cherry-blossoms.tsx\<close>: falling petals drawn on a
  canvas by \<open>requestAnimationFrame\<close> loops. Numbers are exact reals (the browser's doubles
  are not modelled); \<open>Math.random()\<close> values are arguments in \<open>[0, 1)\<close>. A petal is the
  record \<open>petal\<close>; \<open>update\<close> is \<open>petal_update\<close>. Each loop limits itself to
  20 frames per second with its own \<open>lastTime\<close> (\<open>limiter\<close>). The component's state is
  \<open>blossom\<close>: visibility, petals, the callbacks \<open>requestAnimationFrame\<close> holds (each
  with its \<open>lastTime\<close>), \<open>animationRef.current\<close>, and the canvas size. Drawing is not
  modelled.
\<close>

section \<open>Petals\<close>

record petal =
  px :: real
  py :: real
  psize :: real
  protation :: real
  x_speed :: real
  y_speed :: real
  rotation_speed :: real

text \<open>A value \<open>Math.random()\<close> can return.\<close>

definition js_random :: "real \<Rightarrow> bool" where
  "js_random r \<longleftrightarrow> 0 \<le> r \<and> r < 1"

text \<open>\<open>new Petal()\<close>, the six \<open>Math.random()\<close> calls in the order of the constructor.\<close>

definition petal_new :: "real \<Rightarrow> real \<Rightarrow> real \<Rightarrow> real \<Rightarrow> real \<Rightarrow> real \<Rightarrow> real \<Rightarrow> petal" where
  "petal_new width r1 r2 r3 r4 r5 r6 =
     \<lparr>px = r1 * width, py = -20, psize = r2 * 4 + 2, protation = r3 * 360,
      x_speed = r4 * 2 - 1, y_speed = r5 * 1 + 1, rotation_speed = (r6 - 0.5) * 2\<rparr>"

definition petal_move :: "petal \<Rightarrow> petal" where
  "petal_move p =
     p\<lparr>px := px p + x_speed p, py := py p + y_speed p, protation := protation p + rotation_speed p\<rparr>"

text \<open>\<open>update()\<close>: move, and back to the top at a random \<open>x\<close> once below the canvas.\<close>

definition petal_update :: "real \<Rightarrow> real \<Rightarrow> real \<Rightarrow> petal \<Rightarrow> petal" where
  "petal_update height width r p =
     (let q = petal_move p in if height < py q then q\<lparr>py := -20, px := r * width\<rparr> else q)"

definition petal_count :: "real \<Rightarrow> nat" where
  "petal_count inner_width = (if inner_width < 768 then 10 else 15)"

text \<open>The petals of the mount effect; \<open>rnd i j\<close> is the \<open>j\<close>-th random value of petal \<open>i\<close>.\<close>

definition petals_init :: "real \<Rightarrow> real \<Rightarrow> (nat \<Rightarrow> nat \<Rightarrow> real) \<Rightarrow> petal list" where
  "petals_init inner_width width rnd =
     map (\<lambda>i. petal_new width (rnd i 0) (rnd i 1) (rnd i 2) (rnd i 3) (rnd i 4) (rnd i 5))
       [0..<petal_count inner_width]"

text \<open>The ranges the constructor gives a petal's fields, and the top of its fall.\<close>

definition petal_wf :: "petal \<Rightarrow> bool" where
  "petal_wf p \<longleftrightarrow>
     2 \<le> psize p \<and> psize p < 6 \<and> -1 \<le> x_speed p \<and> x_speed p < 1
     \<and> 1 \<le> y_speed p \<and> y_speed p < 2 \<and> -1 \<le> rotation_speed p \<and> rotation_speed p < 1
     \<and> -20 \<le> py p"

text \<open>
  The frames a petal falls before \<open>update()\<close> sends it back to the top: the loop the
  animation runs on it, counted. It returns \<open>None\<close> when the petal never leaves the canvas.
\<close>

partial_function (option) frames_until_reset :: "real \<Rightarrow> petal \<Rightarrow> nat \<Rightarrow> nat option" where
  "frames_until_reset height p n =
     (if height < py p + y_speed p then Some n else frames_until_reset height (petal_move p) (Suc n))"

section \<open>The frame limiter\<close>

definition frame_interval :: real where
  "frame_interval = 1000 / 20"

text \<open>JavaScript's \<open>%\<close> on numbers: the remainder of the truncated quotient.\<close>

definition js_rem :: "real \<Rightarrow> real \<Rightarrow> real" where
  "js_rem a b = a - b * of_int (if 0 \<le> a / b then \<lfloor>a / b\<rfloor> else \<lceil>a / b\<rceil>)"

text \<open>One call of \<open>animate(currentTime)\<close>: whether it draws, and the new \<open>lastTime\<close>.\<close>

definition limiter :: "real \<Rightarrow> real \<Rightarrow> bool \<times> real" where
  "limiter last_time current_time =
     (let delta_time = current_time - last_time
      in if frame_interval < delta_time then (True, current_time - js_rem delta_time frame_interval)
         else (False, last_time))"

text \<open>A loop's \<open>lastTime\<close> before its \<open>k\<close>-th call, the calls having timestamps \<open>t 0, t 1, ...\<close>.\<close>

primrec limiter_last :: "(nat \<Rightarrow> real) \<Rightarrow> nat \<Rightarrow> real" where
  "limiter_last t 0 = 0"
| "limiter_last t (Suc k) = snd (limiter (limiter_last t k) (t k))"

definition limiter_draws :: "(nat \<Rightarrow> real) \<Rightarrow> nat \<Rightarrow> bool" where
  "limiter_draws t k = fst (limiter (limiter_last t k) (t k))"


section \<open>The animation loops\<close>

text \<open>
  The callbacks given to \<open>requestAnimationFrame\<close>: the mount effect's \<open>animate\<close>, which
  captured \<open>isVisible\<close> of the first render (always \<open>true\<close>), and the visibility effect's.
\<close>

datatype raf_loop = MountLoop bool | VisibleLoop

record raf_request =
  rq_id :: nat
  rq_loop :: raf_loop
  rq_last :: real

record blossom =
  b_visible :: bool
  b_mounted :: bool
  b_petals :: "petal list"
  b_pending :: "raf_request list"
  b_ref :: "nat option"
  b_next :: nat
  b_width :: real
  b_height :: real

text \<open>\<open>animationRef.current = requestAnimationFrame(animate)\<close>: ids count up from 1.\<close>

definition request_frame :: "blossom \<Rightarrow> raf_loop \<Rightarrow> real \<Rightarrow> blossom" where
  "request_frame s loop last_time =
     s\<lparr>b_pending := b_pending s @ [\<lparr>rq_id = b_next s, rq_loop = loop, rq_last = last_time\<rparr>],
       b_ref := Some (b_next s), b_next := Suc (b_next s)\<rparr>"

text \<open>
  The body of \<open>animate\<close> after its visibility test: the limiter, \<open>update()\<close> of every petal
  when it draws (\<open>rnd i\<close> the random value petal \<open>i\<close> draws if it is reset), and the next
  request.
\<close>

definition animate_body :: "real \<Rightarrow> (nat \<Rightarrow> real) \<Rightarrow> blossom \<Rightarrow> raf_request \<Rightarrow> blossom" where
  "animate_body current_time rnd s rq =
     (let (draw, last_time) = limiter (rq_last rq) current_time;
          s' = (if draw then s\<lparr>b_petals := map (\<lambda>(i, p). petal_update (b_height s) (b_width s) (rnd i) p)
                                              (enumerate 0 (b_petals s))\<rparr>
                else s)
      in request_frame s' (rq_loop rq) last_time)"

definition fire :: "real \<Rightarrow> (nat \<Rightarrow> real) \<Rightarrow> blossom \<Rightarrow> raf_request \<Rightarrow> blossom" where
  "fire current_time rnd s rq =
     (case rq_loop rq of
        MountLoop is_visible \<Rightarrow> if \<not> is_visible then s else animate_body current_time rnd s rq
      | VisibleLoop \<Rightarrow> animate_body current_time rnd s rq)"

text \<open>
  A frame: the browser runs, in order and with the frame's timestamp, every callback
  requested before it; callbacks they request wait for the next frame.
\<close>

definition blossom_frame :: "real \<Rightarrow> (nat \<Rightarrow> nat \<Rightarrow> real) \<Rightarrow> blossom \<Rightarrow> blossom" where
  "blossom_frame current_time rnd s =
     foldl (\<lambda>s (k, rq). fire current_time (rnd k) s rq) (s\<lparr>b_pending := []\<rparr>) (enumerate 0 (b_pending s))"

text \<open>
  Mounting: the canvas takes the window's size, the mount effect creates the petals and
  starts its loop, then the visibility effect (\<open>isVisible\<close> is \<open>true\<close>) starts another.
\<close>

definition blossom_mount :: "real \<Rightarrow> real \<Rightarrow> (nat \<Rightarrow> nat \<Rightarrow> real) \<Rightarrow> blossom" where
  "blossom_mount inner_width inner_height rnd =
     request_frame
       (request_frame
          \<lparr>b_visible = True, b_mounted = True, b_petals = petals_init inner_width inner_width rnd,
           b_pending = [], b_ref = None, b_next = 1, b_width = inner_width, b_height = inner_height\<rparr>
          (MountLoop True) 0)
       VisibleLoop 0"

text \<open>\<open>if (animationRef.current)\<close>: a request id, truthy unless 0.\<close>

definition ref_truthy :: "nat option \<Rightarrow> bool" where
  "ref_truthy r = (case r of None \<Rightarrow> False | Some i \<Rightarrow> i \<noteq> 0)"

definition cancel_ref :: "blossom \<Rightarrow> blossom" where
  "cancel_ref s = s\<lparr>b_pending := filter (\<lambda>rq. b_ref s \<noteq> Some (rq_id rq)) (b_pending s)\<rparr>"

text \<open>The visibility effect, run when \<open>isVisible\<close> changed.\<close>

definition visibility_effect :: "blossom \<Rightarrow> blossom" where
  "visibility_effect s =
     (if \<not> b_visible s \<and> ref_truthy (b_ref s) then cancel_ref s
      else if b_visible s then request_frame s VisibleLoop 0
      else s)"

text \<open>The observer's \<open>setIsVisible(entry.isIntersecting)\<close>; React skips an unchanged value.\<close>

definition blossom_intersect :: "bool \<Rightarrow> blossom \<Rightarrow> blossom" where
  "blossom_intersect is_intersecting s =
     (if is_intersecting = b_visible s then s
      else visibility_effect (s\<lparr>b_visible := is_intersecting\<rparr>))"

text \<open>The throttled resize handler, once its 200 ms timer fires.\<close>

definition blossom_resize :: "real \<Rightarrow> real \<Rightarrow> blossom \<Rightarrow> blossom" where
  "blossom_resize inner_width inner_height s = s\<lparr>b_width := inner_width, b_height := inner_height\<rparr>"

text \<open>The mount effect's cleanup: it cancels the request in \<open>animationRef\<close>.\<close>

definition blossom_unmount :: "blossom \<Rightarrow> blossom" where
  "blossom_unmount s = (if ref_truthy (b_ref s) then cancel_ref s else s)\<lparr>b_mounted := False\<rparr>"

text \<open>
  The states of the component: after mounting, any frame, observer report, resize and the
  unmount; frames go on after the unmount for the callbacks left. The random values are
  those \<open>Math.random()\<close> can return.
\<close>

inductive blossom_reachable :: "blossom \<Rightarrow> bool" where
  mount: "(\<And>i j. js_random (rnd i j)) \<Longrightarrow> blossom_reachable (blossom_mount iw ih rnd)"
| frame: "blossom_reachable s \<Longrightarrow> (\<And>k i. js_random (rnd k i)) \<Longrightarrow> blossom_reachable (blossom_frame t rnd s)"
| intersect: "blossom_reachable s \<Longrightarrow> b_mounted s \<Longrightarrow> blossom_reachable (blossom_intersect b s)"
| resize: "blossom_reachable s \<Longrightarrow> b_mounted s \<Longrightarrow> 0 \<le> iw \<Longrightarrow> 0 \<le> ih \<Longrightarrow> blossom_reachable (blossom_resize iw ih s)"
| unmount: "blossom_reachable s \<Longrightarrow> b_mounted s \<Longrightarrow> blossom_reachable (blossom_unmount s)"

text \<open>
  The callbacks the browser holds: the mount loop, and the visibility loop while the canvas
  is visible, with \<open>animationRef\<close> on the newest request; fresh, distinct, positive ids.
\<close>

definition blossom_inv :: "blossom \<Rightarrow> bool" where
  "blossom_inv s \<longleftrightarrow>
     0 < b_next s \<and> distinct (map rq_id (b_pending s)) \<and> list_all (\<lambda>rq. 0 < rq_id rq \<and> rq_id rq < b_next s) (b_pending s)
     \<and> (b_mounted s \<longrightarrow>
          map rq_loop (b_pending s) = MountLoop True # (if b_visible s then [VisibleLoop] else [])
          \<and> ref_truthy (b_ref s)
          \<and> (b_visible s \<longrightarrow> b_ref s = Some (rq_id (last (b_pending s)))))
     \<and> (\<not> b_mounted s \<longrightarrow> map rq_loop (b_pending s) = [] \<or> map rq_loop (b_pending s) = [MountLoop True])"


section \<open>Lemmas on petals\<close>

lemma petal_move_fields [simp]:
  "py (petal_move p) = py p + y_speed p" "x_speed (petal_move p) = x_speed p"
  "y_speed (petal_move p) = y_speed p" "psize (petal_move p) = psize p"
  "rotation_speed (petal_move p) = rotation_speed p"
  by (simp_all add: petal_move_def)

lemma petal_new_wf:
  assumes "list_all js_random [r1, r2, r3, r4, r5, r6]"
  shows "petal_wf (petal_new width r1 r2 r3 r4 r5 r6)"
  using assms by (simp add: petal_wf_def petal_new_def js_random_def)

lemma petal_update_wf:
  assumes "petal_wf p"
  shows "petal_wf (petal_update height width r p)"
  using assms by (simp add: petal_wf_def petal_update_def Let_def petal_move_def)

lemma petal_update_below: "-20 \<le> height \<Longrightarrow> py (petal_update height width r p) \<le> height"
  by (simp add: petal_update_def Let_def)

lemma petals_init_wf:
  "(\<And>i j. js_random (rnd i j)) \<Longrightarrow> list_all petal_wf (petals_init iw w rnd)"
  by (simp add: petals_init_def list_all_iff petal_new_wf)

lemma update_all_wf:
  "list_all petal_wf ps \<Longrightarrow>
     list_all petal_wf (map (\<lambda>(i, p). petal_update h w (rnd i) p) (enumerate k ps))"
  by (induction ps arbitrary: k) (simp_all add: petal_update_wf)

section \<open>Lemmas on the loops\<close>

lemma request_frame_simps [simp]:
  "b_pending (request_frame s l t) = b_pending s @ [\<lparr>rq_id = b_next s, rq_loop = l, rq_last = t\<rparr>]"
  "b_ref (request_frame s l t) = Some (b_next s)" "b_next (request_frame s l t) = Suc (b_next s)"
  "b_visible (request_frame s l t) = b_visible s" "b_mounted (request_frame s l t) = b_mounted s"
  "b_petals (request_frame s l t) = b_petals s"
  "b_width (request_frame s l t) = b_width s" "b_height (request_frame s l t) = b_height s"
  by (simp_all add: request_frame_def)

lemma animate_body_simps [simp]:
  "b_pending (animate_body t rnd s rq) =
     b_pending s @ [\<lparr>rq_id = b_next s, rq_loop = rq_loop rq, rq_last = snd (limiter (rq_last rq) t)\<rparr>]"
  "b_ref (animate_body t rnd s rq) = Some (b_next s)" "b_next (animate_body t rnd s rq) = Suc (b_next s)"
  "b_visible (animate_body t rnd s rq) = b_visible s" "b_mounted (animate_body t rnd s rq) = b_mounted s"
  "b_width (animate_body t rnd s rq) = b_width s" "b_height (animate_body t rnd s rq) = b_height s"
  by (simp_all add: animate_body_def Let_def split: prod.split)

lemma animate_body_petals_wf:
  "list_all petal_wf (b_petals s) \<Longrightarrow> list_all petal_wf (b_petals (animate_body t rnd s rq))"
  by (simp add: animate_body_def Let_def update_all_wf split: prod.split)

lemma fire_live: "rq_loop rq \<noteq> MountLoop False \<Longrightarrow> fire t rnd s rq = animate_body t rnd s rq"
  by (cases "rq_loop rq") (simp_all add: fire_def)

lemma fire_petals_wf:
  "list_all petal_wf (b_petals s) \<Longrightarrow> list_all petal_wf (b_petals (fire t rnd s rq))"
  by (cases "rq_loop rq") (simp_all add: fire_def animate_body_petals_wf)

text \<open>The frame's fold over live callbacks: each is requested again, in order, with fresh ids.\<close>

lemma frame_fold:
  assumes "list_all (\<lambda>rq. rq_loop rq \<noteq> MountLoop False) rqs"
  shows "map rq_loop (b_pending (foldl (\<lambda>s (k, rq). fire t (rnd k) s rq) s (enumerate k rqs)))
           = map rq_loop (b_pending s) @ map rq_loop rqs
         \<and> map rq_id (b_pending (foldl (\<lambda>s (k, rq). fire t (rnd k) s rq) s (enumerate k rqs)))
           = map rq_id (b_pending s) @ [b_next s..<b_next s + length rqs]
         \<and> b_next (foldl (\<lambda>s (k, rq). fire t (rnd k) s rq) s (enumerate k rqs)) = b_next s + length rqs
         \<and> b_ref (foldl (\<lambda>s (k, rq). fire t (rnd k) s rq) s (enumerate k rqs))
           = (if rqs = [] then b_ref s else Some (b_next s + length rqs - 1))
         \<and> b_visible (foldl (\<lambda>s (k, rq). fire t (rnd k) s rq) s (enumerate k rqs)) = b_visible s
         \<and> b_mounted (foldl (\<lambda>s (k, rq). fire t (rnd k) s rq) s (enumerate k rqs)) = b_mounted s"
  using assms
proof (induction rqs arbitrary: s k)
  case (Cons rq rqs)
  define s1 where "s1 = fire t (rnd k) s rq"
  have s1: "b_pending s1 = b_pending s @ [\<lparr>rq_id = b_next s, rq_loop = rq_loop rq, rq_last = snd (limiter (rq_last rq) t)\<rparr>]"
    "b_next s1 = Suc (b_next s)" "b_ref s1 = Some (b_next s)"
    "b_visible s1 = b_visible s" "b_mounted s1 = b_mounted s"
    using Cons.prems by (simp_all add: s1_def fire_live)
  have fold: "foldl (\<lambda>s (k, rq). fire t (rnd k) s rq) s (enumerate k (rq # rqs))
              = foldl (\<lambda>s (k, rq). fire t (rnd k) s rq) s1 (enumerate (Suc k) rqs)"
    by (simp add: s1_def)
  have ih: "map rq_loop (b_pending (foldl (\<lambda>s (k, rq). fire t (rnd k) s rq) s1 (enumerate (Suc k) rqs)))
           = map rq_loop (b_pending s1) @ map rq_loop rqs
         \<and> map rq_id (b_pending (foldl (\<lambda>s (k, rq). fire t (rnd k) s rq) s1 (enumerate (Suc k) rqs)))
           = map rq_id (b_pending s1) @ [b_next s1..<b_next s1 + length rqs]
         \<and> b_next (foldl (\<lambda>s (k, rq). fire t (rnd k) s rq) s1 (enumerate (Suc k) rqs)) = b_next s1 + length rqs
         \<and> b_ref (foldl (\<lambda>s (k, rq). fire t (rnd k) s rq) s1 (enumerate (Suc k) rqs))
           = (if rqs = [] then b_ref s1 else Some (b_next s1 + length rqs - 1))
         \<and> b_visible (foldl (\<lambda>s (k, rq). fire t (rnd k) s rq) s1 (enumerate (Suc k) rqs)) = b_visible s1
         \<and> b_mounted (foldl (\<lambda>s (k, rq). fire t (rnd k) s rq) s1 (enumerate (Suc k) rqs)) = b_mounted s1"
    using Cons.IH [of s1 "Suc k"] Cons.prems by simp
  have upt: "[b_next s..<b_next s + length (rq # rqs)] = b_next s # [Suc (b_next s)..<Suc (b_next s) + length rqs]"
    by (subst upt_rec) simp
  show ?case
    unfolding fold using ih by (simp only: s1 upt) simp
qed simp

lemma frame_fold_petals_wf:
  "list_all petal_wf (b_petals s) \<Longrightarrow>
     list_all petal_wf (b_petals (foldl (\<lambda>s (k, rq). fire t (rnd k) s rq) s (enumerate k rqs)))"
  by (induction rqs arbitrary: s k) (simp_all add: fire_petals_wf)


section \<open>The loop invariant\<close>

lemma blossom_inv_mount: "blossom_inv (blossom_mount iw ih rnd)"
  by (simp add: blossom_mount_def blossom_inv_def ref_truthy_def)

lemma blossom_inv_ids_filter:
  assumes "0 < b_next s" "distinct (map rq_id (b_pending s))"
    "list_all (\<lambda>rq. 0 < rq_id rq \<and> rq_id rq < b_next s) (b_pending s)"
  shows "distinct (map rq_id (filter P (b_pending s)))
         \<and> list_all (\<lambda>rq. 0 < rq_id rq \<and> rq_id rq < b_next s) (filter P (b_pending s))"
  using assms by (simp add: distinct_map_filter list_all_iff)

lemma blossom_inv_frame:
  assumes inv: "blossom_inv s"
  shows "blossom_inv (blossom_frame t rnd s)"
proof -
  let ?P = "b_pending s" and ?r = "blossom_frame t rnd s"
  have shapes: "map rq_loop ?P = [] \<or> map rq_loop ?P = [MountLoop True]
                \<or> map rq_loop ?P = [MountLoop True, VisibleLoop]"
    using inv by (auto simp: blossom_inv_def split: if_splits)
  have live: "list_all (\<lambda>rq. rq_loop rq \<noteq> MountLoop False) ?P"
  proof -
    from shapes have "\<forall>l \<in> set (map rq_loop ?P). l \<noteq> MountLoop False" by auto
    then show ?thesis by (simp add: list_all_iff)
  qed
  from frame_fold [OF live, of t rnd "s\<lparr>b_pending := []\<rparr>" 0]
  have loops: "map rq_loop (b_pending ?r) = map rq_loop ?P"
    and ids: "map rq_id (b_pending ?r) = [b_next s..<b_next s + length ?P]"
    and nxt: "b_next ?r = b_next s + length ?P"
    and ref: "b_ref ?r = (if ?P = [] then b_ref s else Some (b_next s + length ?P - 1))"
    and vis: "b_visible ?r = b_visible s" and mnt: "b_mounted ?r = b_mounted s"
    by (simp_all add: blossom_frame_def)
  have pos: "0 < b_next s" using inv by (simp add: blossom_inv_def)
  have len: "length (b_pending ?r) = length ?P" using loops by (metis length_map)
  have ids_ok: "distinct (map rq_id (b_pending ?r))
                \<and> list_all (\<lambda>rq. 0 < rq_id rq \<and> rq_id rq < b_next ?r) (b_pending ?r)"
  proof -
    have "rq_id rq \<in> {b_next s..<b_next s + length ?P}" if "rq \<in> set (b_pending ?r)" for rq
      using that ids by (metis image_eqI set_map set_upt)
    then have "list_all (\<lambda>rq. 0 < rq_id rq \<and> rq_id rq < b_next ?r) (b_pending ?r)"
      using pos nxt by (fastforce simp: list_all_iff)
    moreover have "distinct (map rq_id (b_pending ?r))" by (simp only: ids distinct_upt)
    ultimately show ?thesis by simp
  qed
  have last_id: "rq_id (last (b_pending ?r)) = b_next s + length ?P - 1" if ne: "?P \<noteq> []"
  proof -
    have "b_pending ?r \<noteq> []" using len ne by auto
    then have "rq_id (last (b_pending ?r)) = last (map rq_id (b_pending ?r))" by (simp add: last_map)
    also have "\<dots> = b_next s + length ?P - 1" using ids ne by simp
    finally show ?thesis .
  qed
  have mounted: "map rq_loop (b_pending ?r) = MountLoop True # (if b_visible ?r then [VisibleLoop] else [])
                 \<and> ref_truthy (b_ref ?r) \<and> (b_visible ?r \<longrightarrow> b_ref ?r = Some (rq_id (last (b_pending ?r))))"
    if m: "b_mounted ?r"
  proof -
    have P: "map rq_loop ?P = MountLoop True # (if b_visible s then [VisibleLoop] else [])"
      using inv m mnt by (simp add: blossom_inv_def)
    then have ne: "?P \<noteq> []" by auto
    have "Suc 0 < b_next s + length ?P" using pos ne by (cases ?P) auto
    then show ?thesis using ne P loops vis ref pos last_id by (simp add: ref_truthy_def)
  qed
  have unmounted: "map rq_loop (b_pending ?r) = [] \<or> map rq_loop (b_pending ?r) = [MountLoop True]"
    if "\<not> b_mounted ?r"
    using inv that mnt loops by (simp add: blossom_inv_def)
  show ?thesis
    using ids_ok mounted unmounted pos nxt by (simp add: blossom_inv_def)
qed


lemma cancel_ref_last:
  assumes "distinct (map rq_id (b_pending s))" "b_pending s \<noteq> []"
    and "b_ref s = Some (rq_id (last (b_pending s)))"
  shows "b_pending (cancel_ref s) = butlast (b_pending s)"
  using filter_neq_last [OF assms(1,2)] assms(3) by (simp add: cancel_ref_def)

lemma cancel_ref_ids:
  "blossom_inv s \<Longrightarrow> distinct (map rq_id (b_pending (cancel_ref s)))
     \<and> list_all (\<lambda>rq. 0 < rq_id rq \<and> rq_id rq < b_next s) (b_pending (cancel_ref s))"
  unfolding cancel_ref_def blossom_inv_def by (simp add: distinct_map_filter list_all_iff)

lemma blossom_inv_hide:
  assumes inv: "blossom_inv s" and m: "b_mounted s" and v: "b_visible s"
  shows "blossom_inv (visibility_effect (s\<lparr>b_visible := False\<rparr>))"
proof -
  have P: "map rq_loop (b_pending s) = [MountLoop True, VisibleLoop]"
    and ref: "b_ref s = Some (rq_id (last (b_pending s)))"
    using inv m v by (simp_all add: blossom_inv_def)
  have tr: "ref_truthy (b_ref s)" using inv m by (simp add: blossom_inv_def)
  have ne: "b_pending s \<noteq> []" using P by auto
  have d: "distinct (map rq_id (b_pending s))" using inv by (simp add: blossom_inv_def)
  have e: "visibility_effect (s\<lparr>b_visible := False\<rparr>) = cancel_ref (s\<lparr>b_visible := False\<rparr>)"
    using tr by (simp add: visibility_effect_def)
  have "b_pending (cancel_ref (s\<lparr>b_visible := False\<rparr>)) = butlast (b_pending s)"
    using cancel_ref_last [of "s\<lparr>b_visible := False\<rparr>"] d ne ref by simp
  moreover have "map rq_loop (butlast (b_pending s)) = [MountLoop True]"
    by (simp add: map_butlast P)
  moreover have "distinct (map rq_id (b_pending (cancel_ref s)))
     \<and> list_all (\<lambda>rq. 0 < rq_id rq \<and> rq_id rq < b_next s) (b_pending (cancel_ref s))"
    by (rule cancel_ref_ids [OF inv])
  ultimately show ?thesis
    using inv m tr e by (simp add: blossom_inv_def cancel_ref_def)
qed

lemma blossom_inv_show:
  assumes inv: "blossom_inv s" and m: "b_mounted s" and v: "\<not> b_visible s"
  shows "blossom_inv (visibility_effect (s\<lparr>b_visible := True\<rparr>))"
proof -
  have P: "map rq_loop (b_pending s) = [MountLoop True]"
    using inv m v by (simp add: blossom_inv_def)
  have ids: "\<forall>rq \<in> set (b_pending s). 0 < rq_id rq \<and> rq_id rq < b_next s"
    and d: "distinct (map rq_id (b_pending s))" and pos: "0 < b_next s"
    using inv by (simp_all add: blossom_inv_def list_all_iff)
  then have "b_next s \<notin> set (map rq_id (b_pending s))" by auto
  then show ?thesis
    using P ids d pos m by (auto simp: visibility_effect_def blossom_inv_def ref_truthy_def list_all_iff)
qed

lemma blossom_inv_intersect:
  "blossom_inv s \<Longrightarrow> b_mounted s \<Longrightarrow> blossom_inv (blossom_intersect b s)"
  using blossom_inv_hide blossom_inv_show by (cases b) (auto simp: blossom_intersect_def)

lemma blossom_inv_resize: "blossom_inv s \<Longrightarrow> blossom_inv (blossom_resize iw ih s)"
  by (simp add: blossom_resize_def blossom_inv_def)

lemma blossom_inv_unmount:
  assumes inv: "blossom_inv s" and m: "b_mounted s"
  shows "blossom_inv (blossom_unmount s)"
proof -
  have tr: "ref_truthy (b_ref s)" and
    P: "map rq_loop (b_pending s) = MountLoop True # (if b_visible s then [VisibleLoop] else [])"
    using inv m by (simp_all add: blossom_inv_def)
  have u: "blossom_unmount s = (cancel_ref s)\<lparr>b_mounted := False\<rparr>"
    using tr by (simp add: blossom_unmount_def)
  have loops: "map rq_loop (b_pending (cancel_ref s)) = [] \<or> map rq_loop (b_pending (cancel_ref s)) = [MountLoop True]"
  proof (cases "b_visible s")
    case True
    have "distinct (map rq_id (b_pending s))" using inv by (simp add: blossom_inv_def)
    moreover have "b_pending s \<noteq> []" using P by auto
    moreover have "b_ref s = Some (rq_id (last (b_pending s)))" using True inv m by (simp add: blossom_inv_def)
    ultimately have "b_pending (cancel_ref s) = butlast (b_pending s)" by (rule cancel_ref_last)
    then show ?thesis using P True by (simp add: map_butlast)
  next
    case False
    then obtain rq where "b_pending s = [rq]" and "rq_loop rq = MountLoop True"
      using P by (cases "b_pending s") auto
    then show ?thesis by (simp add: cancel_ref_def)
  qed
  show ?thesis
    using u loops cancel_ref_ids [OF inv] inv by (simp add: blossom_inv_def cancel_ref_def)
qed

lemma blossom_reachable_inv: "blossom_reachable s \<Longrightarrow> blossom_inv s"
  by (induction rule: blossom_reachable.induct)
    (simp_all add: blossom_inv_mount blossom_inv_frame blossom_inv_intersect blossom_inv_resize
      blossom_inv_unmount)


section \<open>Petals stay well-formed\<close>

lemma blossom_petals_unchanged [simp]:
  "b_petals (cancel_ref s) = b_petals s" "b_petals (visibility_effect s) = b_petals s"
  "b_petals (blossom_intersect b s) = b_petals s" "b_petals (blossom_resize iw ih s) = b_petals s"
  "b_petals (blossom_unmount s) = b_petals s"
  by (simp_all add: cancel_ref_def visibility_effect_def blossom_intersect_def blossom_resize_def
      blossom_unmount_def)

lemma frame_fold_petals_length:
  "length (b_petals (foldl (\<lambda>s (k, rq). fire t (rnd k) s rq) s (enumerate k rqs))) = length (b_petals s)"
proof (induction rqs arbitrary: s k)
  case (Cons rq rqs)
  have "length (b_petals (fire t (rnd k) s rq)) = length (b_petals s)"
    by (cases "rq_loop rq") (simp_all add: fire_def animate_body_def Let_def split: prod.split)
  with Cons.IH show ?case by simp
qed simp

lemma blossom_reachable_petals:
  "blossom_reachable s \<Longrightarrow> list_all petal_wf (b_petals s) \<and> length (b_petals s) \<in> {10, 15}"
proof (induction rule: blossom_reachable.induct)
  case (mount rnd iw ih)
  have "list_all petal_wf (petals_init iw iw rnd)" using mount by (rule petals_init_wf)
  moreover have "length (petals_init iw iw rnd) \<in> {10, 15}"
    by (simp add: petals_init_def petal_count_def)
  ultimately show ?case by (simp add: blossom_mount_def)
next
  case (frame s rnd t)
  then show ?case
    by (simp add: blossom_frame_def frame_fold_petals_wf frame_fold_petals_length)
qed simp_all

section \<open>A petal's fall ends\<close>

lemma frames_until_reset_bound:
  assumes "1 \<le> y_speed p" and "m = nat \<lceil>height - py p\<rceil>"
  shows "\<exists>k. frames_until_reset height p n = Some k \<and> n \<le> k \<and> k \<le> n + m
           \<and> py ((petal_update height width r ^^ Suc (k - n)) p) = -20"
  using assms
proof (induction m arbitrary: p n rule: less_induct)
  case (less m)
  show ?case
  proof (cases "height < py p + y_speed p")
    case True
    then have "frames_until_reset height p n = Some n"
      by (simp add: frames_until_reset.simps)
    with True show ?thesis by (simp add: petal_update_def Let_def)
  next
    case False
    let ?q = "petal_move p"
    have step: "frames_until_reset height p n = frames_until_reset height ?q (Suc n)"
      using False by (simp add: frames_until_reset.simps)
    have upd: "petal_update height width r p = ?q"
      using False by (simp add: petal_update_def Let_def)
    have "height - py ?q \<le> height - py p - 1" using less.prems(1) by simp
    then have lt: "nat \<lceil>height - py ?q\<rceil> < m"
      using False less.prems by linarith
    have "\<exists>k. frames_until_reset height ?q (Suc n) = Some k \<and> Suc n \<le> k
            \<and> k \<le> Suc n + nat \<lceil>height - py ?q\<rceil>
            \<and> py ((petal_update height width r ^^ Suc (k - Suc n)) ?q) = -20"
      using less.IH [OF lt, of ?q "Suc n"] less.prems(1) by simp
    then obtain k where k: "frames_until_reset height ?q (Suc n) = Some k" "Suc n \<le> k"
      "k \<le> Suc n + nat \<lceil>height - py ?q\<rceil>"
      "py ((petal_update height width r ^^ Suc (k - Suc n)) ?q) = -20"
      by auto
    have "Suc (k - n) = Suc (Suc (k - Suc n))" using k(2) by simp
    then have "(petal_update height width r ^^ Suc (k - n)) p
               = (petal_update height width r ^^ Suc (k - Suc n)) ?q"
      by (simp only: funpow_Suc_right comp_def upd)
    with k lt step show ?thesis by auto
  qed
qed

section \<open>The limiter\<close>

lemma js_rem_bounds:
  assumes "0 < b" "0 \<le> a"
  shows "0 \<le> js_rem a b \<and> js_rem a b < b \<and> a - js_rem a b = b * of_int \<lfloor>a / b\<rfloor>"
proof -
  have "b * of_int \<lfloor>a / b\<rfloor> \<le> b * (a / b)" using assms(1) by (intro mult_left_mono) simp_all
  then have lo: "b * of_int \<lfloor>a / b\<rfloor> \<le> a" using assms(1) by simp
  have "a / b < of_int \<lfloor>a / b\<rfloor> + 1" by (rule real_of_int_floor_add_one_gt)
  then have hi: "a < b * of_int \<lfloor>a / b\<rfloor> + b" using assms(1) by (simp add: pos_divide_less_eq algebra_simps)
  from lo hi have "b * of_int \<lfloor>a / b\<rfloor> \<le> a" "a < b * of_int \<lfloor>a / b\<rfloor> + b" .
  then show ?thesis using assms by (simp add: js_rem_def)
qed

lemma limiter_draw:
  assumes "frame_interval < current_time - last_time"
  shows "fst (limiter last_time current_time)
         \<and> last_time + frame_interval \<le> snd (limiter last_time current_time)
         \<and> current_time - frame_interval < snd (limiter last_time current_time)
         \<and> snd (limiter last_time current_time) \<le> current_time"
proof -
  let ?d = "current_time - last_time" and ?fi = frame_interval
  have fi: "0 < ?fi" by (simp add: frame_interval_def)
  with assms have d: "0 \<le> ?d" by simp
  from js_rem_bounds [OF fi d]
  have r: "0 \<le> js_rem ?d ?fi" "js_rem ?d ?fi < ?fi" "?d - js_rem ?d ?fi = ?fi * of_int \<lfloor>?d / ?fi\<rfloor>"
    by auto
  have "1 \<le> ?d / ?fi" using assms fi by simp
  then have "1 \<le> \<lfloor>?d / ?fi\<rfloor>" by linarith
  then have "?fi \<le> ?fi * of_int \<lfloor>?d / ?fi\<rfloor>" using fi by simp
  with r have "last_time + ?fi \<le> current_time - js_rem ?d ?fi"
    and "current_time - ?fi < current_time - js_rem ?d ?fi"
    and "current_time - js_rem ?d ?fi \<le> current_time" by linarith+
  with assms show ?thesis by (simp add: limiter_def Let_def)
qed

lemma limiter_no_draw:
  "\<not> frame_interval < current_time - last_time \<Longrightarrow> limiter last_time current_time = (False, last_time)"
  by (simp add: limiter_def Let_def)

lemma limiter_count:
  "of_nat (length (filter (limiter_draws t) [0..<k])) * frame_interval \<le> limiter_last t k"
proof (induction k)
  case (Suc k)
  show ?case
  proof (cases "frame_interval < t k - limiter_last t k")
    case True
    with limiter_draw [OF True] Suc.IH show ?thesis
      by (simp add: limiter_draws_def algebra_simps)
  next
    case False
    with Suc.IH show ?thesis by (simp add: limiter_draws_def limiter_no_draw)
  qed
qed simp

lemma limiter_last_le:
  "mono t \<Longrightarrow> limiter_last t (Suc k) \<le> max 0 (t k)"
proof (induction k)
  case 0
  show ?case
    using limiter_draw [of "t 0" 0] limiter_no_draw [of "t 0" 0]
    by (cases "frame_interval < t 0 - 0") auto
next
  case (Suc k)
  have "t k \<le> t (Suc k)" using Suc.prems by (simp add: mono_def)
  then show ?case using Suc
    by (cases "frame_interval < t (Suc k) - limiter_last t (Suc k)")
      (auto dest: limiter_draw simp: limiter_no_draw)
qed

lemma limiter_stalls:
  assumes "\<forall>j \<ge> k. \<not> limiter_draws t j"
  shows "j \<ge> k \<Longrightarrow> limiter_last t j = limiter_last t k"
proof (induction j)
  case (Suc j)
  show ?case
  proof (cases "Suc j = k")
    case False
    with Suc.prems have "k \<le> j" by simp
    with assms have "\<not> limiter_draws t j" by simp
    then have "limiter_last t (Suc j) = limiter_last t j"
      by (simp add: limiter_draws_def limiter_def Let_def split: if_splits)
    with Suc.IH \<open>k \<le> j\<close> show ?thesis by simp
  qed simp
qed simp


section \<open>Properties of the petal animation\<close>

text \<open>
  C31. In every state of the component each petal has the field ranges the constructor
  gives (size in [2, 6), horizontal speed in [-1, 1), vertical speed in [1, 2), rotation speed
  in [-1, 1)) and is never above \<open>y = -20\<close>; there are 10 petals on a window narrower than
  768 pixels and 15 otherwise, and frames keep their number.
\<close>

theorem blossom_petals_wf:
  "blossom_reachable s \<Longrightarrow> list_all petal_wf (b_petals s) \<and> length (b_petals s) \<in> {10, 15}"
  by (rule blossom_reachable_petals)

theorem blossom_petals_wf_witness:
  "list_all petal_wf (b_petals (blossom_mount 1000 800 (\<lambda>i j. 0)))
   \<and> length (b_petals (blossom_mount 1000 800 (\<lambda>i j. 0))) = 15"
proof -
  have "blossom_reachable (blossom_mount 1000 800 (\<lambda>i j. 0))"
    by (rule blossom_reachable.mount) (simp add: js_random_def)
  from blossom_petals_wf [OF this] show ?thesis
    by (simp add: blossom_mount_def petals_init_def petal_count_def)
qed

text \<open>
  C32. The animation is never paused: in every mounted state the mount effect's loop is
  scheduled, because its \<open>isVisible\<close> is the first render's and \<open>animationRef\<close> holds only
  the newest request; when the canvas is not visible it is the only loop, and when it is
  visible the visibility effect's loop runs beside it, so both update the petals.
\<close>

theorem blossom_loops:
  "blossom_reachable s \<Longrightarrow> b_mounted s \<Longrightarrow>
     map rq_loop (b_pending s) = MountLoop True # (if b_visible s then [VisibleLoop] else [])"
  using blossom_reachable_inv by (simp add: blossom_inv_def)

theorem blossom_loops_witness:
  "map rq_loop (b_pending (blossom_intersect False (blossom_mount 1000 800 (\<lambda>i j. 0)))) = [MountLoop True]"
proof -
  have m: "blossom_reachable (blossom_mount 1000 800 (\<lambda>i j. 0))"
    by (rule blossom_reachable.mount) (simp add: js_random_def)
  have r: "blossom_reachable (blossom_intersect False (blossom_mount 1000 800 (\<lambda>i j. 0)))"
    by (rule blossom_reachable.intersect [OF m]) (simp add: blossom_mount_def)
  have "b_mounted (blossom_intersect False (blossom_mount 1000 800 (\<lambda>i j. 0)))
        \<and> \<not> b_visible (blossom_intersect False (blossom_mount 1000 800 (\<lambda>i j. 0)))"
    by (simp add: blossom_mount_def blossom_intersect_def visibility_effect_def cancel_ref_def
        ref_truthy_def)
  with blossom_loops [OF r] show ?thesis by simp
qed

text \<open>The unmount cancels the visibility loop only: the mount loop outlives the component.\<close>

lemma blossom_unmount_leaks:
  "map rq_loop (b_pending (blossom_unmount (blossom_mount iw ih rnd))) = [MountLoop True]"
  by (simp add: blossom_unmount_def blossom_mount_def cancel_ref_def ref_truthy_def)

text \<open>
  C33. A falling petal returns to the top: for a well-formed petal the count of frames
  before \<open>update()\<close> resets it terminates, is at most \<open>\<lceil>height - y\<rceil>\<close>, and the update
  after that many frames puts the petal back at \<open>y = -20\<close>.
\<close>

theorem petal_fall_terminates:
  assumes "petal_wf p"
  shows "\<exists>k. frames_until_reset height p 0 = Some k \<and> k \<le> nat \<lceil>height - py p\<rceil>
           \<and> py ((petal_update height width r ^^ Suc k) p) = -20"
proof -
  have "1 \<le> y_speed p" using assms by (simp add: petal_wf_def)
  from frames_until_reset_bound [OF this refl, of height 0 width r] show ?thesis by auto
qed

theorem petal_fall_terminates_witness:
  "\<exists>k. frames_until_reset 0 (petal_new 1000 0 0 0 0 0 0) 0 = Some k \<and> k \<le> 20"
proof -
  have "petal_wf (petal_new 1000 0 0 0 0 0 0)" by (simp add: petal_wf_def petal_new_def)
  from petal_fall_terminates [OF this, of 0 1000 0] show ?thesis
    by (auto simp: petal_new_def)
qed

text \<open>
  C34. The frame limiter is live and caps the rate: with non-decreasing, unbounded frame
  timestamps a loop draws again after every call, and the frames drawn in the first
  \<open>k + 1\<close> calls are at most \<open>t k / 50\<close>, 20 per second.
\<close>

theorem frame_limiter_live:
  assumes "mono t" and "\<forall>x. \<exists>k. x < t k"
  shows "(\<forall>k. \<exists>j \<ge> k. limiter_draws t j)
         \<and> of_nat (length (filter (limiter_draws t) [0..<Suc k])) * frame_interval \<le> max 0 (t k)"
proof
  show "\<forall>k. \<exists>j \<ge> k. limiter_draws t j"
  proof (rule ccontr)
    assume "\<not> (\<forall>k. \<exists>j \<ge> k. limiter_draws t j)"
    then obtain k where stall: "\<forall>j \<ge> k. \<not> limiter_draws t j" by auto
    from assms(2) obtain j0 where j0: "limiter_last t k + frame_interval < t j0" by blast
    let ?j = "max j0 k"
    have "t j0 \<le> t ?j" using assms(1) by (rule monoD) simp
    moreover have "limiter_last t ?j = limiter_last t k" by (rule limiter_stalls [OF stall]) simp
    ultimately have "frame_interval < t ?j - limiter_last t ?j" using j0 by simp
    then have "fst (limiter (limiter_last t ?j) (t ?j))" by (rule limiter_draw [THEN conjunct1])
    then have "limiter_draws t ?j" by (simp only: limiter_draws_def)
    with stall show False by simp
  qed
  show "of_nat (length (filter (limiter_draws t) [0..<Suc k])) * frame_interval \<le> max 0 (t k)"
    using limiter_count [of t "Suc k"] limiter_last_le [OF assms(1), of k] by (rule order_trans)
qed

theorem frame_limiter_live_witness:
  "\<exists>j \<ge> 7. limiter_draws (\<lambda>k. 20 * real k) j"
proof -
  have m: "mono (\<lambda>k. 20 * real k)" by (simp add: mono_def)
  have u: "\<forall>x. \<exists>k. x < 20 * real k"
  proof
    fix x :: real
    obtain k where "x / 20 < real k" using reals_Archimedean2 by blast
    then show "\<exists>k. x < 20 * real k" by (intro exI [of _ k]) simp
  qed
  from frame_limiter_live [OF m u] show ?thesis by blast
qed

end
