(* ===== verification/Animations.thy ===== *)
theory Animations
  imports JsString Complex_Main
begin

text \<open>
  The two components with behaviour among the decorative ones. \<open>OpeningAnimation\<close> of
  \<open>src/components/opening-animation.tsx\<close>: an overlay shown on the first visit, hidden by
  a 2500 ms timer or at once when \<open>localStorage\<close> says the site was visited before.
  \<open>PerformanceOptimizer\<close> of \<open>src/components/performance-optimizer.tsx\<close>: classifies the
  device from \<open>navigator\<close> and sets classes and style properties on the document, and
  debounces the \<open>scrolling\<close> and \<open>resizing\<close> classes by 100 ms. Times are milliseconds
  as reals; \<open>localStorage\<close> is a map from keys to strings; the document is its class list
  and its style properties.
\<close>

section \<open>Opening animation\<close>

record opening_state =
  op_show :: bool
  op_timer :: bool

type_synonym storage = "string \<rightharpoonup> string"

text \<open>A stored string is truthy unless it is empty; \<open>getItem\<close> of a missing key is \<open>null\<close>.\<close>

definition js_truthy_str :: "string option \<Rightarrow> bool" where
  "js_truthy_str v = (case v of None \<Rightarrow> False | Some s \<Rightarrow> s \<noteq> [])"

text \<open>
  Mounting: the first render has \<open>show = true\<close>; the timer effect schedules
  \<open>setShow(false)\<close> after 2500 ms; the visit effect reads \<open>hasVisitedBefore\<close> and hides
  the overlay when it is set, and sets it otherwise.
\<close>

definition opening_mount :: "storage \<Rightarrow> opening_state \<times> storage" where
  "opening_mount st =
     (let s = \<lparr>op_show = True, op_timer = True\<rparr>
      in if js_truthy_str (st ''hasVisitedBefore'') then (s\<lparr>op_show := False\<rparr>, st)
         else (s, st(''hasVisitedBefore'' \<mapsto> ''true'')))"

definition opening_timer_fires :: "opening_state \<Rightarrow> opening_state" where
  "opening_timer_fires s = (if op_timer s then s\<lparr>op_show := False, op_timer := False\<rparr> else s)"

definition opening_unmount :: "opening_state \<Rightarrow> opening_state" where
  "opening_unmount s = s\<lparr>op_timer := False\<rparr>"

text \<open>
  What is rendered: nothing once \<open>show\<close> is false, since the component returns
  \<open>null\<close> before its \<open>AnimatePresence\<close>; the overlay otherwise.
\<close>

definition opening_renders_overlay :: "opening_state \<Rightarrow> bool" where
  "opening_renders_overlay s = op_show s"

section \<open>Performance optimizer\<close>

text \<open>\<open>navigator.deviceMemory\<close> and \<open>navigator.hardwareConcurrency\<close>, possibly undefined.\<close>

record device =
  device_memory :: "real option"
  hardware_concurrency :: "nat option"
  user_agent :: string

definition mobile_tokens :: "string list" where
  "mobile_tokens = [''Android'', ''webOS'', ''iPhone'', ''iPad'', ''iPod'', ''BlackBerry'', ''IEMobile'', ''Opera Mini'']"

text \<open>
  \<open>/Android|webOS|...|Opera Mini/i.test(ua)\<close>: some alternative occurs in \<open>ua\<close> up to case;
  the alternatives are ASCII, on which the regular expression's case folding is lower-casing.
\<close>

definition is_mobile_ua :: "string \<Rightarrow> bool" where
  "is_mobile_ua ua = list_ex (\<lambda>tok. js_includes (js_to_lower ua) (js_to_lower tok)) mobile_tokens"

text \<open>\<open>x && x < n\<close> for a possibly undefined number: defined, non-zero and below \<open>n\<close>.\<close>

definition below_mem :: "real option \<Rightarrow> real \<Rightarrow> bool" where
  "below_mem v n = (case v of None \<Rightarrow> False | Some x \<Rightarrow> x \<noteq> 0 \<and> x < n)"

definition below_cores :: "nat option \<Rightarrow> nat \<Rightarrow> bool" where
  "below_cores v n = (case v of None \<Rightarrow> False | Some x \<Rightarrow> x \<noteq> 0 \<and> x < n)"

definition check_performance :: "device \<Rightarrow> bool" where
  "check_performance d =
     (if below_mem (device_memory d) 4 then True
      else if below_cores (hardware_concurrency d) 4 then True
      else is_mobile_ua (user_agent d))"

record page_doc =
  body_classes :: "string list"
  style_props :: "string \<rightharpoonup> string"
  low_perf_mode :: bool
  scroll_timer :: "real option"
  resize_timer :: "real option"

definition class_add :: "string list \<Rightarrow> string \<Rightarrow> string list" where
  "class_add cs c = (if c \<in> set cs then cs else cs @ [c])"

definition class_remove :: "string list \<Rightarrow> string \<Rightarrow> string list" where
  "class_remove cs c = filter (\<lambda>x. x \<noteq> c) cs"

text \<open>The mount effect's classification and its changes to the document.\<close>

definition optimizer_mount :: "device \<Rightarrow> page_doc \<Rightarrow> page_doc" where
  "optimizer_mount d doc =
     (let is_low_end = check_performance d;
          doc1 = doc\<lparr>low_perf_mode := is_low_end\<rparr>
      in if is_low_end then
           (let doc2 = doc1\<lparr>body_classes := class_add (body_classes doc1) ''low-performance-mode'',
                            style_props := (style_props doc1)(''--animation-duration-factor'' \<mapsto> ''2'')\<rparr>
            in if below_mem (device_memory d) 2 \<or> below_cores (hardware_concurrency d) 2
               then doc2\<lparr>style_props := (style_props doc2)(''--disable-blur'' \<mapsto> ''none'')\<rparr>
               else doc2)
         else doc1)"

text \<open>
  The listeners, at time \<open>now\<close>: a scroll or resize adds its class and replaces its timer
  by one due 100 ms later; a due timer removes the class; \<open>visibilitychange\<close> follows
  \<open>document.hidden\<close>.
\<close>

definition handle_scroll :: "real \<Rightarrow> page_doc \<Rightarrow> page_doc" where
  "handle_scroll now doc =
     doc\<lparr>body_classes := class_add (body_classes doc) ''scrolling'', scroll_timer := Some (now + 100)\<rparr>"

definition handle_resize_doc :: "real \<Rightarrow> page_doc \<Rightarrow> page_doc" where
  "handle_resize_doc now doc =
     doc\<lparr>body_classes := class_add (body_classes doc) ''resizing'', resize_timer := Some (now + 100)\<rparr>"

definition handle_visibility_change :: "bool \<Rightarrow> page_doc \<Rightarrow> page_doc" where
  "handle_visibility_change hidden doc =
     doc\<lparr>body_classes := (if hidden then class_add (body_classes doc) ''page-hidden''
                          else class_remove (body_classes doc) ''page-hidden'')\<rparr>"

definition timers_tick :: "real \<Rightarrow> page_doc \<Rightarrow> page_doc" where
  "timers_tick now doc =
     (let doc1 = (case scroll_timer doc of
                    Some due \<Rightarrow> if due \<le> now then doc\<lparr>body_classes := class_remove (body_classes doc) ''scrolling'',
                                                      scroll_timer := None\<rparr> else doc
                  | None \<Rightarrow> doc)
      in case resize_timer doc1 of
           Some due \<Rightarrow> if due \<le> now then doc1\<lparr>body_classes := class_remove (body_classes doc1) ''resizing'',
                                             resize_timer := None\<rparr> else doc1
         | None \<Rightarrow> doc1)"

datatype doc_event = Scroll real | Resize real | VisibilityChange bool | Tick real

definition doc_step :: "page_doc \<Rightarrow> doc_event \<Rightarrow> page_doc" where
  "doc_step doc e =
     (case e of
        Scroll now \<Rightarrow> handle_scroll now doc
      | Resize now \<Rightarrow> handle_resize_doc now doc
      | VisibilityChange hidden \<Rightarrow> handle_visibility_change hidden doc
      | Tick now \<Rightarrow> timers_tick now doc)"


section \<open>Lemmas\<close>

lemma below_mem_mono: "below_mem v m \<Longrightarrow> m \<le> n \<Longrightarrow> below_mem v n"
  by (auto simp: below_mem_def split: option.splits)

lemma below_cores_mono: "below_cores v m \<Longrightarrow> m \<le> n \<Longrightarrow> below_cores v n"
  by (auto simp: below_cores_def split: option.splits)

lemma class_add_set [simp]: "set (class_add cs c) = insert c (set cs)"
  by (auto simp: class_add_def)

lemma class_remove_set [simp]: "set (class_remove cs c) = set cs - {c}"
  by (auto simp: class_remove_def)

lemma check_performance_iff:
  "check_performance d \<longleftrightarrow>
     below_mem (device_memory d) 4 \<or> below_cores (hardware_concurrency d) 4 \<or> is_mobile_ua (user_agent d)"
  by (simp add: check_performance_def)

lemma optimizer_mount_blur:
  "style_props (optimizer_mount d doc) ''--disable-blur'' =
     (if below_mem (device_memory d) 2 \<or> below_cores (hardware_concurrency d) 2 then Some ''none''
      else style_props doc ''--disable-blur'')"
proof (cases "below_mem (device_memory d) 2 \<or> below_cores (hardware_concurrency d) 2")
  case True
  then have "check_performance d"
    using below_mem_mono [of _ 2 4] below_cores_mono [of _ 2 4] by (auto simp: check_performance_iff)
  with True show ?thesis by (simp add: optimizer_mount_def Let_def)
next
  case False
  then show ?thesis by (simp add: optimizer_mount_def Let_def)
qed

lemma timers_tick_scrolling:
  "scroll_timer doc = Some due \<Longrightarrow> ''scrolling'' \<in> set (body_classes doc) \<Longrightarrow>
     ''scrolling'' \<in> set (body_classes (timers_tick now doc)) \<longleftrightarrow> now < due"
  by (auto simp: timers_tick_def Let_def split: option.splits)

section \<open>Properties\<close>

text \<open>
  C35. The opening overlay is shown on a first visit only and always goes away: mounting
  sets \<open>hasVisitedBefore\<close>; the overlay stays after mounting exactly when the flag was not
  set before; the 2500 ms timer, which mounting schedules, hides it; and the next visit, which
  finds the flag, does not show it.
\<close>

theorem opening_overlay_hides:
  "js_truthy_str (snd (opening_mount st) ''hasVisitedBefore'')
   \<and> (opening_renders_overlay (fst (opening_mount st)) \<longleftrightarrow> \<not> js_truthy_str (st ''hasVisitedBefore''))
   \<and> op_timer (fst (opening_mount st))
   \<and> \<not> opening_renders_overlay (opening_timer_fires (fst (opening_mount st)))
   \<and> \<not> opening_renders_overlay (fst (opening_mount (snd (opening_mount st))))"
  by (simp add: opening_mount_def opening_timer_fires_def opening_renders_overlay_def js_truthy_str_def
      Let_def split: option.splits)

text \<open>
  C36. The optimizer calls a device low-end when it has less than 4 GB of memory, fewer than
  4 cores, or a mobile user agent, and disables blur exactly when it has less than 2 GB or
  fewer than 2 cores; the \<open>scrolling\<close> class a scroll adds stays until its timer, 100 ms
  later, and a tick from then on removes it.
\<close>

theorem optimizer_spec:
  "(low_perf_mode (optimizer_mount d doc) \<longleftrightarrow>
      below_mem (device_memory d) 4 \<or> below_cores (hardware_concurrency d) 4 \<or> is_mobile_ua (user_agent d))
   \<and> style_props (optimizer_mount d doc) ''--disable-blur'' =
      (if below_mem (device_memory d) 2 \<or> below_cores (hardware_concurrency d) 2 then Some ''none''
       else style_props doc ''--disable-blur'')
   \<and> ''scrolling'' \<in> set (body_classes (handle_scroll now doc))
   \<and> (''scrolling'' \<in> set (body_classes (timers_tick later (handle_scroll now doc))) \<longleftrightarrow> later < now + 100)"
proof -
  have "low_perf_mode (optimizer_mount d doc) = check_performance d"
    by (simp add: optimizer_mount_def Let_def)
  moreover have "''scrolling'' \<in> set (body_classes (timers_tick later (handle_scroll now doc)))
                 \<longleftrightarrow> later < now + 100"
    by (rule timers_tick_scrolling) (simp_all add: handle_scroll_def)
  ultimately show ?thesis
    by (simp add: check_performance_iff optimizer_mount_blur handle_scroll_def)
qed

end
