(* ===== verification/Titles.thy ===== *)
theory Titles
  imports CherryBlossoms
begin

text \<open>
  The decorative titles of \<open>src/components/\<close>: \<open>Animated3DTitle\<close>
  (\<open>animated-3d-title.tsx\<close>), which tilts towards the pointer while hovered, and
  \<open>StylizedTitle\<close> (\<open>stylized-title.tsx\<close>) and \<open>GothicTitle\<close> (\<open>gothic-title.tsx\<close>),
  which shift with the pointer's offset from the window centre. Numbers are exact reals.
  For \<open>Animated3DTitle\<close>, React's asynchronous state updates are explicit: a
  \<open>setState\<close> only queues a value (\<open>t3_pend_hover\<close>, \<open>t3_pend_mouse\<close>), and the
  event \<open>Commit\<close> re-renders, runs the effect cleanups and re-runs the effects whose
  dependencies changed. Browser events and animation frames are further events, so an
  execution is a list of events folded over the state.
\<close>

section \<open>Animated3DTitle\<close>

record rect =
  r_left :: real
  r_top :: real
  r_width :: real
  r_height :: real

record t3_state =
  t3_hover :: bool
  t3_mouse :: "real \<times> real"
  t3_pend_hover :: "bool option"
  t3_pend_mouse :: "(real \<times> real) option"
  t3_req :: bool
  t3_transform :: "(real \<times> real) option"

definition t3_init :: t3_state where
  "t3_init = \<lparr>t3_hover = False, t3_mouse = (0, 0), t3_pend_hover = None, t3_pend_mouse = None,
     t3_req = False, t3_transform = None\<rparr>"

definition t3_rotation :: "rect \<Rightarrow> real \<times> real \<Rightarrow> real \<times> real" where
  "t3_rotation r m =
     (let x = fst m - r_left r; y = snd m - r_top r;
          centerX = r_width r / 2; centerY = r_height r / 2
      in ((y - centerY) / 20, (centerX - x) / 20))"

definition t3_mouse_enter :: "t3_state \<Rightarrow> t3_state" where
  "t3_mouse_enter s = s\<lparr>t3_pend_hover := Some True\<rparr>"

definition t3_mouse_leave :: "t3_state \<Rightarrow> t3_state" where
  "t3_mouse_leave s = s\<lparr>t3_pend_hover := Some False, t3_transform := Some (0, 0)\<rparr>"

definition t3_mouse_move :: "real \<Rightarrow> real \<Rightarrow> t3_state \<Rightarrow> t3_state" where
  "t3_mouse_move x y s = (if t3_hover s then s\<lparr>t3_pend_mouse := Some (x, y)\<rparr> else s)"

definition t3_commit :: "t3_state \<Rightarrow> t3_state" where
  "t3_commit s =
     (let h = (case t3_pend_hover s of Some b \<Rightarrow> b | None \<Rightarrow> t3_hover s);
          m = (case t3_pend_mouse s of Some p \<Rightarrow> p | None \<Rightarrow> t3_mouse s);
          changed = (h \<noteq> t3_hover s \<or> m \<noteq> t3_mouse s)
      in s\<lparr>t3_hover := h, t3_mouse := m, t3_pend_hover := None, t3_pend_mouse := None,
           t3_req := (if changed then h else t3_req s)\<rparr>)"

definition t3_frame :: "rect \<Rightarrow> t3_state \<Rightarrow> t3_state" where
  "t3_frame r s = (if t3_req s then s\<lparr>t3_transform := Some (t3_rotation r (t3_mouse s))\<rparr> else s)"

datatype t3_event = Enter | Leave | Move real real | Commit | Frame

fun t3_step :: "rect \<Rightarrow> t3_event \<Rightarrow> t3_state \<Rightarrow> t3_state" where
  "t3_step r Enter s = t3_mouse_enter s"
| "t3_step r Leave s = t3_mouse_leave s"
| "t3_step r (Move x y) s = t3_mouse_move x y s"
| "t3_step r Commit s = t3_commit s"
| "t3_step r Frame s = t3_frame r s"

definition t3_run :: "rect \<Rightarrow> t3_event list \<Rightarrow> t3_state \<Rightarrow> t3_state" where
  "t3_run r es s = fold (t3_step r) es s"

inductive t3_reachable :: "rect \<Rightarrow> t3_state \<Rightarrow> bool" for r where
  init: "t3_reachable r t3_init"
| step: "t3_reachable r s \<Longrightarrow> t3_reachable r (t3_step r e s)"

definition t3_inv :: "t3_state \<Rightarrow> bool" where
  "t3_inv s \<longleftrightarrow> t3_req s = t3_hover s \<and> (\<not> t3_hover s \<longrightarrow> t3_pend_mouse s = None)"

section \<open>StylizedTitle\<close>

record st_state =
  st_mouse :: "real \<times> real"
  st_window :: "real \<times> real"

definition st_init :: st_state where
  "st_init = \<lparr>st_mouse = (0, 0), st_window = (0, 0)\<rparr>"

definition st_mount :: "real \<Rightarrow> real \<Rightarrow> st_state \<Rightarrow> st_state" where
  "st_mount w h s = s\<lparr>st_window := (w, h)\<rparr>"

definition st_mouse_move :: "real \<Rightarrow> real \<Rightarrow> st_state \<Rightarrow> st_state" where
  "st_mouse_move x y s = s\<lparr>st_mouse := (x, y)\<rparr>"

definition st_resize :: "real \<Rightarrow> real \<Rightarrow> st_state \<Rightarrow> st_state" where
  "st_resize w h s = s\<lparr>st_window := (w, h)\<rparr>"

definition calc_parallax :: "st_state \<Rightarrow> real \<Rightarrow> real \<times> real" where
  "calc_parallax s depth =
     ((fst (st_mouse s) - fst (st_window s) / 2) / depth,
      (snd (st_mouse s) - snd (st_window s) / 2) / depth)"

record particle =
  pt_id :: nat
  pt_size :: real
  pt_x :: real
  pt_y :: real
  pt_duration :: real
  pt_delay :: real

definition st_particles :: "(nat \<Rightarrow> real) \<Rightarrow> particle list" where
  "st_particles rnd =
     map (\<lambda>i. \<lparr>pt_id = i, pt_size = rnd (5 * i) * 4 + 2, pt_x = rnd (5 * i + 1) * 100,
               pt_y = rnd (5 * i + 2) * 100, pt_duration = rnd (5 * i + 3) * 20 + 10,
               pt_delay = rnd (5 * i + 4) * 5\<rparr>) [0..<20]"

definition particle_wf :: "particle \<Rightarrow> bool" where
  "particle_wf p \<longleftrightarrow> 2 \<le> pt_size p \<and> pt_size p < 6 \<and> 0 \<le> pt_x p \<and> pt_x p < 100
     \<and> 0 \<le> pt_y p \<and> pt_y p < 100 \<and> 10 \<le> pt_duration p \<and> pt_duration p < 30
     \<and> 0 \<le> pt_delay p \<and> pt_delay p < 5"

record st_view =
  sv_title :: "real \<times> real"
  sv_subtitle :: "real \<times> real"
  sv_particles :: "particle list"

definition st_render :: "st_state \<Rightarrow> (nat \<Rightarrow> real) \<Rightarrow> st_view" where
  "st_render s rnd =
     \<lparr>sv_title = calc_parallax s 20, sv_subtitle = calc_parallax s 10,
      sv_particles = st_particles rnd\<rparr>"

section \<open>GothicTitle\<close>

definition gothic_mouse_move :: "real \<Rightarrow> real \<Rightarrow> real \<Rightarrow> real \<Rightarrow> real \<times> real" where
  "gothic_mouse_move iw ih cx cy = ((cx - iw / 2) / 50, (cy - ih / 2) / 50)"

definition gothic_cats :: "real \<times> real \<Rightarrow> ((real \<times> real) \<times> (real \<times> real)) list" where
  "gothic_cats m =
     map (\<lambda>i. ((fst m * (real i + 1) * 0.5, snd m * (real i + 1) * 0.5),
               (20 + real i * 15, 30 + real (i mod 3) * 10))) [0..<5]"

record gothic_view =
  gv_cats :: "((real \<times> real) \<times> (real \<times> real)) list"
  gv_stars :: "(real \<times> real) list"
  gv_title :: "real \<times> real"
  gv_subtitle :: "real \<times> real"

definition gothic_render :: "real \<times> real \<Rightarrow> (nat \<Rightarrow> real) \<Rightarrow> gothic_view" where
  "gothic_render m rnd =
     \<lparr>gv_cats = gothic_cats m,
      gv_stars = map (\<lambda>i. (rnd (2 * i) * 100, rnd (2 * i + 1) * 100)) [0..<10],
      gv_title = m, gv_subtitle = (fst m * 1.5, snd m * 1.5)\<rparr>"

section \<open>Properties\<close>

lemma t3_inv_init: "t3_inv t3_init"
  by (simp add: t3_inv_def t3_init_def)

lemma t3_inv_step: "t3_inv s \<Longrightarrow> t3_inv (t3_step r e s)"
  by (cases e) (auto simp: t3_inv_def t3_mouse_enter_def t3_mouse_leave_def t3_mouse_move_def
      t3_commit_def t3_frame_def Let_def split: option.splits)

lemma t3_reachable_inv: "t3_reachable r s \<Longrightarrow> t3_inv s"
  by (induction rule: t3_reachable.induct) (simp_all add: t3_inv_init t3_inv_step)

lemma t3_run_Cons [simp]: "t3_run r (e # es) s = t3_run r es (t3_step r e s)"
  by (simp add: t3_run_def)

lemma t3_run_Nil [simp]: "t3_run r [] s = s"
  by (simp add: t3_run_def)

lemma t3_reachable_run: "t3_reachable r s \<Longrightarrow> t3_reachable r (t3_run r es s)"
  by (induction es arbitrary: s) (simp_all add: t3_reachable.step)

lemma half_dev_bound:
  fixes a x w :: real
  assumes "a \<le> x" "x \<le> a + w"
  shows "\<bar>x - a - w / 2\<bar> \<le> w / 2"
  unfolding abs_le_iff using assms by linarith

lemma t3_rotation_bound:
  assumes "r_left r \<le> x" "x \<le> r_left r + r_width r" "r_top r \<le> y" "y \<le> r_top r + r_height r"
  shows "\<bar>fst (t3_rotation r (x, y))\<bar> \<le> r_height r / 40 \<and> \<bar>snd (t3_rotation r (x, y))\<bar> \<le> r_width r / 40"
proof -
  have a: "\<bar>y - r_top r - r_height r / 2\<bar> \<le> r_height r / 2"
    by (rule half_dev_bound [OF assms(3,4)])
  have b: "\<bar>r_width r / 2 - (x - r_left r)\<bar> \<le> r_width r / 2"
    using half_dev_bound [OF assms(1,2)] by (simp add: abs_minus_commute)
  show ?thesis
    unfolding t3_rotation_def Let_def fst_conv snd_conv abs_divide abs_numeral
    using divide_right_mono [OF a, of 20] divide_right_mono [OF b, of 20] by simp
qed

lemma parallax_bound:
  fixes m w d :: real
  assumes "0 \<le> m" "m \<le> w" "0 < d"
  shows "\<bar>(m - w / 2) / d\<bar> \<le> w / (2 * d)"
proof -
  have "\<bar>m - w / 2\<bar> \<le> w / 2" using half_dev_bound [of 0 m w] assms by simp
  then have "\<bar>m - w / 2\<bar> / d \<le> (w / 2) / d"
    using assms(3) by (intro divide_right_mono) simp_all
  then show ?thesis using assms(3) by (simp add: abs_divide)
qed

lemma calc_parallax_bound:
  assumes "0 \<le> fst (st_mouse s)" "fst (st_mouse s) \<le> fst (st_window s)"
    "0 \<le> snd (st_mouse s)" "snd (st_mouse s) \<le> snd (st_window s)" "0 < d"
  shows "\<bar>fst (calc_parallax s d)\<bar> \<le> fst (st_window s) / (2 * d)
       \<and> \<bar>snd (calc_parallax s d)\<bar> \<le> snd (st_window s) / (2 * d)"
  using parallax_bound [OF assms(1,2,5)] parallax_bound [OF assms(3,4,5)]
  by (simp add: calc_parallax_def)

lemma gothic_cat_bound:
  fixes o' w :: real
  assumes "\<bar>o'\<bar> \<le> w / 100" "i < 5"
  shows "\<bar>o' * (real i + 1) * 0.5\<bar> \<le> w / 40"
proof -
  have "\<bar>o' * (real i + 1) * 0.5\<bar> = \<bar>o'\<bar> * (real i + 1) / 2" by (simp add: abs_mult)
  also have "\<dots> \<le> (w / 100) * 5 / 2"
    using assms by (intro divide_right_mono mult_mono) simp_all
  finally show ?thesis by simp
qed

lemma gothic_offset_bound:
  fixes c w :: real
  assumes "0 \<le> c" "c \<le> w"
  shows "\<bar>(c - w / 2) / 50\<bar> \<le> w / 100"
  using parallax_bound [of c w 50] assms by simp

text \<open>
  C37. The titles stay within fixed bounds of their rest position: with the pointer inside the
  3D title's box the tilt is at most a fortieth of its height and width (in degrees); with the
  pointer inside the window the stylized title moves at most a fortieth of the window's width
  and height and its subtitle a twentieth; and the gothic title's cats move at most a fortieth
  of the window's size.
\<close>

theorem title_offsets_bounded:
  "(r_left r \<le> x \<and> x \<le> r_left r + r_width r \<and> r_top r \<le> y \<and> y \<le> r_top r + r_height r \<longrightarrow>
      \<bar>fst (t3_rotation r (x, y))\<bar> \<le> r_height r / 40 \<and> \<bar>snd (t3_rotation r (x, y))\<bar> \<le> r_width r / 40)
   \<and> (0 \<le> fst (st_mouse s) \<and> fst (st_mouse s) \<le> fst (st_window s)
      \<and> 0 \<le> snd (st_mouse s) \<and> snd (st_mouse s) \<le> snd (st_window s) \<longrightarrow>
      \<bar>fst (sv_title (st_render s rnd))\<bar> \<le> fst (st_window s) / 40
      \<and> \<bar>snd (sv_title (st_render s rnd))\<bar> \<le> snd (st_window s) / 40
      \<and> \<bar>fst (sv_subtitle (st_render s rnd))\<bar> \<le> fst (st_window s) / 20
      \<and> \<bar>snd (sv_subtitle (st_render s rnd))\<bar> \<le> snd (st_window s) / 20)
   \<and> (0 \<le> cx \<and> cx \<le> iw \<and> 0 \<le> cy \<and> cy \<le> ih \<longrightarrow>
      list_all (\<lambda>(off, pos). \<bar>fst off\<bar> \<le> iw / 40 \<and> \<bar>snd off\<bar> \<le> ih / 40)
        (gv_cats (gothic_render (gothic_mouse_move iw ih cx cy) rnd')))"
proof (intro conjI impI)
  show "\<bar>fst (t3_rotation r (x, y))\<bar> \<le> r_height r / 40" "\<bar>snd (t3_rotation r (x, y))\<bar> \<le> r_width r / 40"
    if "r_left r \<le> x \<and> x \<le> r_left r + r_width r \<and> r_top r \<le> y \<and> y \<le> r_top r + r_height r"
    using t3_rotation_bound that by blast+
next
  assume m: "0 \<le> fst (st_mouse s) \<and> fst (st_mouse s) \<le> fst (st_window s)
      \<and> 0 \<le> snd (st_mouse s) \<and> snd (st_mouse s) \<le> snd (st_window s)"
  have "\<bar>fst (calc_parallax s 20)\<bar> \<le> fst (st_window s) / (2 * 20) \<and> \<bar>snd (calc_parallax s 20)\<bar> \<le> snd (st_window s) / (2 * 20)"
       "\<bar>fst (calc_parallax s 10)\<bar> \<le> fst (st_window s) / (2 * 10) \<and> \<bar>snd (calc_parallax s 10)\<bar> \<le> snd (st_window s) / (2 * 10)"
    using m by (intro calc_parallax_bound; simp)+
  then show "\<bar>fst (sv_title (st_render s rnd))\<bar> \<le> fst (st_window s) / 40"
      "\<bar>snd (sv_title (st_render s rnd))\<bar> \<le> snd (st_window s) / 40"
      "\<bar>fst (sv_subtitle (st_render s rnd))\<bar> \<le> fst (st_window s) / 20"
      "\<bar>snd (sv_subtitle (st_render s rnd))\<bar> \<le> snd (st_window s) / 20"
    by (simp_all add: st_render_def)
next
  assume c: "0 \<le> cx \<and> cx \<le> iw \<and> 0 \<le> cy \<and> cy \<le> ih"
  then have bx: "\<bar>(cx - iw / 2) / 50\<bar> \<le> iw / 100" and by': "\<bar>(cy - ih / 2) / 50\<bar> \<le> ih / 100"
    using gothic_offset_bound [of cx iw] gothic_offset_bound [of cy ih] by simp_all
  show "list_all (\<lambda>(off, pos). \<bar>fst off\<bar> \<le> iw / 40 \<and> \<bar>snd off\<bar> \<le> ih / 40)
        (gv_cats (gothic_render (gothic_mouse_move iw ih cx cy) rnd'))"
    using gothic_cat_bound [OF bx] gothic_cat_bound [OF by']
    by (simp add: gothic_render_def gothic_cats_def gothic_mouse_move_def list_all_iff)
qed

text \<open>
  C38. The order of events decides where the 3D title rests. From any reachable hovered state,
  leaving and then committing resets the transform and stops the animation loop; but if an
  animation frame runs between the leave handler and React's commit, the frame overwrites the
  reset with the tilt of the last pointer position, the loop is cancelled, and later frames and
  pointer moves leave the title tilted. From any reachable unhovered state, entering, moving the
  pointer before the commit, and the first frame tilt the title towards the stale position: the
  move is dropped because the listener still sees the old hover value.
\<close>

theorem t3_event_orders:
  assumes reach: "t3_reachable r s"
  shows "(t3_hover s \<longrightarrow>
            t3_transform (t3_run r [Leave, Commit] s) = Some (0, 0)
          \<and> \<not> t3_req (t3_run r [Leave, Commit] s)
          \<and> \<not> t3_hover (t3_run r [Leave, Frame, Commit] s)
          \<and> \<not> t3_req (t3_run r [Leave, Frame, Commit] s)
          \<and> t3_transform (t3_run r [Leave, Frame, Commit] s) = Some (t3_rotation r (t3_mouse s))
          \<and> t3_step r Frame (t3_run r [Leave, Frame, Commit] s) = t3_run r [Leave, Frame, Commit] s
          \<and> t3_step r (Move x y) (t3_run r [Leave, Frame, Commit] s) = t3_run r [Leave, Frame, Commit] s)
       \<and> (\<not> t3_hover s \<longrightarrow>
            t3_mouse (t3_run r [Enter, Move x y, Commit, Frame] s) = t3_mouse s
          \<and> t3_transform (t3_run r [Enter, Move x y, Commit, Frame] s) = Some (t3_rotation r (t3_mouse s)))"
proof -
  have inv: "t3_inv s" by (rule t3_reachable_inv [OF reach])
  show ?thesis
    using inv by (auto simp: t3_inv_def t3_mouse_enter_def t3_mouse_leave_def t3_mouse_move_def
        t3_commit_def t3_frame_def Let_def)
qed

theorem t3_event_orders_witness:
  "t3_transform (t3_run (\<lparr>r_left = 100, r_top = 50, r_width = 400, r_height = 80\<rparr> :: rect) [Leave, Frame, Commit]
      (t3_run (\<lparr>r_left = 100, r_top = 50, r_width = 400, r_height = 80\<rparr> :: rect) [Enter, Commit] t3_init))
     = Some (- 9 / 2, 15)
   \<and> t3_transform (t3_run (\<lparr>r_left = 100, r_top = 50, r_width = 400, r_height = 80\<rparr> :: rect)
       [Enter, Move 300 90, Commit, Frame] t3_init) = Some (- 9 / 2, 15)"
proof -
  let ?r = "\<lparr>r_left = 100, r_top = 50, r_width = 400, r_height = 80\<rparr> :: rect"
  have reach: "t3_reachable ?r (t3_run ?r [Enter, Commit] t3_init)"
    by (rule t3_reachable_run [OF t3_reachable.init])
  have hov: "t3_hover (t3_run ?r [Enter, Commit] t3_init)"
    by (simp add: t3_init_def t3_mouse_enter_def t3_commit_def Let_def)
  have m: "t3_mouse (t3_run ?r [Enter, Commit] t3_init) = (0, 0)"
    by (simp add: t3_init_def t3_mouse_enter_def t3_commit_def Let_def)
  have i: "\<not> t3_hover t3_init \<and> t3_mouse t3_init = (0, 0)"
    by (simp add: t3_init_def)
  show ?thesis
    using t3_event_orders [OF reach, of 0 0] t3_event_orders [OF t3_reachable.init [of ?r], of 300 90] hov m i
    by (simp add: t3_rotation_def Let_def)
qed

theorem title_offsets_bounded_witness:
  "\<bar>fst (t3_rotation (\<lparr>r_left = 100, r_top = 50, r_width = 400, r_height = 80\<rparr> :: rect) (300, 90))\<bar> \<le> 2
   \<and> \<bar>fst (sv_title (st_render (st_mouse_move 100 50 (st_mount 800 600 st_init)) (\<lambda>_. 0)))\<bar> \<le> 20
   \<and> list_all (\<lambda>(off, pos). \<bar>fst off\<bar> \<le> 20 \<and> \<bar>snd off\<bar> \<le> 15)
       (gv_cats (gothic_render (gothic_mouse_move 800 600 100 50) (\<lambda>_. 0)))"
  using title_offsets_bounded [where r = "\<lparr>r_left = 100, r_top = 50, r_width = 400, r_height = 80\<rparr>"
      and x = 300 and y = 90 and s = "st_mouse_move 100 50 (st_mount 800 600 st_init)"
      and rnd = "\<lambda>_. 0" and iw = 800 and ih = 600 and cx = 100 and cy = 50 and rnd' = "\<lambda>_. 0"]
  by (simp add: st_mouse_move_def st_mount_def st_init_def)

lemma st_particles_wf:
  assumes "\<And>i. js_random (rnd i)"
  shows "length (st_particles rnd) = 20 \<and> list_all particle_wf (st_particles rnd)"
proof -
  have "particle_wf \<lparr>pt_id = i, pt_size = rnd (5 * i) * 4 + 2, pt_x = rnd (5 * i + 1) * 100,
               pt_y = rnd (5 * i + 2) * 100, pt_duration = rnd (5 * i + 3) * 20 + 10,
               pt_delay = rnd (5 * i + 4) * 5\<rparr>" for i
    using assms [of "5 * i"] assms [of "5 * i + 1"] assms [of "5 * i + 2"] assms [of "5 * i + 3"]
      assms [of "5 * i + 4"]
    by (simp add: particle_wf_def js_random_def)
  then show ?thesis by (simp add: st_particles_def list_all_iff)
qed

lemma st_particles_rerandomised:
  "rnd 0 \<noteq> rnd' 0 \<Longrightarrow> sv_particles (st_render s rnd) \<noteq> sv_particles (st_render s' rnd')"
  by (simp add: st_render_def st_particles_def upt_rec)

lemma st_offset_before_first_move:
  "sv_title (st_render (st_mount w h st_init) rnd) = (- w / 40, - h / 40)
   \<and> sv_subtitle (st_render (st_mount w h st_init) rnd) = (- w / 20, - h / 20)"
  by (simp add: st_render_def calc_parallax_def st_mount_def st_init_def)

end
