(* ===== verification/Spec2Isabelle.thy ===== *)
theory Spec2Isabelle
  imports Auth StompCounter Tournament Spreadsheet EditableTeamTable EditableChart PendingPlayers
    PlayerDatabase TeamOverview MatchHistory CherryBlossoms Animations Titles
begin

text \<open>
  \<^bold>\<open>A verification development of Misocism, a browser scorekeeping tool.\<close>

  The repository is a Next.js application (\<open>src/app\<close>, \<open>src/components\<close>, \<open>src/lib\<close>).
  Its one stateful service is the credential authority \<open>AuthSystem\<close> of
  \<open>src/lib/auth.ts\<close>; the rest is React components whose state is plain data (teams, players,
  penalties, spreadsheet rows, a tournament bracket) changed by event handlers, and purely
  decorative animations. Components interact through props and callbacks: the stomp-counter
  page (\<open>src/app/stomp-counter/page.tsx\<close>) owns the teams, penalties and saved match and
  hands callbacks to \<open>TeamManager\<close>, \<open>PenaltiesManager\<close> and \<open>StompChart\<close>, whose
  events it applies, and renders \<open>SavedMatchView\<close> from the saved match.

  \<^bold>\<open>Theories.\<close>
  \<^item> \<open>Prelude\<close>: the JavaScript built-ins the sources call (\<open>trim\<close>, \<open>substring\<close>,
    \<open>reduce\<close> as a sum, \<open>Number(v) || 0\<close>), the error values of a run
    (\<open>TypeError\<close>, \<open>InvalidCharacterError\<close>), shared list and sum lemmas, and the
    \<open>js_simps\<close> and \<open>wf_intros\<close> collections.
  \<^item> \<open>Base64\<close>: the browser's \<open>btoa\<close>/\<open>atob\<close>, modelled from the HTML standard (platform
    code, not in the map), with the round trip \<open>atob (btoa s) = Inr s\<close> proved group by group.
  \<^item> \<open>Auth\<close>: \<open>src/lib/auth.ts\<close>. \<open>encrypt\<close>/\<open>decrypt\<close>; the record \<open>auth_system\<close> for
    the class's fields; \<open>verify_password\<close>, \<open>create_temp_password\<close>,
    \<open>cleanup_temp_passwords\<close>, \<open>get_temp_passwords\<close> for its methods; \<open>get_instance\<close>
    over \<open>auth_runtime\<close> for the singleton and the timer its constructor registers; and the
    lifecycle as the inductive relation \<open>auth_reachable\<close> (issue, passing time, timer sweep
    every 60000 ms). Time (\<open>Date.now()\<close>) and the random token
    (\<open>Math.random().toString(36)\<close>) are arguments. Properties C1 to C9: the functional
    behaviour and precedence of verification (master, then admin, then temporary), the
    encrypt/decrypt round trip, expiry, the
    sweep's invisibility, the sweep bound as an invariant of every reachable state (and its
    failure for negative validities), immutability of the fixed passwords, the token bound,
    with the empty-token acceptance; the lemmas \<open>get_instance_idempotent\<close> and \<open>alice_example\<close>
    add singleton idempotence and the specification's worked example.

  \<^item> \<open>TeamManager\<close>: \<open>src/components/team-manager.tsx\<close>. The local state
    \<open>tm_state\<close>, the handlers \<open>tm_handle_add_team\<close>, \<open>tm_save_team_name\<close>,
    \<open>tm_start_editing\<close>, \<open>tm_cancel_editing\<close>, and \<open>tm_emits\<close>, the events
    (\<open>team_event\<close>) its buttons can pass to the page for a \<open>teams\<close> prop, characterised
    exactly by \<open>tm_emits_simps\<close>.
  \<^item> \<open>PenaltiesManager\<close>: \<open>src/components/penalties-manager.tsx\<close>. The form record
    \<open>penalty\<close>, its inputs, the add guard \<open>pm_handle_add_penalty\<close>, grouping and totals by
    team, and \<open>pm_form\<close>/\<open>pm_emits\<close>, the forms it can hold and the penalties it emits.
  \<^item> \<open>StompChart\<close>: \<open>src/components/stomp-chart.tsx\<close>. \<open>teamPlayers\<close> as a map from
    team to rows (\<open>chart_state\<close>), the presets, \<open>calculate_team_totals\<close>,
    \<open>overall_totals\<close>, the row handlers (returning \<open>Inl JsTypeError\<close> for a team without
    rows), and \<open>chart_save\<close>; \<open>chart_wf\<close> (one row list per team, rows tagged with their
    team) is kept by every handler (the \<open>wf_intros\<close> rules); \<open>chart_reachable\<close>, the
    states its buttons and inputs reach, keep a row with distinct ids in every team, since the
    delete button is disabled on a team's last row (\<open>chart_reachable_rows_ok\<close>).
    Property C22: in every reachable state no handler on a team of the prop and no save raises
    the \<open>TypeError\<close>; the state is initialised once, so a team added to the prop later makes
    the save raise it.
  \<^item> \<open>SavedMatchView\<close>: \<open>src/components/saved-match-view.tsx\<close>. Totals by team
    (\<open>sv_team_totals\<close>), the winner (\<open>get_winning_team\<close>, a stable descending sort, with
    \<open>get_winning_team_spec\<close> characterising it by the maximum net gain), the banner, and
    the team sections (\<open>sv_sections\<close>), whose totals rows are the sums of their rows
    (\<open>sv_team_section_consistent\<close>).
  \<^item> \<open>StompCounter\<close>: \<open>src/app/stomp-counter/page.tsx\<close>. The page state
    \<open>page_state\<close> (its six hooks), every handler, and \<open>page_reachable\<close>: from
    \<open>page_init\<close>, any event \<open>tm_emits\<close> or \<open>pm_emits\<close> allows for the current teams,
    any penalty deletion, a save of \<open>chart_save\<close> from a well-formed chart, the edit button
    while the saved match is shown, and tab changes. Radix tabs unmount inactive content, so a
    child's \<open>teams\<close> prop does not change while it is shown and each child is modelled for
    a fixed \<open>teams\<close>. Properties C10 to C12: the page invariant \<open>page_wf\<close> on every
    reachable state, the delete cascade, and renaming in place (the new name at the old name's
    index) carrying a team's totals.

  \<^item> \<open>Tournament\<close>: \<open>src/app/tournament/page.tsx\<close>. The state \<open>tour_state\<close> (teams,
    name input, matches, dragged team), \<open>initialize_bracket\<close> with the round count
    \<open>ceil_log2\<close> (proved equal to \<open>Math.ceil(Math.log2 n)\<close> over the reals by the lemma
    \<open>ceil_log2_real\<close>),
    \<open>add_team\<close>, \<open>handle_drag_start\<close>, \<open>handle_drop\<close>, and \<open>set_winner\<close>: the values it
    passes to \<open>setMatches\<close> are listed in order by \<open>set_winner_calls\<close> and
    \<open>react_commit\<close> keeps the last, as React does for two calls with plain values in one
    event. \<open>tour_reachable\<close> closes the page under its events; \<open>tour_wf\<close> (the bracket has
    the ids, rounds and positions of a fresh one, slots name listed teams) holds in every
    reachable state. Properties C13 to C16: the invariant, the bracket's size and capacity, the
    lost winner of non-final matches, the recorded winner of the final, and the
    reset of the bracket on every added team. Arithmetic is exact: the model assumes
    \<open>Math.log2\<close> is exact on team counts, which holds far beyond any realistic count.

  \<^item> \<open>Spreadsheet\<close>: \<open>src/components/stomp-spreadsheet.tsx\<close> (a component no page renders).
    The state \<open>sheet_state\<close> (rows and the totals kept by an effect), \<open>add_row\<close>,
    \<open>delete_row\<close>, \<open>update_row\<close> (recomputing the gain for the stomp fields),
    \<open>handle_import\<close>, \<open>handle_key_down\<close>, and \<open>sheet_reachable\<close>, each event followed by
    the totals effect (\<open>sheet_effect\<close>). Properties C17 to C19: the row and totals invariant,
    the import's contract, and the Tab key that never adds a row.

  \<^item> \<open>EditableTeamTable\<close>: \<open>src/components/editable-team-table.tsx\<close> (not rendered by
    a page). The edited cell and the add form as records, the handlers, the totals, and
    \<open>et_emits\<close>, the events its cells and buttons pass to the parent. Property C20:
    \<open>et_emits\<close> coincides with the well-formedness predicate \<open>et_event_ok\<close>
    (soundness, and completeness when player ids are distinct).

  \<^item> \<open>JsString\<close>: the string methods the player components call, on Latin-1 characters:
    \<open>toLowerCase\<close>, \<open>toUpperCase\<close> (\<open>\<ss>\<close> to \<open>SS\<close>; U+00FF, whose capital is
    outside Latin-1, is left unchanged: the one departure from the browser), \<open>includes\<close>
    (proved equal to \<^const>\<open>sublist\<close>), \<open>split\<close> on one character (a \<open>function\<close> whose
    termination is proved by the measure \<open>length s\<close>) and \<open>join\<close>, with the round trip
    \<open>js_join [c] (js_split c s) = s\<close>.
  \<^item> \<open>PlayerDatabase\<close>: \<open>src/components/player-database-manager.tsx\<close> and
    \<open>src/components/player-database.tsx\<close> (neither rendered by a page). The manager's state
    \<open>pdm_state\<close> (search term and add form), its inputs, \<open>pdm_handle_add_player\<close>, the
    search filter \<open>pdm_filtered\<close>, and \<open>pdm_emits\<close>, the events it passes up. Properties C24
    and C25: the search is the case-insensitive substring test, a longer term shows a
    subsequence, and every emitted event is well-formed.
  \<^item> \<open>TeamOverview\<close>: \<open>src/components/team-overview.tsx\<close> and
    \<open>src/components/player-card.tsx\<close> (not rendered by a page). The ranking
    \<open>sorted_players\<close> (the comparator \<open>b - a\<close> as a stable sort on the negated gain), the
    top three, the chart data and the rendered view \<open>team_overview\<close>; the card's
    \<open>initials\<close>. Properties C26 and C27: the ranking is a sorted permutation whose first three
    gain at least as much as every other player; for a name of non-empty words separated by
    single spaces the initials are the upper case of each word's first letter.
  \<^item> \<open>PendingPlayers\<close>: \<open>src/components/pending-players.tsx\<close> (not rendered by a page).
    The form \<open>pending_player\<close>, its inputs, \<open>pp_handle_add_player\<close>, \<open>pp_state\<close> (the forms
    reachable under a history of \<open>teams\<close> props: the form's team is set once and kept over
    re-renders) and \<open>pp_emits\<close>. Property C28: an emitted player is named and its team is one
    the component was given, one of the current teams while the prop is unchanged;
    \<open>pending_team_stale\<close> shows a deleted team emitted after the prop changed.
  \<^item> \<open>MatchHistory\<close>: the shared types of \<open>src/types/index.ts\<close> as records and
    \<open>src/components/match-history.tsx\<close> (not rendered by a page): the expanded card
    (\<open>string option\<close>), the header toggle \<open>mh_toggle\<close>, the cards \<open>mh_view\<close>. Property
    C29: at most one card is open when match ids are distinct, and the toggle's behaviour.
  \<^item> \<open>EditableChart\<close>: \<open>src/components/editable-chart.tsx\<close> (not rendered by a page), the
    stomp chart without penalties, starting with five rows per team. Its handlers, totals and
    save coincide with the stomp chart's run with an empty penalty list (the lemmas
    \<open>ec_refines_stomp_chart\<close>), and \<open>ec_reachable\<close>, the states its presets, buttons and
    inputs reach, are states \<open>chart_reachable\<close> reaches (\<open>ec_reachable_chart\<close>). Property
    C30: in every reachable state each team keeps a row, no handler or save raises a
    \<open>TypeError\<close>, and the rendered chart \<open>ec_render\<close> has one section per team whose totals
    row sums its rows, the overall row summing the team totals.

  \<^item> \<open>CherryBlossoms\<close>: \<open>src/components/cherry-blossoms.tsx\<close> (not rendered by a page).
    Petals (\<open>petal_new\<close>, \<open>petal_update\<close>), the 20 fps limiter of each loop
    (\<open>limiter\<close>), and the state \<open>blossom\<close>: the \<open>requestAnimationFrame\<close> callbacks with
    their own \<open>lastTime\<close>, \<open>animationRef\<close>, visibility and canvas size, changed by the mount
    and visibility effects, frames, the observer, resizes and the unmount
    (\<open>blossom_reachable\<close>). Numbers are exact reals. Properties C31 to C34: the petals keep
    their constructor's ranges (a type invariant); the mount loop is never cancelled, so the
    animation never pauses (and outlives the unmount, \<open>blossom_unmount_leaks\<close>); a petal's
    fall, counted by the \<open>partial_function\<close> \<open>frames_until_reset\<close>, terminates within
    \<open>\<lceil>height - y\<rceil>\<close> frames; the limiter draws again after any call and at most once per
    50 ms.
  \<^item> \<open>Animations\<close>: \<open>src/components/opening-animation.tsx\<close> (the overlay, its timer and
    the \<open>localStorage\<close> flag) and \<open>src/components/performance-optimizer.tsx\<close> (the device
    classification, the document's classes and style properties, the debounced scroll and
    resize classes). Properties C35 and C36: the overlay shows on a first visit only and is
    hidden by its timer; the classification, the blur rule and the 100 ms debounce.

  \<^item> \<open>Titles\<close>: \<open>src/components/animated-3d-title.tsx\<close>,
    \<open>src/components/stylized-title.tsx\<close> and \<open>src/components/gothic-title.tsx\<close>. The 3D
    title's state \<open>t3_state\<close> holds the committed hover flag and pointer, the values queued by
    \<open>setState\<close> and not yet rendered, whether an animation frame is requested, and the
    inline transform; its handlers (\<open>t3_mouse_enter\<close>, \<open>t3_mouse_leave\<close>,
    \<open>t3_mouse_move\<close>), React's commit with the effect cleanups and re-runs
    (\<open>t3_commit\<close>) and the animation frame (\<open>t3_frame\<close>) are events of
    \<open>t3_step\<close>, so that an interleaving is a list of events (\<open>t3_run\<close>) and
    \<open>t3_reachable\<close> closes the initial state under all of them; \<open>t3_inv\<close> (a frame is
    requested exactly while hovered) holds in every reachable state. The stylized title's
    pointer and window state with its handlers, \<open>calc_parallax\<close> and the random particles
    (\<open>st_render\<close>); the gothic title's offset handler and the offsets of its cats, title and
    subtitle (\<open>gothic_render\<close>). Properties C37 and C38: the tilt and parallax offsets are
    bounded while the pointer is over the element or window; the order of leave, frame and
    commit decides whether the 3D title's reset survives, and a move before the commit after
    entering is dropped. The lemma \<open>st_particles_wf\<close> gives the particles' ranges and
    \<open>st_offset_before_first_move\<close> the off-centre rest position before any mousemove.

  Not modelled: rendering and styling; the keyframe animations of the cats and flowers
  (\<open>animated-cat.tsx\<close>, \<open>animated-flower.tsx\<close>, \<open>flower-button.tsx\<close>), which have no
  state; the three.js scene of \<open>cat-3d.tsx\<close>, which only configures library objects
  (renderer, loader, orbit controls); the static footer, description and layout; the home
  page (\<open>src/app/page.tsx\<close>), whose only state, \<open>loaded\<close>, is set on mount and never read;
  and number and date formatting (\<open>toLocaleString\<close>, \<open>toLocaleDateString\<close>).

  Numbers: stomp counts and penalty amounts are integers (\<^typ>\<open>int\<close>), and an input's
  \<open>Number(value) || 0\<close> is modelled on integer entries (\<open>js_num\<close>, \<open>None\<close> for an empty
  or invalid field). The \<open>type="number"\<close> fields also accept fractions such as \<open>2.5\<close>,
  whose double-precision sums round; such entries are outside the model. On integers the
  browser's arithmetic is exact, so every totals equation proved here holds in the browser
  for integer entries. Positions and times of the animations are exact reals.
\<close>


section \<open>Properties spanning the components\<close>

text \<open>A save from a chart whose rows are all named hands the page exactly the chart's rows.\<close>

lemma saved_team_totals_eq:
  assumes wf: "chart_wf teams tp" and dist: "distinct teams"
    and named: "list_all (\<lambda>t. list_all (\<lambda>p. js_trim (cp_name p) \<noteq> []) (team_rows tp t)) teams"
    and save: "chart_save teams tp pens = Inr (Inr (ps, mpens))"
    and t: "t \<in> set teams"
  shows "sv_team_totals teams ps mpens t = Some (calculate_team_totals tp pens t)"
proof -
  have ok: "list_all (\<lambda>t. tp t \<noteq> None) teams"
    using wf by (auto simp: chart_wf_def list_all_iff)
  have "filter (\<lambda>p. js_trim (cp_name p) \<noteq> []) (team_rows tp t') = team_rows tp t'"
    if "t' \<in> set teams" for t'
    using named that by (simp add: list_all_iff filter_id_conv)
  then have M: "map (\<lambda>t. map to_match_player (filter (\<lambda>p. js_trim (cp_name p) \<noteq> []) (team_rows tp t))) teams
               = map (\<lambda>t. map to_match_player (team_rows tp t)) teams"
    by simp
  have ps0: "ps = concat (map (\<lambda>t. map to_match_player
                 (filter (\<lambda>p. js_trim (cp_name p) \<noteq> []) (team_rows tp t))) teams)"
    and pens: "mpens = map to_match_penalty pens"
    using save collect_named_ok [OF ok] by (auto simp: chart_save_def split: if_splits)
  from ps0 have ps: "ps = concat (map (\<lambda>t. map to_match_player (team_rows tp t)) teams)"
    by (simp only: M)
  have "filter (\<lambda>p. mp_team p = t) ps = map to_match_player (team_rows tp t)"
    unfolding ps using dist t
    by (rule filter_concat_keyed) (auto simp: to_match_player_def dest: chart_wf_team_rows [OF wf])
  moreover have "filter (\<lambda>p. mpn_team p = t) mpens = map to_match_penalty (filter (\<lambda>p. pen_team p = t) pens)"
    by (simp add: pens filter_map comp_def to_match_penalty_def)
  ultimately show ?thesis
    using t by (simp add: sv_team_totals_in calculate_team_totals_def Let_def comp_def
        to_match_player_def to_match_penalty_def)
qed

text \<open>
  C23. When every row of the chart has a name, the overview the page shows after Save to
  Counter agrees with the chart: each team's totals in \<open>SavedMatchView\<close> are the totals
  \<open>StompChart\<close> displayed for it, and the overall net gain is the chart's overall net gain.
\<close>

theorem overview_matches_chart:
  assumes "chart_wf teams tp" and "distinct teams"
    and "list_all (\<lambda>t. list_all (\<lambda>p. js_trim (cp_name p) \<noteq> []) (team_rows tp t)) teams"
    and "chart_save teams tp pens = Inr (Inr (ps, mpens))"
  shows "(\<forall>t. t \<in> set teams \<longrightarrow> sv_team_totals teams ps mpens t = Some (calculate_team_totals tp pens t))
         \<and> sv_overall tt_net teams (sv_team_totals teams ps mpens) = tt_net (overall_totals teams tp pens)"
proof -
  have each: "sv_team_totals teams ps mpens t = Some (calculate_team_totals tp pens t)"
    if "t \<in> set teams" for t
    using saved_team_totals_eq [OF assms that] .
  then have "map (\<lambda>t. case sv_team_totals teams ps mpens t of None \<Rightarrow> 0 | Some tt \<Rightarrow> tt_net tt) teams
               = map (tt_net \<circ> calculate_team_totals tp pens) teams"
    by simp
  moreover have "remdups teams = teams"
    using assms(2) by (rule distinct_remdups_id)
  ultimately have "sv_overall tt_net teams (sv_team_totals teams ps mpens)
                     = sum_list (map (tt_net \<circ> calculate_team_totals tp pens) teams)"
    unfolding sv_overall_def js_sum_eq by metis
  then show ?thesis
    using each by (simp add: overall_totals_def foldl_add_total zero_total_def)
qed

theorem overview_matches_chart_witness:
  "sv_overall tt_net [''A'', ''B'']
     (sv_team_totals [''A'', ''B''] [\<lparr>mp_name = ''a'', mp_before = 0, mp_after = 4, mp_team = ''A''\<rparr>,
                                    \<lparr>mp_name = ''b'', mp_before = 1, mp_after = 2, mp_team = ''B''\<rparr>] [])
   = tt_net (overall_totals [''A'', ''B'']
       [''A'' \<mapsto> [\<lparr>cp_id = ''1'', cp_name = ''a'', score_before = 0, score_after = 4, cp_team = ''A''\<rparr>],
        ''B'' \<mapsto> [\<lparr>cp_id = ''2'', cp_name = ''b'', score_before = 1, score_after = 2, cp_team = ''B''\<rparr>]] [])"
proof -
  define tp where "tp = [''A'' \<mapsto> [\<lparr>cp_id = ''1'', cp_name = ''a'', score_before = 0, score_after = 4, cp_team = ''A''\<rparr>],
        ''B'' \<mapsto> [\<lparr>cp_id = ''2'', cp_name = ''b'', score_before = 1, score_after = 2, cp_team = ''B''\<rparr>]]"
  have wf: "chart_wf [''A'', ''B''] tp"
    by (auto simp: chart_wf_def tp_def)
  have named: "list_all (\<lambda>t. list_all (\<lambda>p. js_trim (cp_name p) \<noteq> []) (team_rows tp t)) [''A'', ''B'']"
    by (simp add: tp_def team_rows_def js_trim_Nil_iff js_is_space_def)
  have save: "chart_save [''A'', ''B''] tp [] =
      Inr (Inr ([\<lparr>mp_name = ''a'', mp_before = 0, mp_after = 4, mp_team = ''A''\<rparr>,
                 \<lparr>mp_name = ''b'', mp_before = 1, mp_after = 2, mp_team = ''B''\<rparr>], []))"
    by (simp add: chart_save_def tp_def js_trim_Nil_iff js_is_space_def to_match_player_def)
  from overview_matches_chart [OF wf _ named save] show ?thesis
    by (simp add: tp_def)
qed

text \<open>
  Rows without a name are counted in the chart's totals but dropped by the save, so the
  overview can show other totals than the chart just displayed: here the chart shows a gain of
  11 and the overview a gain of 1.
\<close>

lemma unnamed_rows_change_totals:
  "chart_save [''A'', ''B'']
     [''A'' \<mapsto> [\<lparr>cp_id = ''1'', cp_name = [], score_before = 0, score_after = 10, cp_team = ''A''\<rparr>],
      ''B'' \<mapsto> [\<lparr>cp_id = ''2'', cp_name = ''b'', score_before = 0, score_after = 1, cp_team = ''B''\<rparr>]] []
     = Inr (Inr ([\<lparr>mp_name = ''b'', mp_before = 0, mp_after = 1, mp_team = ''B''\<rparr>], []))
   \<and> tt_gained (overall_totals [''A'', ''B'']
       [''A'' \<mapsto> [\<lparr>cp_id = ''1'', cp_name = [], score_before = 0, score_after = 10, cp_team = ''A''\<rparr>],
        ''B'' \<mapsto> [\<lparr>cp_id = ''2'', cp_name = ''b'', score_before = 0, score_after = 1, cp_team = ''B''\<rparr>]] []) = 11
   \<and> sv_overall tt_gained [''A'', ''B'']
       (sv_team_totals [''A'', ''B''] [\<lparr>mp_name = ''b'', mp_before = 0, mp_after = 1, mp_team = ''B''\<rparr>] []) = 1"
  by (simp add: chart_save_def js_trim_Nil_iff js_is_space_def to_match_player_def overall_totals_def
      foldl_add_total zero_total_def calculate_team_totals_def team_rows_def Let_def sv_overall_def
      sv_team_totals_in)

end
